(* ===== verification/F64.thy ===== *)
theory F64
  imports Prelude
begin

section \<open>Go's float64 arithmetic\<close>

text \<open>
  Scores, accuracies and streak multipliers are computed in \<open>float64\<close> and converted back with
  \<open>int(...)\<close>, so rounding decides the points a player gets. A finite \<open>float64\<close> is the
  rational number it stands for, and every operation of the source is the exact operation
  followed by \<open>f64\<close>: rounding to a 53-bit significand, ties to even (IEEE 754 binary64, as the
  Go specification requires). Overflow and subnormal numbers are outside this function: the
  sources only form quotients of durations, products with constants up to a few hundred and
  sums of scores, which stay far inside the normal range. \<open>f64\<close> computes, so a closed
  instance evaluates by \<open>code_simp\<close>.
\<close>

subsection \<open>The binary exponent of a positive rational\<close>

function blen :: "int \<Rightarrow> nat" where
  "blen n = (if n \<le> 0 then 0 else Suc (blen (n div 2)))"
  by pat_completeness auto
termination
  by (relation "measure nat") auto

declare blen.simps [simp del]

definition bexp :: "rat \<Rightarrow> int" where
  "bexp x = (let (p, q) = quotient_of x; e = int (blen p) - int (blen q)
             in if 2 powi e \<le> x then e else e - 1)"

lemma blen_bounds: "0 < n \<Longrightarrow> 2 ^ (blen n - 1) \<le> n \<and> n < 2 ^ blen n"
proof (induction n rule: blen.induct)
  case (1 n)
  show ?case
  proof (cases "n div 2 = 0")
    case True
    with 1 have "n = 1" by simp
    then show ?thesis by (simp add: blen.simps)
  next
    case False
    with 1 have IH: "2 ^ (blen (n div 2) - 1) \<le> n div 2" "n div 2 < 2 ^ blen (n div 2)" by auto
    from False 1 have pos: "0 < blen (n div 2)" by (subst blen.simps) simp
    have eq: "blen n = Suc (blen (n div 2))" using 1 by (subst blen.simps) simp
    have "(2::int) ^ blen (n div 2) = 2 * 2 ^ (blen (n div 2) - 1)"
      using pos by (cases "blen (n div 2)") auto
    with IH(1) have "2 ^ blen (n div 2) \<le> n" by linarith
    moreover from IH(2) have "n < 2 * 2 ^ blen (n div 2)" by linarith
    ultimately show ?thesis by (simp add: eq)
  qed
qed

lemma blen_pos: "0 < n \<Longrightarrow> 0 < blen n"
  by (subst blen.simps) simp

lemma powi_mono2: "a \<le> b \<Longrightarrow> (2::rat) powi a \<le> 2 powi b"
  by (rule power_int_increasing) auto

lemma powi_pos2 [simp]: "0 < (2::rat) powi a"
  by simp

lemma powi_add1: "(2::rat) powi (a + 1) = 2 * 2 powi a"
  by (simp add: power_int_add)

lemma powi_strict2: "(2::rat) powi a < 2 powi b \<Longrightarrow> a < b"
  by (meson linorder_not_less powi_mono2)

lemma powi_le2: "(2::rat) powi a \<le> 2 powi b \<Longrightarrow> a \<le> b"
  by (meson linorder_not_less one_less_numeral_iff power_int_strict_increasing semiring_norm(76))

lemma bexp_unique:
  fixes x :: rat and e f :: int
  assumes "2 powi e \<le> x" "x < 2 powi (e + 1)" "2 powi f \<le> x" "x < 2 powi (f + 1)"
  shows "e = f"
proof -
  from assms have "(2::rat) powi e < 2 powi (f + 1)" "(2::rat) powi f < 2 powi (e + 1)" by linarith+
  then show ?thesis by (auto dest!: powi_strict2)
qed

lemma blen_quot:
  assumes "0 < p" "0 < q"
  defines "e \<equiv> int (blen p) - int (blen q)"
  shows "2 powi (e - 1) < (of_int p / of_int q :: rat) \<and> (of_int p / of_int q :: rat) < 2 powi (e + 1)"
proof -
  let ?p = "of_int p :: rat" and ?q = "of_int q :: rat"
  from blen_bounds [OF assms(1)] blen_bounds [OF assms(2)]
  have "2 ^ (blen p - 1) \<le> ?p" "?p < 2 ^ blen p" "2 ^ (blen q - 1) \<le> ?q" "?q < 2 ^ blen q"
    by (metis of_int_le_iff of_int_less_iff of_int_numeral of_int_power)+
  then have p: "2 powi (int (blen p) - 1) \<le> ?p" "?p < 2 powi int (blen p)"
    and q: "2 powi (int (blen q) - 1) \<le> ?q" "?q < 2 powi int (blen q)"
    using blen_pos [OF assms(1)] blen_pos [OF assms(2)]
    by (auto simp: power_int_def nat_diff_distrib)
  have q0: "0 < ?q" using assms(2) by simp
  have "2 powi (e - 1) * ?q < 2 powi (e - 1) * 2 powi int (blen q)"
    using q(2) by simp
  also have "\<dots> = 2 powi (int (blen p) - 1)"
    by (simp add: e_def flip: power_int_add del: power_int_of_nat)
  also have "\<dots> \<le> ?p" by (rule p(1))
  finally have lo: "2 powi (e - 1) * ?q < ?p" .
  have "?p < 2 powi int (blen p)" by (rule p(2))
  also have "\<dots> = 2 powi (e + 1) * 2 powi (int (blen q) - 1)"
    by (simp add: e_def flip: power_int_add)
  also have "\<dots> \<le> 2 powi (e + 1) * ?q" using q(1) by simp
  finally have hi: "?p < 2 powi (e + 1) * ?q" .
  from lo hi q0 show ?thesis by (simp add: field_simps)
qed

lemma bexp_bounds:
  assumes "0 < x"
  shows "2 powi (bexp x) \<le> x \<and> x < 2 powi (bexp x + 1)"
proof -
  obtain p q where pq: "quotient_of x = (p, q)" by force
  then have q: "0 < q" by (rule quotient_of_denom_pos)
  from pq have x: "x = of_int p / of_int q" by (rule quotient_of_div)
  with assms q have p: "0 < p" by (simp add: zero_less_divide_iff)
  from blen_quot [OF p q]
  have "2 powi (int (blen p) - int (blen q) - 1) < x" "x < 2 powi (int (blen p) - int (blen q) + 1)"
    by (auto simp: x)
  then show ?thesis by (auto simp: bexp_def pq Let_def)
qed

lemma bexp_eqI: "2 powi e \<le> x \<Longrightarrow> x < 2 powi (e + 1) \<Longrightarrow> bexp x = e"
  using bexp_bounds [of x] powi_pos2 [of e] by (intro bexp_unique [of "bexp x" x e]) (auto simp del: powi_pos2)

subsection \<open>Rounding to the nearest integer, ties to even\<close>

definition rne :: "rat \<Rightarrow> int" where
  "rne m = (let f = \<lfloor>m\<rfloor>; d = m - of_int f
            in if d < 1/2 then f else if 1/2 < d then f + 1 else if even f then f else f + 1)"

lemma rne_of_int [simp]: "rne (of_int n) = n"
  by (simp add: rne_def)

lemma rne_bounds: "\<lfloor>m\<rfloor> \<le> rne m" "rne m \<le> \<lfloor>m\<rfloor> + 1"
  by (auto simp: rne_def Let_def)

lemma rne_mono:
  assumes "x \<le> y"
  shows "rne x \<le> rne y"
proof (cases "\<lfloor>x\<rfloor> = \<lfloor>y\<rfloor>")
  case True
  with assms show ?thesis by (auto simp: rne_def Let_def)
next
  case False
  with assms have "\<lfloor>x\<rfloor> + 1 \<le> \<lfloor>y\<rfloor>" using floor_mono [of x y] by linarith
  then show ?thesis using rne_bounds(2) [of x] rne_bounds(1) [of y] by linarith
qed

lemma rne_minus: "rne (- m) = - rne m"
proof (cases "m = of_int \<lfloor>m\<rfloor>")
  case True
  then show ?thesis by (metis of_int_minus rne_of_int)
next
  case False
  then have "\<lfloor>- m\<rfloor> = - \<lfloor>m\<rfloor> - 1"
    by (intro floor_unique) (use floor_correct [of m] in \<open>simp_all, linarith+\<close>)
  then show ?thesis by (auto simp: rne_def Let_def)
qed

subsection \<open>Rounding to binary64\<close>

definition f64 :: "rat \<Rightarrow> rat" where
  "f64 x = (if x = 0 then 0
            else let u = 2 powi (bexp \<bar>x\<bar> - 52) in of_int (rne (x / u)) * u)"

text \<open>The conversion \<open>int(f)\<close> drops the fraction (towards zero).\<close>

definition go_trunc :: "rat \<Rightarrow> int" where
  "go_trunc x = (if 0 \<le> x then \<lfloor>x\<rfloor> else - \<lfloor>- x\<rfloor>)"

lemma f64_0 [simp]: "f64 0 = 0"
  by (simp add: f64_def)

lemma f64_minus: "f64 (- x) = - f64 x"
  by (simp add: f64_def Let_def rne_minus)

lemma f64_binade:
  assumes "0 < x"
  shows "2 powi (bexp x) \<le> f64 x" "f64 x \<le> 2 powi (bexp x + 1)"
proof -
  let ?e = "bexp x" let ?u = "(2::rat) powi (?e - 52)"
  have u: "0 < ?u" by simp
  have b: "2 powi ?e \<le> x" "x < 2 powi (?e + 1)" using bexp_bounds [OF assms] by auto
  have p: "(2::rat) powi ?e = of_int (2 ^ 52) * ?u" "(2::rat) powi (?e + 1) = of_int (2 ^ 53) * ?u"
    by (simp_all flip: power_int_add power_int_of_nat [of _ 52] power_int_of_nat [of _ 53])
       (simp_all add: power_int_diff power_int_add)
  from b(1) have "of_int (2 ^ 52) \<le> x / ?u" using u p by (simp only: pos_le_divide_eq)
  then have lo: "2 ^ 52 \<le> rne (x / ?u)" using rne_mono [of "of_int (2 ^ 52)" "x / ?u"] by (simp only: rne_of_int)
  from b(2) have "x / ?u \<le> of_int (2 ^ 53)" using u p by (simp only: pos_divide_le_eq less_imp_le)
  then have hi: "rne (x / ?u) \<le> 2 ^ 53" using rne_mono [of "x / ?u" "of_int (2 ^ 53)"] by (simp only: rne_of_int)
  have eq: "f64 x = of_int (rne (x / ?u)) * ?u" using assms by (simp add: f64_def Let_def)
  show "2 powi ?e \<le> f64 x" unfolding eq p(1) using lo u by (intro mult_right_mono) (simp_all only: of_int_le_iff less_imp_le)
  show "f64 x \<le> 2 powi (?e + 1)" unfolding eq p(2) using hi u by (intro mult_right_mono) (simp_all only: of_int_le_iff less_imp_le)
qed

lemma f64_pos: "0 < x \<Longrightarrow> 0 < f64 x"
  using f64_binade(1) [of x] powi_pos2 [of "bexp x"] by linarith

lemma f64_nonneg [simp]: "0 \<le> x \<Longrightarrow> 0 \<le> f64 x"
  using f64_pos [of x] by (cases "x = 0") auto

lemma f64_mono_pos:
  assumes "0 < x" "x \<le> y"
  shows "f64 x \<le> f64 y"
proof (cases "bexp x = bexp y")
  case True
  let ?u = "(2::rat) powi (bexp y - 52)"
  from assms have "rne (x / ?u) \<le> rne (y / ?u)" by (intro rne_mono divide_right_mono) auto
  with True assms show ?thesis by (simp add: f64_def Let_def)
next
  case False
  from assms have y: "0 < y" by linarith
  have "(2::rat) powi (bexp x) < 2 powi (bexp y + 1)"
    using bexp_bounds [OF assms(1)] bexp_bounds [OF y] assms(2) by linarith
  with False have "bexp x + 1 \<le> bexp y" by (auto dest!: powi_strict2)
  then have "(2::rat) powi (bexp x + 1) \<le> 2 powi (bexp y)" by (rule powi_mono2)
  with f64_binade(2) [OF assms(1)] f64_binade(1) [OF y] show ?thesis by linarith
qed

lemma f64_mono: "x \<le> y \<Longrightarrow> f64 x \<le> f64 y"
proof (cases "0 < x")
  case True
  then show "x \<le> y \<Longrightarrow> f64 x \<le> f64 y" by (rule f64_mono_pos)
next
  case False
  assume le: "x \<le> y"
  show ?thesis
  proof (cases "0 \<le> y")
    case True
    have "0 \<le> f64 (- x)" using False by simp
    then have "f64 x \<le> 0" using f64_minus [of x] by simp
    with True show ?thesis using f64_nonneg [of y] by linarith
  next
    case neg: False
    have "f64 (- y) \<le> f64 (- x)" using neg le by (intro f64_mono_pos) auto
    then show ?thesis by (simp add: f64_minus)
  qed
qed

lemma f64_int_pos:
  assumes "0 < n" "n \<le> 2 ^ 53"
  shows "f64 (of_int n) = of_int n"
proof -
  let ?e = "bexp (of_int n)"
  have b: "2 powi ?e \<le> (of_int n :: rat)" "(of_int n :: rat) < 2 powi (?e + 1)"
    using bexp_bounds [of "of_int n"] assms by auto
  have e53: "?e \<le> 53"
  proof -
    have "(of_int n :: rat) \<le> of_int (2 ^ 53)" using assms(2) by (simp only: of_int_le_iff)
    then have "(2::rat) powi ?e \<le> 2 powi 53" using b(1) by simp
    then show ?thesis by (rule powi_le2)
  qed
  show ?thesis
  proof (cases "?e \<le> 52")
    case True
    have "(of_int n :: rat) / 2 powi (?e - 52) = of_int (n * 2 ^ nat (52 - ?e))"
      using True by (simp add: power_int_def field_simps)
    then have "rne (of_int n / 2 powi (?e - 52)) = n * 2 ^ nat (52 - ?e)"
      by (metis rne_of_int)
    then have "f64 (of_int n) = of_int (n * 2 ^ nat (52 - ?e)) * 2 powi (?e - 52)"
      using assms(1) by (simp add: f64_def Let_def)
    also have "\<dots> = of_int n"
      using True by (simp add: power_int_def field_simps)
    finally show ?thesis .
  next
    case False
    with e53 have e: "?e = 53" by linarith
    with b(1) assms(2) have "n = 2 ^ 53" by simp
    then show ?thesis using e assms(1) by (simp add: f64_def Let_def rne_def)
  qed
qed

lemma f64_int: "\<bar>n\<bar> \<le> 2 ^ 53 \<Longrightarrow> f64 (of_int n) = of_int n"
proof -
  assume n: "\<bar>n\<bar> \<le> 2 ^ 53"
  consider "n = 0" | "0 < n" | "0 < - n" by linarith
  then show ?thesis
  proof cases
    case 1 then show ?thesis by simp
  next
    case 2 with n show ?thesis by (simp add: f64_int_pos)
  next
    case 3 with n f64_int_pos [of "- n"] f64_minus [of "of_int n"] show ?thesis by simp
  qed
qed

lemma f64_numeral: "numeral k \<le> (2 ^ 53 :: int) \<Longrightarrow> f64 (numeral k) = numeral k"
  using f64_int [of "numeral k"] by simp

lemma f64_1 [simp]: "f64 1 = 1"
  using f64_int [of 1] by simp

lemma f64_le_int: "x \<le> of_int n \<Longrightarrow> \<bar>n\<bar> \<le> 2 ^ 53 \<Longrightarrow> f64 x \<le> of_int n"
  using f64_mono [of x "of_int n"] f64_int [of n] by simp

lemma f64_ge_int: "of_int n \<le> x \<Longrightarrow> \<bar>n\<bar> \<le> 2 ^ 53 \<Longrightarrow> of_int n \<le> f64 x"
  using f64_mono [of "of_int n" x] f64_int [of n] by simp

lemma go_trunc_of_int [simp]: "go_trunc (of_int n) = n"
  by (simp add: go_trunc_def)

lemma go_trunc_nonneg [simp]: "0 \<le> x \<Longrightarrow> 0 \<le> go_trunc x"
  by (simp add: go_trunc_def)

lemma go_trunc_nonpos: "x \<le> 0 \<Longrightarrow> go_trunc x \<le> 0"
  by (auto simp: go_trunc_def)

lemma go_trunc_mono:
  assumes "x \<le> y"
  shows "go_trunc x \<le> go_trunc y"
proof (cases "0 \<le> x \<or> y < 0")
  case True
  with assms floor_mono [of x y] floor_mono [of "- y" "- x"] show ?thesis
    by (auto simp: go_trunc_def)
next
  case False
  with go_trunc_nonpos [of x] go_trunc_nonneg [of y] show ?thesis by linarith
qed

lemma go_trunc_le_int: "x \<le> of_int n \<Longrightarrow> go_trunc x \<le> n"
  using go_trunc_mono [of x "of_int n"] by simp

end
