(* ===== verification/Json.thy ===== *)
theory Json
  imports Prelude
begin

section \<open>Decoding JSON into structs (encoding/json)\<close>

text \<open>
  The handlers decode request bodies and message payloads with \<open>json.Unmarshal\<close> and
  \<open>json.Decoder\<close>. A value is \<open>json\<close>: an integer literal that fits \<open>int\<close> is a \<open>JInt\<close>, any other number a
  \<open>JNumber\<close> with its text. A text that is no JSON value is \<open>None\<close>. A key of an object fills the field
  whose name equals it up to the case of letters; \<open>null\<close> leaves a field as it is; a value of another
  type is an error, which every caller turns into one answer; a missing field keeps its zero value
  and a repeated one takes the last. Each decoder takes the old value of the field.
\<close>

datatype json =
    JNull
  | JBool bool
  | JInt int
  | JNumber string
  | JString string
  | JArray "json list"
  | JObject "(string \<times> json) list"

definition into_string :: "json \<Rightarrow> string \<Rightarrow> string option" where
  "into_string j old = (case j of JString s \<Rightarrow> Some s | JNull \<Rightarrow> Some old | _ \<Rightarrow> None)"

definition into_int :: "json \<Rightarrow> int \<Rightarrow> int option" where
  "into_int j old =
     (case j of JInt i \<Rightarrow> if - (2 ^ 63) \<le> i \<and> i < 2 ^ 63 then Some i else None | JNull \<Rightarrow> Some old | _ \<Rightarrow> None)"

definition into_bool :: "json \<Rightarrow> bool \<Rightarrow> bool option" where
  "into_bool j old = (case j of JBool b \<Rightarrow> Some b | JNull \<Rightarrow> Some old | _ \<Rightarrow> None)"

text \<open>A slice: \<open>null\<close> makes it nil, an array replaces it, each element decoded from \<open>zero\<close>.\<close>

fun into_elements :: "(json \<Rightarrow> 'a \<Rightarrow> 'a option) \<Rightarrow> 'a \<Rightarrow> json list \<Rightarrow> 'a list option" where
  "into_elements dec zero [] = Some []"
| "into_elements dec zero (j # js) =
     (case dec j zero of None \<Rightarrow> None | Some x \<Rightarrow> map_option ((#) x) (into_elements dec zero js))"

definition into_list :: "(json \<Rightarrow> 'a \<Rightarrow> 'a option) \<Rightarrow> 'a \<Rightarrow> json \<Rightarrow> 'a list \<Rightarrow> 'a list option" where
  "into_list dec zero j old = (case j of JArray js \<Rightarrow> into_elements dec zero js | JNull \<Rightarrow> Some [] | _ \<Rightarrow> None)"

text \<open>A pointer: \<open>null\<close> makes it nil.\<close>

definition into_pointer :: "(json \<Rightarrow> 'a \<Rightarrow> 'a option) \<Rightarrow> 'a \<Rightarrow> json \<Rightarrow> 'a option \<Rightarrow> 'a option option" where
  "into_pointer dec zero j old =
     (case j of JNull \<Rightarrow> Some None
      | _ \<Rightarrow> map_option Some (dec j (case old of None \<Rightarrow> zero | Some x \<Rightarrow> x)))"

fun field :: "(json \<Rightarrow> 'a \<Rightarrow> 'a option) \<Rightarrow> string \<Rightarrow> (string \<times> json) list \<Rightarrow> 'a \<Rightarrow> 'a option" where
  "field dec name [] old = Some old"
| "field dec name ((k, j) # kvs) old =
     (if equal_fold k name then (case dec j old of None \<Rightarrow> None | Some x \<Rightarrow> field dec name kvs x)
      else field dec name kvs old)"

text \<open>The fields of the object a struct is decoded from; \<open>null\<close> leaves every field as it is.\<close>

definition object_fields :: "json \<Rightarrow> (string \<times> json) list option" where
  "object_fields j = (case j of JObject kvs \<Rightarrow> Some kvs | JNull \<Rightarrow> Some [] | _ \<Rightarrow> None)"

definition string_field :: "string \<Rightarrow> (string \<times> json) list \<Rightarrow> string option" where
  "string_field name kvs = field into_string name kvs []"

definition int_field :: "string \<Rightarrow> (string \<times> json) list \<Rightarrow> int option" where
  "int_field name kvs = field into_int name kvs 0"

definition bool_field :: "string \<Rightarrow> (string \<times> json) list \<Rightarrow> bool option" where
  "bool_field name kvs = field into_bool name kvs False"

lemma field_absent: "\<forall>(k, j) \<in> set kvs. \<not> equal_fold k name \<Longrightarrow> field dec name kvs old = Some old"
  by (induction kvs) auto

lemma field_last:
  assumes "equal_fold k name"
  shows "field dec name (kvs @ [(k, j)]) old = (case field dec name kvs old of None \<Rightarrow> None | Some x \<Rightarrow> dec j x)"
proof (induction kvs arbitrary: old)
  case Nil
  then show ?case using assms by (simp split: option.split)
next
  case (Cons p kvs)
  then show ?case by (cases p) (simp split: option.split)
qed

lemma into_elements_map: "(\<And>x. x \<in> set xs \<Longrightarrow> dec (enc x) zero = Some x) \<Longrightarrow> into_elements dec zero (map enc xs) = Some xs"
  by (induction xs) auto

end
