(* ===== verification/Domain.thy ===== *)
theory Domain
  imports Prelude
begin

section \<open>The structs the components exchange\<close>

text \<open>
  The data types of \<open>internal/match/types.go\<close>, \<open>internal/question/types.go\<close> and the question
  pack item of \<open>internal/match/state.go\<close>. A field keeps its Go name behind a short prefix for
  its struct. A pointer that may be nil is an \<open>option\<close>; a \<open>float64\<close> is the rational number
  it stands for (theory F64).
\<close>

subsection \<open>Constants\<close>

definition ModeRandom1v1 :: string where "ModeRandom1v1 = ''random_1v1''"
definition ModePrivateRoom :: string where "ModePrivateRoom = ''private_room''"
definition ModeBotFill :: string where "ModeBotFill = ''bot_fill''"

definition StatusPending :: string where "StatusPending = ''pending''"
definition StatusActive :: string where "StatusActive = ''active''"
definition StatusCompleted :: string where "StatusCompleted = ''completed''"
definition StatusTimeout :: string where "StatusTimeout = ''timeout''"
definition StatusCancelled :: string where "StatusCancelled = ''cancelled''"

definition PlayerStatusQueued :: string where "PlayerStatusQueued = ''queued''"
definition PlayerStatusActive :: string where "PlayerStatusActive = ''active''"
definition PlayerStatusCompleted :: string where "PlayerStatusCompleted = ''completed''"
definition PlayerStatusLeftEarly :: string where "PlayerStatusLeftEarly = ''left_early''"
definition PlayerStatusTimeout :: string where "PlayerStatusTimeout = ''timeout''"

definition DifficultyEasy :: string where "DifficultyEasy = ''easy''"
definition DifficultyMedium :: string where "DifficultyMedium = ''medium''"
definition DifficultyHard :: string where "DifficultyHard = ''hard''"

lemmas mode_defs = ModeRandom1v1_def ModePrivateRoom_def ModeBotFill_def
lemmas status_defs = StatusPending_def StatusActive_def StatusCompleted_def StatusTimeout_def
  StatusCancelled_def
lemmas player_status_defs = PlayerStatusQueued_def PlayerStatusActive_def PlayerStatusCompleted_def
  PlayerStatusLeftEarly_def PlayerStatusTimeout_def
lemmas difficulty_defs = DifficultyEasy_def DifficultyMedium_def DifficultyHard_def

subsection \<open>Questions\<close>

record Question =
  q_ID :: string
  q_Prompt :: string
  q_Options :: "string list"
  q_Answer :: string
  q_Source :: string
  q_Token :: string

text \<open>
  Go iterates over a map in an unspecified order. A \<open>map[string]int\<close> that the code ranges
  over is the list of its entries in the order one run of the loop visits them: the keys are
  distinct, and every theorem is for every such order.
\<close>

type_synonym counts = "(string \<times> int) list"

record PackRequest =
  pr_Category :: string
  pr_DifficultyCounts :: counts
  pr_TotalQuestions :: int
  pr_Seed :: string
  pr_PerQuestionSeconds :: int
  pr_UserID :: "uuid option"
  pr_UserIDs :: "uuid option list"
  pr_MatchMode :: string

record PackResponse =
  resp_Questions :: "Question list"
  resp_Seed :: string
  resp_ExpiresAt :: int

subsection \<open>Matches and players\<close>

record QuestionPackItem =
  qp_Order :: int
  qp_ID :: string
  qp_Prompt :: string
  qp_Options :: "string list"
  qp_Token :: string
  qp_CorrectAnswer :: string

record AnswerRecord =
  ar_QuestionOrder :: int
  ar_QuestionToken :: string
  ar_Answer :: string
  ar_SubmittedAt :: instant
  ar_IsCorrect :: bool
  ar_ScoreEarned :: int

record PlayerState =
  ps_MatchID :: uuid
  ps_UserID :: uuid
  ps_IsGuest :: bool
  ps_Username :: string
  ps_JoinedAt :: instant
  ps_LeftAt :: "instant option"
  ps_FinalScore :: "int option"
  ps_Status :: string
  ps_Accuracy :: "rat option"
  ps_StreakBonusPct :: "rat option"
  ps_Answers :: "AnswerRecord list"

record Match =
  m_ID :: uuid
  m_Mode :: string
  m_QuestionCount :: int
  m_PerQuestionSeconds :: int
  m_GlobalTimeoutSeconds :: int
  m_SeedHash :: string
  m_LeaderboardEligible :: bool
  m_Status :: string
  m_CreatedBy :: "uuid option"
  m_StartedAt :: "instant option"
  m_CompletedAt :: "instant option"
  m_CreatedAt :: instant
  m_UpdatedAt :: instant

record PrivateRoomRequest =
  rr_HostID :: uuid
  rr_Username :: string
  rr_IsGuest :: bool
  rr_MatchName :: string
  rr_MaxPlayers :: int
  rr_QuestionCount :: int
  rr_PerQuestionSeconds :: int
  rr_Category :: string

record CreateRoomRequest =
  cr_MatchName :: string
  cr_MaxPlayers :: int
  cr_QuestionCount :: int
  cr_PerQuestionSeconds :: int
  cr_Category :: string

text \<open>The default that \<open>CreateRoom\<close>, \<open>CreateRandomMatch\<close>, \<open>CreatePrivateMatch\<close>,
  \<open>handleJoinQueue\<close> and the queue's \<open>normalizeCategory\<close> all give an empty category.\<close>

definition normalizeCategory :: "string \<Rightarrow> string" where
  "normalizeCategory category = (if category = '''' then ''general'' else category)"

lemma normalizeCategory_idem [simp]: "normalizeCategory (normalizeCategory c) = normalizeCategory c"
  by (simp add: normalizeCategory_def)

subsection \<open>Answer lists\<close>

text \<open>What the match service promises of a stored player state: the answers have distinct
  question orders.\<close>

definition distinct_orders :: "AnswerRecord list \<Rightarrow> bool" where
  "distinct_orders as \<longleftrightarrow> distinct (map ar_QuestionOrder as)"

lemma distinct_orders_snoc:
  "distinct_orders (as @ [a]) \<longleftrightarrow> distinct_orders as \<and> ar_QuestionOrder a \<notin> ar_QuestionOrder ` set as"
  by (auto simp: distinct_orders_def)

lemma distinct_orders_Nil [simp]: "distinct_orders []"
  by (simp add: distinct_orders_def)

end
