(* ===== verification/Scoring.thy ===== *)
theory Scoring
  imports F64 Domain
begin

section \<open>The scoring engine (internal/match/scoring/engine.go)\<close>

text \<open>
  \<open>CalculateScore\<close> scores one answer, \<open>ComputeFinalScore\<close> a whole answer list at the end of a
  match. Floating-point steps are rounded by \<open>f64\<close> exactly where the Go code performs them.
  The lemmas give the range of a score, its exact value under the default configuration
  (binary64 rounding loses no point of the streak bonus), its monotonicity, the equivalence of
  the quadratic streak recount with the running streak counter, and what happens to the time
  bonus of answers that are scored again at the end of the match.
\<close>

record ScoringConfig =
  BaseScore :: int
  MaxTimeBonus :: int
  StreakBonusPercent :: rat
  MaxStreakBonus :: rat

definition DefaultScoringConfig :: ScoringConfig where
  "DefaultScoringConfig =
     \<lparr>BaseScore = 100, MaxTimeBonus = 50, StreakBonusPercent = f64 (1/20), MaxStreakBonus = f64 (1/2)\<rparr>"

definition CalculateScore :: "ScoringConfig \<Rightarrow> bool \<Rightarrow> duration \<Rightarrow> duration \<Rightarrow> int \<Rightarrow> int" where
  "CalculateScore e isCorrect timeRemaining perQuestionTimeout currentStreak =
     (if \<not> isCorrect then 0
      else
        let score = BaseScore e;
            score =
              (if 0 < perQuestionTimeout then
                 let timeRatio = f64 (f64 (of_int timeRemaining) / f64 (of_int perQuestionTimeout));
                     timeRatio = (if 1 < timeRatio then 1 else timeRatio);
                     timeRatio = (if timeRatio < 0 then 0 else timeRatio);
                     timeBonus = go_trunc (f64 (f64 (of_int (MaxTimeBonus e)) * timeRatio))
                 in score + timeBonus
               else score)
        in if 0 < currentStreak then
             let streakMultiplier = f64 (f64 (of_int currentStreak) * StreakBonusPercent e);
                 streakMultiplier = (if MaxStreakBonus e < streakMultiplier then MaxStreakBonus e
                                     else streakMultiplier);
                 streakBonus = go_trunc (f64 (f64 (of_int (BaseScore e)) * streakMultiplier))
             in score + streakBonus
           else score)"

record ScoringAnswer =
  sa_QuestionOrder :: int
  sa_QuestionToken :: string
  sa_Answer :: string
  sa_SubmittedAt :: instant
  sa_IsCorrect :: bool
  sa_ScoreEarned :: int

text \<open>
  The inner loop \<open>for j := i - 1; j >= 0; j--\<close> counts the correct answers that end at
  position \<open>i - 1\<close>; its argument is the part of the list before position \<open>i\<close>, last element
  first.
\<close>

fun streakBack :: "ScoringAnswer list \<Rightarrow> int" where
  "streakBack [] = 0"
| "streakBack (a # r) = (if sa_IsCorrect a then streakBack r + 1 else 0)"

record FinalAcc =
  fa_total :: int
  fa_correct :: int
  fa_streak :: int
  fa_maxStreak :: int

text \<open>
  One iteration of the outer loop at index \<open>i\<close>: \<open>before\<close> is the reversed prefix and \<open>now i\<close>
  the clock reading of this iteration (\<open>time.Since\<close> reads the clock every time).
\<close>

definition final_step ::
  "ScoringConfig \<Rightarrow> (nat \<Rightarrow> instant) \<Rightarrow> duration \<Rightarrow> nat \<Rightarrow> ScoringAnswer list \<Rightarrow> ScoringAnswer \<Rightarrow>
   FinalAcc \<Rightarrow> FinalAcc" where
  "final_step e now perQuestionTimeout i before ans acc =
     (let acc = (if sa_IsCorrect ans then
                   let cs = fa_streak acc + 1
                   in acc\<lparr>fa_correct := fa_correct acc + 1, fa_streak := cs,
                          fa_maxStreak := (if fa_maxStreak acc < cs then cs else fa_maxStreak acc)\<rparr>
                 else acc\<lparr>fa_streak := 0\<rparr>);
          streakAtAnswer = streakBack before;
          streakAtAnswer = (if sa_IsCorrect ans then streakAtAnswer + 1 else streakAtAnswer);
          timeRemaining = perQuestionTimeout - (now i - sa_SubmittedAt ans);
          timeRemaining = (if timeRemaining < 0 then 0 else timeRemaining);
          score = CalculateScore e (sa_IsCorrect ans) timeRemaining perQuestionTimeout streakAtAnswer
      in acc\<lparr>fa_total := fa_total acc + score\<rparr>)"

fun final_loop ::
  "ScoringConfig \<Rightarrow> (nat \<Rightarrow> instant) \<Rightarrow> duration \<Rightarrow> nat \<Rightarrow> ScoringAnswer list \<Rightarrow> ScoringAnswer list \<Rightarrow>
   FinalAcc \<Rightarrow> FinalAcc" where
  "final_loop e now pt i before [] acc = acc"
| "final_loop e now pt i before (a # as) acc =
     final_loop e now pt (Suc i) (a # before) as (final_step e now pt i before a acc)"

definition acc0 :: FinalAcc where
  "acc0 = \<lparr>fa_total = 0, fa_correct = 0, fa_streak = 0, fa_maxStreak = 0\<rparr>"

text \<open>The result is (total score, accuracy, streak bonus percentage).\<close>

definition ComputeFinalScore ::
  "ScoringConfig \<Rightarrow> (nat \<Rightarrow> instant) \<Rightarrow> ScoringAnswer list \<Rightarrow> duration \<Rightarrow> int \<times> rat \<times> rat" where
  "ComputeFinalScore e now answers perQuestionTimeout =
     (if answers = [] then (0, 0, 0)
      else
        let acc = final_loop e now perQuestionTimeout 0 [] answers acc0;
            accuracy = f64 (f64 (of_int (fa_correct acc)) / f64 (of_int (int (length answers))));
            streakBonusPct =
              (if 0 < fa_maxStreak acc then
                 let m = f64 (f64 (of_int (fa_maxStreak acc)) * StreakBonusPercent e)
                 in if MaxStreakBonus e < m then MaxStreakBonus e else m
               else 0)
        in (fa_total acc, accuracy, streakBonusPct))"

subsection \<open>One answer\<close>

text \<open>The two bonuses of \<open>CalculateScore\<close>, named so that the lemmas can talk about them.\<close>

definition time_bonus :: "ScoringConfig \<Rightarrow> duration \<Rightarrow> duration \<Rightarrow> int" where
  "time_bonus e tr pt =
     (if 0 < pt then go_trunc (f64 (f64 (of_int (MaxTimeBonus e)) *
        max 0 (min 1 (f64 (f64 (of_int tr) / f64 (of_int pt)))))) else 0)"

definition streak_bonus :: "ScoringConfig \<Rightarrow> int \<Rightarrow> int" where
  "streak_bonus e s =
     (if 0 < s then go_trunc (f64 (f64 (of_int (BaseScore e)) *
        min (MaxStreakBonus e) (f64 (f64 (of_int s) * StreakBonusPercent e)))) else 0)"

lemma CalculateScore_split:
  "CalculateScore e c tr pt s = (if c then BaseScore e + time_bonus e tr pt + streak_bonus e s else 0)"
proof -
  have 1: "(if x < 0 then 0 else x) = max 0 (x::rat)" for x by (simp add: max_def not_less)
  have 2: "(if 1 < x then 1 else x) = min 1 (x::rat)" for x by (auto simp: min_def)
  have 3: "(if m < x then m else x) = min m (x::rat)" for m x by (auto simp: min_def)
  show ?thesis
    unfolding CalculateScore_def Let_def 1 2 3 time_bonus_def streak_bonus_def by auto
qed

definition nonneg_config :: "ScoringConfig \<Rightarrow> bool" where
  "nonneg_config e \<longleftrightarrow> 0 \<le> BaseScore e \<and> 0 \<le> MaxTimeBonus e \<and> 0 \<le> StreakBonusPercent e \<and> 0 \<le> MaxStreakBonus e"

lemma nonneg_configD [simp]:
  "nonneg_config e \<Longrightarrow> 0 \<le> BaseScore e" "nonneg_config e \<Longrightarrow> 0 \<le> MaxTimeBonus e"
  "nonneg_config e \<Longrightarrow> 0 \<le> StreakBonusPercent e" "nonneg_config e \<Longrightarrow> 0 \<le> MaxStreakBonus e"
  by (simp_all add: nonneg_config_def)

lemma nonneg_config_default [simp]: "nonneg_config DefaultScoringConfig"
  by (simp add: nonneg_config_def DefaultScoringConfig_def)

lemma time_bonus_nonneg: "nonneg_config e \<Longrightarrow> 0 \<le> time_bonus e tr pt"
  by (simp add: time_bonus_def)

lemma streak_bonus_nonneg: "nonneg_config e \<Longrightarrow> 0 \<le> streak_bonus e s"
  by (auto simp: streak_bonus_def intro!: go_trunc_nonneg f64_nonneg mult_nonneg_nonneg)

lemma time_bonus_mono: "nonneg_config e \<Longrightarrow> tr \<le> tr' \<Longrightarrow> time_bonus e tr pt \<le> time_bonus e tr' pt"
proof -
  assume e: "nonneg_config e" and le: "tr \<le> tr'"
  have "f64 (f64 (of_int tr) / f64 (of_int pt)) \<le> f64 (f64 (of_int tr') / f64 (of_int pt))" if "0 < pt"
    using that le by (intro f64_mono divide_right_mono f64_mono) auto
  then have "max 0 (min 1 (f64 (f64 (of_int tr) / f64 (of_int pt))))
    \<le> max 0 (min 1 (f64 (f64 (of_int tr') / f64 (of_int pt))))" if "0 < pt"
    using that by (auto simp: max_def min_def)
  with e show ?thesis
    unfolding time_bonus_def by (auto intro!: go_trunc_mono f64_mono mult_left_mono)
qed

lemma streak_bonus_mono: "nonneg_config e \<Longrightarrow> s \<le> s' \<Longrightarrow> streak_bonus e s \<le> streak_bonus e s'"
proof -
  assume e: "nonneg_config e" and le: "s \<le> s'"
  have "f64 (f64 (of_int s) * StreakBonusPercent e) \<le> f64 (f64 (of_int s') * StreakBonusPercent e)"
    using e le by (intro f64_mono mult_right_mono f64_mono) auto
  then have "min (MaxStreakBonus e) (f64 (f64 (of_int s) * StreakBonusPercent e))
    \<le> min (MaxStreakBonus e) (f64 (f64 (of_int s') * StreakBonusPercent e))"
    by (auto simp: min_def)
  with e le streak_bonus_nonneg [OF e, of s'] show ?thesis
    unfolding streak_bonus_def by (auto intro!: go_trunc_mono f64_mono mult_left_mono)
qed


subsection \<open>The default configuration\<close>

lemma f64_half: "f64 (1/2) = 1/2"
  by code_simp

lemma default_streak_table:
  "streak_bonus DefaultScoringConfig 1 = 5" "streak_bonus DefaultScoringConfig 2 = 10"
  "streak_bonus DefaultScoringConfig 3 = 15" "streak_bonus DefaultScoringConfig 4 = 20"
  "streak_bonus DefaultScoringConfig 5 = 25" "streak_bonus DefaultScoringConfig 6 = 30"
  "streak_bonus DefaultScoringConfig 7 = 35" "streak_bonus DefaultScoringConfig 8 = 40"
  "streak_bonus DefaultScoringConfig 9 = 45" "streak_bonus DefaultScoringConfig 10 = 50"
  by code_simp+

lemma default_cap: "f64 (f64 10 * f64 (1/20)) = 1/2"
  by code_simp

lemma f64_100: "f64 100 = 100"
  by (rule f64_numeral) simp

lemma f64_50: "f64 50 = 50"
  by (rule f64_numeral) simp

text \<open>
  With the default 5\% per consecutive correct answer the rounded products never fall short:
  the bonus is exactly five points per answer of the streak, up to fifty.
\<close>

lemma streak_bonus_default:
  assumes "0 \<le> s"
  shows "streak_bonus DefaultScoringConfig s = 5 * min s 10"
proof -
  consider "s = 0" | "1 \<le> s \<and> s \<le> 10" | "10 < s" using assms by linarith
  then show ?thesis
  proof cases
    case 1
    then show ?thesis by (simp add: streak_bonus_def)
  next
    case 2
    then have "s = 1 \<or> s = 2 \<or> s = 3 \<or> s = 4 \<or> s = 5 \<or> s = 6 \<or> s = 7 \<or> s = 8 \<or> s = 9 \<or> s = 10"
      by arith
    then show ?thesis by (elim disjE) (simp_all add: default_streak_table)
  next
    case 3
    have "f64 (of_int 10) \<le> f64 (of_int s)" using 3 by (intro f64_mono) simp
    then have "f64 10 * f64 (1/20) \<le> f64 (of_int s) * f64 (1/20)"
      by (intro mult_right_mono) auto
    then have "f64 (f64 10 * f64 (1/20)) \<le> f64 (f64 (of_int s) * f64 (1/20))" by (rule f64_mono)
    then have "min (f64 (1/2)) (f64 (f64 (of_int s) * f64 (1/20))) = f64 (1/2)"
      by (simp only: default_cap f64_half min_absorb1)
    moreover have "go_trunc (f64 (f64 100 * f64 (1/2))) = 50" by code_simp
    ultimately show ?thesis using 3
      by (simp add: streak_bonus_def DefaultScoringConfig_def)
  qed
qed

lemma streak_bonus_default_neg: "s < 0 \<Longrightarrow> streak_bonus DefaultScoringConfig s = 0"
  by (simp add: streak_bonus_def)

lemma time_bonus_le: "nonneg_config e \<Longrightarrow> MaxTimeBonus e \<le> 2 ^ 53 \<Longrightarrow> time_bonus e tr pt \<le> MaxTimeBonus e"
proof -
  assume e: "nonneg_config e" "MaxTimeBonus e \<le> 2 ^ 53"
  let ?r = "max 0 (min 1 (f64 (f64 (of_int tr) / f64 (of_int pt))))"
  have m: "f64 (of_int (MaxTimeBonus e)) = (of_int (MaxTimeBonus e) :: rat)" using e by (simp add: f64_int)
  have "of_int (MaxTimeBonus e) * ?r \<le> of_int (MaxTimeBonus e) * 1"
    using e by (intro mult_left_mono) auto
  then have "f64 (of_int (MaxTimeBonus e) * ?r) \<le> of_int (MaxTimeBonus e)"
    using e by (intro f64_le_int) auto
  with e show ?thesis by (simp add: time_bonus_def m go_trunc_le_int)
qed

lemma time_bonus_expired: "tr \<le> 0 \<Longrightarrow> time_bonus e tr pt = 0"
proof -
  assume "tr \<le> 0"
  then have "f64 (of_int tr :: rat) \<le> 0" using f64_mono [of "of_int tr" 0] by simp
  then have "0 < pt \<Longrightarrow> f64 (f64 (of_int tr) / f64 (of_int pt)) \<le> 0"
    using f64_pos [of "of_int pt"] f64_mono [of "f64 (of_int tr) / f64 (of_int pt)" 0]
    by (simp add: divide_le_0_iff)
  then have "0 < pt \<Longrightarrow> max 0 (min 1 (f64 (f64 (of_int tr) / f64 (of_int pt)))) = 0"
    by simp
  then show ?thesis by (auto simp: time_bonus_def go_trunc_def)
qed

lemma time_bonus_instant: "0 < pt \<Longrightarrow> pt \<le> tr \<Longrightarrow> time_bonus DefaultScoringConfig tr pt = 50"
proof -
  assume a: "0 < pt" "pt \<le> tr"
  have "f64 (of_int pt :: rat) \<le> f64 (of_int tr)" using a by (intro f64_mono) simp
  moreover have "0 < f64 (of_int pt :: rat)" using a by (intro f64_pos) simp
  ultimately have "1 \<le> f64 (of_int tr) / f64 (of_int pt :: rat)" by (simp add: le_divide_eq)
  then have "1 \<le> f64 (f64 (of_int tr) / f64 (of_int pt :: rat))"
    using f64_ge_int [of 1] by simp
  then show ?thesis using a
    by (simp add: time_bonus_def DefaultScoringConfig_def f64_50 go_trunc_def min_def)
qed

lemma default_fields:
  "BaseScore DefaultScoringConfig = 100" "MaxTimeBonus DefaultScoringConfig = 50"
  by (simp_all add: DefaultScoringConfig_def)

lemma CalculateScore_default:
  "0 \<le> s \<Longrightarrow> CalculateScore DefaultScoringConfig True tr pt s
     = 100 + time_bonus DefaultScoringConfig tr pt + 5 * min s 10"
  by (simp add: CalculateScore_split streak_bonus_default default_fields)

lemma default_bonus_bounds:
  "0 \<le> time_bonus DefaultScoringConfig tr pt \<and> time_bonus DefaultScoringConfig tr pt \<le> 50"
  "0 \<le> streak_bonus DefaultScoringConfig s \<and> streak_bonus DefaultScoringConfig s \<le> 50"
  using time_bonus_nonneg [OF nonneg_config_default] time_bonus_le [OF nonneg_config_default]
    streak_bonus_nonneg [OF nonneg_config_default] streak_bonus_default [of s] streak_bonus_default_neg [of s]
  by (simp_all add: default_fields) linarith

subsection \<open>The whole answer list\<close>

text \<open>The reference: one pass that carries the running streak.\<close>

fun one_pass ::
  "ScoringConfig \<Rightarrow> (nat \<Rightarrow> instant) \<Rightarrow> duration \<Rightarrow> nat \<Rightarrow> int \<Rightarrow> ScoringAnswer list \<Rightarrow> int" where
  "one_pass e now pt i s [] = 0"
| "one_pass e now pt i s (a # as) =
     (let s' = (if sa_IsCorrect a then s + 1 else 0)
      in CalculateScore e (sa_IsCorrect a) (max 0 (pt - (now i - sa_SubmittedAt a))) pt s'
         + one_pass e now pt (Suc i) s' as)"

text \<open>The length of the longest run of correct answers, \<open>s\<close> being the run that is still open.\<close>

fun longest_run :: "int \<Rightarrow> ScoringAnswer list \<Rightarrow> int" where
  "longest_run s [] = 0"
| "longest_run s (a # as) =
     (if sa_IsCorrect a then max (s + 1) (longest_run (s + 1) as) else longest_run 0 as)"

definition correct_count :: "ScoringAnswer list \<Rightarrow> int" where
  "correct_count as = int (length (filter sa_IsCorrect as))"

lemma correct_count_simps [simp]:
  "correct_count [] = 0"
  "correct_count (a # as) = (if sa_IsCorrect a then 1 else 0) + correct_count as"
  by (simp_all add: correct_count_def)

lemma correct_count_bounds: "0 \<le> correct_count as" "correct_count as \<le> int (length as)"
  by (simp_all add: correct_count_def)

lemma streakBack_nonneg [simp]: "0 \<le> streakBack r"
  by (induction r) auto

lemma longest_run_nonneg: "0 \<le> s \<Longrightarrow> 0 \<le> longest_run s as"
  by (induction as arbitrary: s) (auto simp: le_max_iff_disj)

lemma longest_run_le: "0 \<le> s \<Longrightarrow> longest_run s as \<le> s + correct_count as"
proof (induction as arbitrary: s)
  case Nil
  then show ?case by simp
next
  case (Cons a as)
  from Cons.IH [of "s + 1"] Cons.IH [of 0] Cons.prems correct_count_bounds(1) [of as] show ?case by auto
qed

text \<open>The recount going back from each answer equals the running counter of the same loop.\<close>

lemma CalculateScore_False [simp]: "CalculateScore e False tr pt s = 0"
  by (simp add: CalculateScore_def)

lemma final_loop_one_pass:
  assumes "fa_streak acc = streakBack before" "0 \<le> fa_maxStreak acc"
  shows "final_loop e now pt i before as acc =
    acc\<lparr>fa_total := fa_total acc + one_pass e now pt i (streakBack before) as,
        fa_correct := fa_correct acc + correct_count as,
        fa_streak := streakBack (rev as @ before),
        fa_maxStreak := max (fa_maxStreak acc) (longest_run (streakBack before) as)\<rparr>"
  using assms
proof (induction as arbitrary: i before acc)
  case Nil
  then show ?case by simp
next
  case (Cons a as)
  let ?acc = "final_step e now pt i before a acc"
  have max_if: "(if x < y then y else x) = max x (y::int)" "(if x < 0 then 0 else x) = max 0 x" for x y
    by auto
  have s: "fa_streak ?acc = streakBack (a # before)" and m: "0 \<le> fa_maxStreak ?acc"
    using Cons.prems by (auto simp: final_step_def Let_def)
  from Cons.IH [OF s m, of "Suc i"] Cons.prems(1) show ?case
    by (cases "sa_IsCorrect a") (simp_all add: final_step_def Let_def max_if ac_simps)
qed

lemma longest_run_max0 [simp]: "0 \<le> s \<Longrightarrow> max 0 (longest_run s as) = longest_run s as"
  using longest_run_nonneg [of s as] by simp

lemma final_loop_acc0:
  "final_loop e now pt 0 [] as acc0 =
    \<lparr>fa_total = one_pass e now pt 0 0 as, fa_correct = correct_count as,
     fa_streak = streakBack (rev as), fa_maxStreak = longest_run 0 as\<rparr>"
  using final_loop_one_pass [of acc0 "[]" e now pt 0 as] longest_run_nonneg [of 0 as]
  by (simp add: acc0_def)

definition run_pct :: "ScoringConfig \<Rightarrow> int \<Rightarrow> rat" where
  "run_pct e n = (if 0 < n then min (MaxStreakBonus e) (f64 (f64 (of_int n) * StreakBonusPercent e)) else 0)"

lemma ComputeFinalScore_eq:
  "as \<noteq> [] \<Longrightarrow> ComputeFinalScore e now as pt =
     (one_pass e now pt 0 0 as,
      f64 (f64 (of_int (correct_count as)) / f64 (of_int (int (length as)))),
      run_pct e (longest_run 0 as))"
  by (auto simp: ComputeFinalScore_def final_loop_acc0 run_pct_def Let_def min_def)

lemma one_pass_bounds:
  assumes "0 \<le> s"
  shows "100 * correct_count as \<le> one_pass DefaultScoringConfig now pt i s as
    \<and> one_pass DefaultScoringConfig now pt i s as \<le> 200 * correct_count as"
  using assms
proof (induction as arbitrary: i s)
  case Nil
  then show ?case by simp
next
  case (Cons a as)
  let ?tr = "max 0 (pt - (now i - sa_SubmittedAt a))"
  from Cons.IH [of "s + 1" "Suc i"] Cons.IH [of 0 "Suc i"] Cons.prems
    default_bonus_bounds(1) [of ?tr pt] default_bonus_bounds(2) [of "s + 1"]
  show ?case by (auto simp: Let_def CalculateScore_split default_fields)
qed

lemma accuracy_bounds:
  assumes "as \<noteq> []"
  shows "0 \<le> f64 (f64 (of_int (correct_count as)) / f64 (of_int (int (length as))))"
    and "f64 (f64 (of_int (correct_count as)) / f64 (of_int (int (length as)))) \<le> 1"
proof -
  let ?c = "f64 (of_int (correct_count as)) :: rat" and ?n = "f64 (of_int (int (length as))) :: rat"
  have n: "0 < ?n" using assms by (intro f64_pos) simp
  have c: "0 \<le> ?c" using correct_count_bounds(1) [of as] by simp
  have "?c \<le> ?n" using correct_count_bounds(2) [of as] by (intro f64_mono) (simp only: of_int_le_iff)
  with n c have "0 \<le> ?c / ?n" "?c / ?n \<le> 1" by (simp_all add: divide_le_eq)
  then show "0 \<le> f64 (?c / ?n)" "f64 (?c / ?n) \<le> 1" using f64_le_int [of "?c / ?n" 1] by simp_all
qed

text \<open>Once every answer is older than the question timeout, its instant no longer matters.\<close>

definition stale :: "(nat \<Rightarrow> instant) \<Rightarrow> duration \<Rightarrow> ScoringAnswer list \<Rightarrow> bool" where
  "stale now pt as \<longleftrightarrow> (\<forall>i < length as. pt \<le> now i - sa_SubmittedAt (as ! i))"

lemma one_pass_stale:
  assumes "0 \<le> s" "\<forall>j < length as. pt \<le> now (i + j) - sa_SubmittedAt (as ! j)"
  shows "one_pass DefaultScoringConfig now pt i s as = one_pass DefaultScoringConfig (\<lambda>_. 0) 0 0 s as"
proof -
  have "one_pass DefaultScoringConfig (\<lambda>_. 0) 0 i s as = one_pass DefaultScoringConfig (\<lambda>_. 0) 0 j s as"
    for i j s and as :: "ScoringAnswer list"
    by (induction as arbitrary: i j s) (auto simp: Let_def)
  note shift = this
  have expired: "time_bonus DefaultScoringConfig (max 0 tr) 0 = 0" for tr
    by (simp add: time_bonus_def)
  from assms show ?thesis
  proof (induction as arbitrary: i s)
    case Nil
    then show ?case by simp
  next
    case (Cons a as)
    from Cons.prems(2) have now: "pt \<le> now i - sa_SubmittedAt a" by auto
    from Cons.prems(2) have rest: "\<forall>j < length as. pt \<le> now (Suc i + j) - sa_SubmittedAt (as ! j)" by auto
    have IH: "one_pass DefaultScoringConfig now pt (Suc i) s' as
      = one_pass DefaultScoringConfig (\<lambda>_. 0) 0 (Suc 0) s' as" if "0 \<le> s'" for s'
      using Cons.IH [OF that rest] shift [of "Suc 0" s' as 0] by simp
    from now Cons.prems(1) IH [of "s + 1"] IH [of 0] show ?case
      by (simp add: Let_def CalculateScore_split time_bonus_expired expired)
  qed
qed

subsection \<open>Properties\<close>

lemma one_pass_correctness_only:
  "map sa_IsCorrect as = map sa_IsCorrect bs \<Longrightarrow>
   one_pass e (\<lambda>_. 0) 0 i s as = one_pass e (\<lambda>_. 0) 0 i s bs"
proof (induction as arbitrary: bs i s)
  case Nil
  then show ?case by simp
next
  case (Cons a as)
  then obtain b bs' where bs: "bs = b # bs'" "sa_IsCorrect a = sa_IsCorrect b"
    "map sa_IsCorrect as = map sa_IsCorrect bs'" by (cases bs) auto
  have "CalculateScore e c tr 0 s = CalculateScore e c tr' 0 s" for c tr tr' s
    by (simp add: CalculateScore_def)
  with bs Cons.IH [OF bs(3)] show ?case by (simp add: Let_def)
qed

lemma longest_run_correctness_only:
  "map sa_IsCorrect as = map sa_IsCorrect bs \<Longrightarrow> longest_run s as = longest_run s bs"
proof (induction as arbitrary: bs s)
  case Nil
  then show ?case by simp
next
  case (Cons a as)
  then show ?case by (cases bs) auto
qed

lemma correct_count_correctness_only:
  "map sa_IsCorrect as = map sa_IsCorrect bs \<Longrightarrow> correct_count as = correct_count bs"
proof -
  have "correct_count xs = int (length (filter id (map sa_IsCorrect xs)))" for xs
    by (simp add: correct_count_def filter_map comp_def)
  then show "map sa_IsCorrect as = map sa_IsCorrect bs \<Longrightarrow> ?thesis" by metis
qed

lemma ComputeFinalScore_Nil [simp]: "ComputeFinalScore e now [] pt = (0, 0, 0)"
  by (simp add: ComputeFinalScore_def)

lemma run_pct_default_bounds:
  "0 \<le> n \<Longrightarrow> 0 \<le> run_pct DefaultScoringConfig n \<and> run_pct DefaultScoringConfig n \<le> 1/2"
proof -
  assume n: "0 \<le> n"
  have "0 \<le> f64 (f64 (of_int n) * f64 (1/20))" using n by (intro f64_nonneg mult_nonneg_nonneg) auto
  then have "0 \<le> min (1/2) (f64 (f64 (of_int n) * f64 (1/20)))" by (intro min.boundedI) simp_all
  moreover have "min (1/2) (f64 (f64 (of_int n) * f64 (1/20))) \<le> 1/2" by (rule min.cobounded1)
  ultimately show ?thesis
    by (cases "0 < n") (simp_all only: run_pct_def DefaultScoringConfig_def f64_half if_True if_False
        ScoringConfig.simps, simp)
qed

lemma default_zero_streak: "s \<le> 0 \<Longrightarrow> streak_bonus DefaultScoringConfig s = 0"
  by (simp add: streak_bonus_def)

text \<open>Under the default configuration a wrong answer scores 0 and a correct one between 100
  and 200 points, whatever the clock and the streak say; 200 is reached by an instant answer with
  a streak of ten, 100 by an answer at the timeout without a streak.\<close>

theorem default_score_range:
  "CalculateScore DefaultScoringConfig c tr pt s \<in> (if c then {100..200} else {0})
   \<and> (0 < pt \<longrightarrow> pt \<le> tr \<longrightarrow> 10 \<le> s \<longrightarrow> CalculateScore DefaultScoringConfig True tr pt s = 200)
   \<and> (tr \<le> 0 \<longrightarrow> s \<le> 0 \<longrightarrow> CalculateScore DefaultScoringConfig True tr pt s = 100)"
proof (intro conjI impI)
  show "CalculateScore DefaultScoringConfig c tr pt s \<in> (if c then {100..200} else {0})"
    using default_bonus_bounds(1) [of tr pt] default_bonus_bounds(2) [of s]
    by (simp add: CalculateScore_split default_fields)
  show "CalculateScore DefaultScoringConfig True tr pt s = 200" if "0 < pt" "pt \<le> tr" "10 \<le> s"
    using that by (simp add: CalculateScore_default time_bonus_instant)
  show "CalculateScore DefaultScoringConfig True tr pt s = 100" if "tr \<le> 0" "s \<le> 0"
    using that by (simp add: CalculateScore_split default_fields time_bonus_expired default_zero_streak)
qed

theorem default_score_range_witness:
  "CalculateScore DefaultScoringConfig True 15000000000 15000000000 12 = 200"
  using default_score_range [of True 15000000000 15000000000 12] by simp

text \<open>For every configuration with non-negative parameters, answering earlier and having a
  longer streak never lowers the score of an answer.\<close>

theorem score_monotone:
  assumes "nonneg_config e" "tr \<le> tr'" "s \<le> s'"
  shows "CalculateScore e c tr pt s \<le> CalculateScore e c tr' pt s'"
  using time_bonus_mono [OF assms(1,2), of pt] streak_bonus_mono [OF assms(1,3)]
  by (simp add: CalculateScore_split)

theorem score_monotone_witness:
  "CalculateScore DefaultScoringConfig True 3 7 2 \<le> CalculateScore DefaultScoringConfig True 5 7 4"
  by (rule score_monotone) simp_all

text \<open>C20: The quadratic recount of the streak in \<open>ComputeFinalScore\<close> is equivalent to one pass
  that carries the running streak, and the streak percentage it returns is that of the longest
  run of correct answers.\<close>

theorem ComputeFinalScore_one_pass:
  "ComputeFinalScore e now as pt =
     (if as = [] then (0, 0, 0)
      else (one_pass e now pt 0 0 as,
            f64 (f64 (of_int (correct_count as)) / f64 (of_int (int (length as)))),
            run_pct e (longest_run 0 as)))"
  by (cases "as = []") (simp_all add: ComputeFinalScore_eq)

text \<open>C31: A final result is consistent: the total lies between 100 and 200 points per correct
  answer, the accuracy is a ratio between 0 and 1, and the streak percentage is at most one
  half.\<close>

theorem final_score_bounds:
  "ComputeFinalScore DefaultScoringConfig now as pt = (tot, acc, pct) \<Longrightarrow>
   100 * int (length (filter sa_IsCorrect as)) \<le> tot \<and>
   tot \<le> 200 * int (length (filter sa_IsCorrect as)) \<and>
   0 \<le> acc \<and> acc \<le> 1 \<and> 0 \<le> pct \<and> pct \<le> 1/2"
  using one_pass_bounds [of 0 as now pt 0] accuracy_bounds [of as]
    run_pct_default_bounds [of "longest_run 0 as"] longest_run_nonneg [of 0 as]
  by (cases "as = []") (auto simp: ComputeFinalScore_eq correct_count_def)

definition ex_answer :: "bool \<Rightarrow> instant \<Rightarrow> ScoringAnswer" where
  "ex_answer c t = \<lparr>sa_QuestionOrder = 1, sa_QuestionToken = ''t'', sa_Answer = ''a'', sa_SubmittedAt = t,
     sa_IsCorrect = c, sa_ScoreEarned = 0\<rparr>"

theorem final_score_bounds_witness:
  "\<exists>tot acc pct. ComputeFinalScore DefaultScoringConfig (\<lambda>_. 9) [ex_answer True 0, ex_answer False 0] 5
     = (tot, acc, pct) \<and> 100 \<le> tot \<and> tot \<le> 200"
proof -
  obtain tot acc pct where
    r: "ComputeFinalScore DefaultScoringConfig (\<lambda>_. 9) [ex_answer True 0, ex_answer False 0] 5 = (tot, acc, pct)"
    by (metis prod_cases3)
  from final_score_bounds [OF r] r show ?thesis by (simp add: ex_answer_def)
qed

text \<open>The final score is computed from the age the answers have when the match is finalised:
  once every answer is older than the question timeout, two players with the same sequence of
  right and wrong answers get the same result, however fast each of them answered. The time
  bonus shown while playing is lost.\<close>

theorem stale_answers_lose_speed:
  assumes "stale now pt as" "stale now' pt' bs" "map sa_IsCorrect as = map sa_IsCorrect bs"
  shows "ComputeFinalScore DefaultScoringConfig now as pt = ComputeFinalScore DefaultScoringConfig now' bs pt'"
proof -
  have "length as = length bs" using assms(3) by (metis length_map)
  moreover have "one_pass DefaultScoringConfig now pt 0 0 as = one_pass DefaultScoringConfig now' pt' 0 0 bs"
    using one_pass_stale [of 0 as pt now 0] one_pass_stale [of 0 bs pt' now' 0]
      one_pass_correctness_only [OF assms(3)] assms(1,2) by (simp add: stale_def)
  ultimately show ?thesis
    using longest_run_correctness_only [OF assms(3)] correct_count_correctness_only [OF assms(3)]
    by (cases "as = []"; cases "bs = []") (simp_all add: ComputeFinalScore_eq)
qed

theorem stale_answers_lose_speed_witness:
  "ComputeFinalScore DefaultScoringConfig (\<lambda>_. 100) [ex_answer True 0] 15
     = ComputeFinalScore DefaultScoringConfig (\<lambda>_. 100) [ex_answer True 80] 15"
  by (rule stale_answers_lose_speed) (simp_all add: stale_def ex_answer_def)

end
