(* ===== verification/Queue.thy ===== *)
theory Queue
  imports Domain
begin

section \<open>The matchmaking queue (internal/match/queue/manager.go)\<close>

text \<open>
  \<open>Manager.waiting\<close> is a Go map from queue tokens to waiting players; every operation runs
  under the manager's mutex, so an operation is one atomic step. \<open>Enqueue\<close> and \<open>GetPosition\<close>
  range over the map, so they take the visiting order of that run as an argument; a fresh
  \<open>uuid.New()\<close> and \<open>time.Now()\<close> are arguments too. \<open>Enqueue\<close> returns token, pair and error as
  the Go function does.

  The lemmas: an enqueue pairs exactly when a compatible other user waits, for every visiting
  order; the queue never holds two players that could be matched; a ticket is paired at most
  once. The locale \<open>matchmaker\<close> states what the WebSocket handler relies on.
\<close>

record WaitingPlayer =
  wp_UserID :: uuid
  wp_Username :: string
  wp_IsGuest :: bool
  wp_PreferredCategory :: string
  wp_PreferredDifficulty :: string
  wp_BotOK :: bool
  wp_QueuedAt :: instant
  wp_QueueToken :: uuid

record QueueManager =
  waiting :: "uuid \<rightharpoonup> WaitingPlayer"
  botWaitSec :: int

record MatchPair =
  Player1 :: WaitingPlayer
  Player2 :: WaitingPlayer

record MatchmakingRequest =
  mr_UserID :: uuid
  mr_Username :: string
  mr_IsGuest :: bool
  mr_PreferredCategory :: string
  mr_PreferredDifficulty :: string
  mr_BotOK :: bool

definition NewQueueManager :: "int \<Rightarrow> QueueManager" where
  "NewQueueManager botWaitSeconds =
     \<lparr>waiting = Map.empty, botWaitSec = (if botWaitSeconds \<le> 0 then 10 else botWaitSeconds)\<rparr>"

definition isCompatible :: "WaitingPlayer \<Rightarrow> WaitingPlayer \<Rightarrow> bool" where
  "isCompatible p1 p2 \<longleftrightarrow>
     normalizeCategory (wp_PreferredCategory p1) = normalizeCategory (wp_PreferredCategory p2)"

text \<open>The \<open>for otherToken, other := range m.waiting\<close> loop of \<open>Enqueue\<close>: skip the user's own
  entries, stop at the first compatible one.\<close>

fun find_opponent ::
  "(uuid \<rightharpoonup> WaitingPlayer) \<Rightarrow> WaitingPlayer \<Rightarrow> uuid list \<Rightarrow> (uuid \<times> WaitingPlayer) option" where
  "find_opponent w player [] = None"
| "find_opponent w player (t # ts) =
     (case w t of
        None \<Rightarrow> find_opponent w player ts
      | Some other \<Rightarrow>
          if wp_UserID other = wp_UserID player then find_opponent w player ts
          else if isCompatible player other then Some (t, other)
          else find_opponent w player ts)"

definition queued_player :: "MatchmakingRequest \<Rightarrow> uuid \<Rightarrow> instant \<Rightarrow> WaitingPlayer" where
  "queued_player req queueToken now =
     \<lparr>wp_UserID = mr_UserID req, wp_Username = mr_Username req, wp_IsGuest = mr_IsGuest req,
      wp_PreferredCategory = mr_PreferredCategory req,
      wp_PreferredDifficulty = mr_PreferredDifficulty req, wp_BotOK = mr_BotOK req,
      wp_QueuedAt = now, wp_QueueToken = queueToken\<rparr>"

definition Enqueue ::
  "QueueManager \<Rightarrow> uuid list \<Rightarrow> uuid \<Rightarrow> instant \<Rightarrow> MatchmakingRequest \<Rightarrow>
   QueueManager \<times> uuid \<times> MatchPair option \<times> err option" where
  "Enqueue m order queueToken now req =
     (let player = queued_player req queueToken now
      in case find_opponent (waiting m) player order of
           Some (otherToken, other) \<Rightarrow>
             (m\<lparr>waiting := (waiting m)(otherToken := None)\<rparr>, queueToken,
              Some \<lparr>Player1 = player, Player2 = other\<rparr>, None)
         | None \<Rightarrow>
             (m\<lparr>waiting := (waiting m)(queueToken \<mapsto> player)\<rparr>, queueToken, None, None))"

definition Dequeue :: "QueueManager \<Rightarrow> uuid \<Rightarrow> QueueManager \<times> err option" where
  "Dequeue m queueToken =
     (case waiting m queueToken of
        None \<Rightarrow> (m, Some ''queue token not found'')
      | Some _ \<Rightarrow> (m\<lparr>waiting := (waiting m)(queueToken := None)\<rparr>, None))"

fun position_loop :: "uuid \<Rightarrow> int \<Rightarrow> uuid list \<Rightarrow> int" where
  "position_loop queueToken pos [] = -1"
| "position_loop queueToken pos (t # ts) =
     (if t = queueToken then pos else position_loop queueToken (pos + 1) ts)"

definition GetPosition :: "QueueManager \<Rightarrow> uuid list \<Rightarrow> uuid \<Rightarrow> int" where
  "GetPosition m order queueToken = position_loop queueToken 0 order"

definition ShouldOfferBot :: "QueueManager \<Rightarrow> instant \<Rightarrow> uuid \<Rightarrow> bool" where
  "ShouldOfferBot m now queueToken =
     (case waiting m queueToken of
        None \<Rightarrow> False
      | Some player \<Rightarrow> botWaitSec m * second \<le> now - wp_QueuedAt player \<and> wp_BotOK player)"

subsection \<open>Which opponent is found\<close>

definition matchable :: "WaitingPlayer \<Rightarrow> WaitingPlayer \<Rightarrow> bool" where
  "matchable p q \<longleftrightarrow> wp_UserID p \<noteq> wp_UserID q \<and> isCompatible p q"

lemma matchable_sym: "matchable p q \<longleftrightarrow> matchable q p"
  by (auto simp: matchable_def isCompatible_def)

lemma find_opponent_Some:
  "find_opponent w p ts = Some (t, q) \<Longrightarrow> t \<in> set ts \<and> w t = Some q \<and> matchable p q"
  by (induction ts) (auto simp: matchable_def split: option.splits if_splits)

lemma find_opponent_None:
  "find_opponent w p ts = None \<longleftrightarrow> (\<forall>t \<in> set ts. \<forall>q. w t = Some q \<longrightarrow> \<not> matchable p q)"
  by (induction ts) (auto simp: matchable_def split: option.splits)

lemma queued_player_sel [simp]:
  "wp_UserID (queued_player r t n) = mr_UserID r" "wp_QueueToken (queued_player r t n) = t"
  "wp_PreferredCategory (queued_player r t n) = mr_PreferredCategory r"
  "wp_IsGuest (queued_player r t n) = mr_IsGuest r" "wp_Username (queued_player r t n) = mr_Username r"
  by (simp_all add: queued_player_def)

lemma Enqueue_cases:
  assumes "Enqueue m order tok now req = (m', r)"
  obtains (pair) t q where
      "find_opponent (waiting m) (queued_player req tok now) order = Some (t, q)"
      "m' = m\<lparr>waiting := (waiting m)(t := None)\<rparr>"
      "r = (tok, Some \<lparr>Player1 = queued_player req tok now, Player2 = q\<rparr>, None)"
  | (wait) "find_opponent (waiting m) (queued_player req tok now) order = None"
      "m' = m\<lparr>waiting := (waiting m)(tok \<mapsto> queued_player req tok now)\<rparr>"
      "r = (tok, None, None)"
  using assms by (auto simp: Enqueue_def Let_def split: option.splits)

lemma Dequeue_waiting:
  "Dequeue m t = (m', e) \<Longrightarrow> waiting m' = (waiting m)(t := None) \<and> (e = None \<longleftrightarrow> t \<in> dom (waiting m))"
  by (auto simp: Dequeue_def split: option.splits)

subsection \<open>The invariant of the queue\<close>

definition queue_inv :: "QueueManager \<Rightarrow> bool" where
  "queue_inv m \<longleftrightarrow>
     (\<forall>t p. waiting m t = Some p \<longrightarrow> wp_QueueToken p = t) \<and>
     (\<forall>t u p q. waiting m t = Some p \<longrightarrow> waiting m u = Some q \<longrightarrow> \<not> matchable p q)"

lemma queue_inv_new [simp]: "queue_inv (NewQueueManager n)"
  by (simp add: queue_inv_def NewQueueManager_def)

lemma queue_inv_delete: "queue_inv m \<Longrightarrow> queue_inv (m\<lparr>waiting := (waiting m)(t := None)\<rparr>)"
  by (simp add: queue_inv_def)

lemma queue_inv_insert:
  assumes "queue_inv m" "wp_QueueToken p = t" "\<And>u q. waiting m u = Some q \<Longrightarrow> \<not> matchable p q"
  shows "queue_inv (m\<lparr>waiting := (waiting m)(t \<mapsto> p)\<rparr>)"
  using assms matchable_sym [of p] by (auto simp: queue_inv_def matchable_def)

lemma Enqueue_inv:
  assumes "queue_inv m" "enumerates order (waiting m)" "Enqueue m order tok now req = (m', r)"
  shows "queue_inv m'"
  using assms(3)
proof (cases rule: Enqueue_cases)
  case (pair t q)
  with assms(1) show ?thesis by (simp add: queue_inv_delete)
next
  case wait
  with assms(2) have "\<not> matchable (queued_player req tok now) q" if "waiting m u = Some q" for u q
    using that by (force simp: find_opponent_None enumerates_def)
  with assms(1) wait show ?thesis by (simp add: queue_inv_insert)
qed

lemma Dequeue_inv: "queue_inv m \<Longrightarrow> Dequeue m t = (m', e) \<Longrightarrow> queue_inv m'"
  by (auto simp: Dequeue_def queue_inv_delete split: option.splits)

subsection \<open>The interface the handler relies on\<close>

text \<open>
  A ticket book for a run: the tokens handed out so far, and the tokens of the players that
  have been put into a pair. It is consistent when no token is in two pairs and no paired
  token still waits.
\<close>

definition ticket_inv :: "(uuid \<rightharpoonup> 'p) \<Rightarrow> uuid set \<Rightarrow> uuid list \<Rightarrow> bool" where
  "ticket_inv w used paired \<longleftrightarrow>
     dom w \<subseteq> used \<and> set paired \<subseteq> used \<and> dom w \<inter> set paired = {} \<and> distinct paired"

definition pair_tokens :: "MatchPair option \<Rightarrow> uuid list" where
  "pair_tokens r = (case r of None \<Rightarrow> [] | Some p \<Rightarrow> [wp_QueueToken (Player1 p), wp_QueueToken (Player2 p)])"

locale matchmaker =
  fixes enq :: "'q \<Rightarrow> uuid list \<Rightarrow> uuid \<Rightarrow> instant \<Rightarrow> MatchmakingRequest \<Rightarrow>
      'q \<times> uuid \<times> MatchPair option \<times> err option"
    and deq :: "'q \<Rightarrow> uuid \<Rightarrow> 'q \<times> err option"
    and tickets :: "'q \<Rightarrow> uuid \<rightharpoonup> WaitingPlayer"
    and inv :: "'q \<Rightarrow> bool"
  assumes enq_inv: "inv m \<Longrightarrow> enumerates order (tickets m) \<Longrightarrow> enq m order t now req = (m', r) \<Longrightarrow> inv m'"
    and deq_inv: "inv m \<Longrightarrow> deq m t = (m', e) \<Longrightarrow> inv m'"
    and inv_token: "inv m \<Longrightarrow> tickets m t = Some p \<Longrightarrow> wp_QueueToken p = t"
    and enq_wait: "enq m order t now req = (m', t', None, e) \<Longrightarrow>
      tickets m' = (tickets m)(t \<mapsto> queued_player req t now)"
    and enq_pair: "enq m order t now req = (m', t', Some pr, e) \<Longrightarrow>
      Player1 pr = queued_player req t now \<and>
      (\<exists>u. tickets m u = Some (Player2 pr) \<and> tickets m' = (tickets m)(u := None))"
    and deq_tickets: "deq m t = (m', e) \<Longrightarrow> tickets m' = (tickets m)(t := None)"
begin

lemma enq_tickets:
  assumes "inv m" "ticket_inv (tickets m) used paired" "t \<notin> used" "enq m order t now req = (m', t', r, e)"
  shows "ticket_inv (tickets m') (insert t used) (pair_tokens r @ paired)"
proof (cases r)
  case None
  with assms(2-4) enq_wait [of m order t now req m' t' e] show ?thesis
    by (auto simp: ticket_inv_def pair_tokens_def)
next
  case (Some pr)
  with assms(4) enq_pair [of m order t now req m' t' pr e] obtain u where
    p1: "Player1 pr = queued_player req t now" and u: "tickets m u = Some (Player2 pr)"
    and m': "tickets m' = (tickets m)(u := None)" by auto
  from assms(1) u have tok: "wp_QueueToken (Player2 pr) = u" by (rule inv_token)
  from u have "u \<in> dom (tickets m)" by blast
  with Some p1 tok m' assms(2,3) show ?thesis
    by (auto simp: ticket_inv_def pair_tokens_def)
qed

lemma deq_tickets_inv:
  "ticket_inv (tickets m) used paired \<Longrightarrow> deq m t = (m', e) \<Longrightarrow> ticket_inv (tickets m') used paired"
  by (auto simp: ticket_inv_def deq_tickets)

end

interpretation mm: matchmaker Enqueue Dequeue waiting queue_inv
proof
  show "queue_inv m \<Longrightarrow> enumerates order (waiting m) \<Longrightarrow> Enqueue m order t now req = (m', r) \<Longrightarrow> queue_inv m'"
    for m order t now req m' r by (rule Enqueue_inv)
  show "queue_inv m \<Longrightarrow> Dequeue m t = (m', e) \<Longrightarrow> queue_inv m'" for m t m' e
    by (rule Dequeue_inv)
qed (auto elim!: Enqueue_cases dest!: find_opponent_Some Dequeue_waiting simp: queue_inv_def)

subsection \<open>Runs of the queue\<close>

text \<open>
  \<open>ticket_run m used paired\<close>: a run from a new manager reaches \<open>m\<close>, having handed out the
  tokens \<open>used\<close> and put the tokens \<open>paired\<close> into pairs. Enqueues and dequeues come in any
  order, and every enqueue visits the map in any order.
\<close>

inductive ticket_run :: "QueueManager \<Rightarrow> uuid set \<Rightarrow> uuid list \<Rightarrow> bool" where
  new: "ticket_run (NewQueueManager n) {} []"
| enqueue: "ticket_run m used paired \<Longrightarrow> enumerates order (waiting m) \<Longrightarrow> t \<notin> used \<Longrightarrow>
    Enqueue m order t now req = (m', t', r, e) \<Longrightarrow> ticket_run m' (insert t used) (pair_tokens r @ paired)"
| dequeue: "ticket_run m used paired \<Longrightarrow> Dequeue m t = (m', e) \<Longrightarrow> ticket_run m' used paired"

lemma ticket_run_inv: "ticket_run m used paired \<Longrightarrow> queue_inv m \<and> ticket_inv (waiting m) used paired"
proof (induction rule: ticket_run.induct)
  case (new n)
  show ?case by (simp add: ticket_inv_def NewQueueManager_def queue_inv_def)
next
  case (enqueue m used paired order t now req m' t' r e)
  then show ?case using mm.enq_inv mm.enq_tickets by blast
next
  case (dequeue m used paired t m' e)
  then show ?case using mm.deq_inv mm.deq_tickets_inv by blast
qed

subsection \<open>Queue positions\<close>

lemma position_loop_range:
  "t \<in> set ts \<Longrightarrow> pos \<le> position_loop t pos ts \<and> position_loop t pos ts < pos + int (length ts)"
proof (induction ts arbitrary: pos)
  case Nil
  then show ?case by simp
next
  case (Cons u ts)
  from Cons.prems Cons.IH [of "pos + 1"] show ?case by auto
qed

lemma position_loop_notin: "t \<notin> set ts \<Longrightarrow> position_loop t pos ts = -1"
  by (induction ts arbitrary: pos) auto

lemma position_loop_nth:
  "distinct ts \<Longrightarrow> i < length ts \<Longrightarrow> position_loop (ts ! i) pos ts = pos + int i"
proof (induction ts arbitrary: pos i)
  case Nil
  then show ?case by simp
next
  case (Cons u ts)
  then show ?case by (cases i) (auto simp: nth_mem)
qed

subsection \<open>Properties\<close>

definition ex_req :: "uuid \<Rightarrow> string \<Rightarrow> MatchmakingRequest" where
  "ex_req u cat = \<lparr>mr_UserID = u, mr_Username = ''p'', mr_IsGuest = False, mr_PreferredCategory = cat,
     mr_PreferredDifficulty = [], mr_BotOK = True\<rparr>"

definition ex_queue :: QueueManager where
  "ex_queue = fst (Enqueue (NewQueueManager 10) [] 7 0 (ex_req 1 []))"

lemma ex_queue_waiting: "waiting ex_queue = [7 \<mapsto> queued_player (ex_req 1 []) 7 0]"
  by (simp add: ex_queue_def Enqueue_def NewQueueManager_def)

lemma ex_queue_run: "ticket_run ex_queue {7} []"
  using ticket_run.enqueue [OF ticket_run.new [of 10], of "[]" 7 0 "ex_req 1 []"]
  by (simp add: ex_queue_def Enqueue_def NewQueueManager_def pair_tokens_def)

lemmas ex_simps = Enqueue_def ex_queue_waiting enumerates_def isCompatible_def ex_req_def
  queued_player_def normalizeCategory_def pair_tokens_def

text \<open>C9: In every state the queue can reach, with any interleaving of enqueues and dequeues and
  any map iteration order, no two waiting entries of different users are compatible: a player
  never waits while a possible opponent waits too.\<close>

theorem queue_never_holds_a_match:
  assumes "ticket_run m used paired"
    and "waiting m t = Some p" and "waiting m u = Some q" and "wp_UserID p \<noteq> wp_UserID q"
  shows "\<not> isCompatible p q"
  using ticket_run_inv [OF assms(1)] assms(2-) unfolding queue_inv_def matchable_def by blast

theorem queue_never_holds_a_match_witness:
  "\<exists>(m :: QueueManager) p q. waiting m 7 = Some p \<and> waiting m 8 = Some q \<and> wp_UserID p \<noteq> wp_UserID q \<and> \<not> isCompatible p q"
proof -
  let ?m = "fst (Enqueue ex_queue [7] 8 0 (ex_req 2 ''science''))"
  have r: "ticket_run ?m {8, 7} []"
    using ticket_run.enqueue [OF ex_queue_run, of "[7]" 8 0 "ex_req 2 ''science''"]
    by (simp add: ex_simps)
  have w: "waiting ?m 7 = Some (queued_player (ex_req 1 []) 7 0)"
    "waiting ?m 8 = Some (queued_player (ex_req 2 ''science'') 8 0)"
    by (simp_all add: ex_simps)
  have d: "wp_UserID (queued_player (ex_req 1 []) 7 0) \<noteq> wp_UserID (queued_player (ex_req 2 ''science'') 8 0)"
    by (simp add: ex_req_def)
  from queue_never_holds_a_match [OF r w d] w d show ?thesis by blast
qed

text \<open>C24: Over any run of the queue, no queue token is put into two pairs, and a token that was
  paired does not wait any more: no player is matched twice for one ticket.\<close>

theorem no_ticket_matched_twice:
  assumes "ticket_run m used paired"
  shows "distinct paired \<and> dom (waiting m) \<inter> set paired = {}"
  using ticket_run_inv [OF assms] by (simp add: ticket_inv_def)

theorem no_ticket_matched_twice_witness:
  "\<exists>m. ticket_run m {8, 7} [8, 7] \<and> distinct [8, 7 :: uuid] \<and> dom (waiting m) \<inter> set [8, 7] = {}"
proof -
  let ?m = "fst (Enqueue ex_queue [7] 8 0 (ex_req 2 ''general''))"
  have r: "ticket_run ?m {8, 7} [8, 7]"
    using ticket_run.enqueue [OF ex_queue_run, of "[7]" 8 0 "ex_req 2 ''general''"]
    by (simp add: ex_simps)
  from r no_ticket_matched_twice [OF r] show ?thesis by blast
qed

text \<open>C25: Whatever order the map iteration takes, \<open>Enqueue\<close> returns a pair if and only if some
  waiting player of another user has the same (normalised) category; the pair then holds the
  requesting player and such an opponent, the opponent leaves the queue and the requester does
  not enter it.\<close>

theorem Enqueue_pairs_iff:
  assumes "enumerates order (waiting m)" and "Enqueue m order tok now req = (m', t', r, e)"
  shows "(r \<noteq> None \<longleftrightarrow> (\<exists>u q. waiting m u = Some q \<and> wp_UserID q \<noteq> mr_UserID req \<and>
            normalizeCategory (wp_PreferredCategory q) = normalizeCategory (mr_PreferredCategory req)))
    \<and> (\<forall>pr. r = Some pr \<longrightarrow> Player1 pr = queued_player req tok now \<and>
          wp_UserID (Player1 pr) \<noteq> wp_UserID (Player2 pr) \<and>
          (\<exists>u. waiting m u = Some (Player2 pr) \<and> waiting m' = (waiting m)(u := None)))
    \<and> (r = None \<longrightarrow> waiting m' = (waiting m)(tok \<mapsto> queued_player req tok now))
    \<and> e = None \<and> t' = tok"
  using assms(2)
proof (cases rule: Enqueue_cases)
  case (pair t q)
  with find_opponent_Some [OF pair(1)] have q: "waiting m t = Some q" "wp_UserID q \<noteq> mr_UserID req"
    "normalizeCategory (wp_PreferredCategory q) = normalizeCategory (mr_PreferredCategory req)"
    by (auto simp: matchable_def isCompatible_def)
  then have "\<exists>u q. waiting m u = Some q \<and> wp_UserID q \<noteq> mr_UserID req \<and>
    normalizeCategory (wp_PreferredCategory q) = normalizeCategory (mr_PreferredCategory req)" by blast
  with pair q show ?thesis by auto
next
  case wait
  with assms(1) show ?thesis
    by (force simp: find_opponent_None enumerates_def matchable_def isCompatible_def)
qed

theorem Enqueue_pairs_iff_witness:
  "fst (snd (snd (Enqueue ex_queue [7] 8 0 (ex_req 2 ''general'')))) \<noteq> None"
proof -
  have o: "enumerates [7] (waiting ex_queue)" by (simp add: ex_queue_waiting enumerates_def)
  obtain m' t' r e where E: "Enqueue ex_queue [7] 8 0 (ex_req 2 ''general'') = (m', t', r, e)"
    by (metis prod_cases4)
  have "waiting ex_queue 7 = Some (queued_player (ex_req 1 []) 7 0)" by (simp add: ex_queue_waiting)
  moreover have "wp_UserID (queued_player (ex_req 1 []) 7 0) \<noteq> mr_UserID (ex_req 2 ''general'')"
    "normalizeCategory (wp_PreferredCategory (queued_player (ex_req 1 []) 7 0))
      = normalizeCategory (mr_PreferredCategory (ex_req 2 ''general''))"
    by (simp_all add: ex_req_def normalizeCategory_def)
  ultimately have "r \<noteq> None" using Enqueue_pairs_iff [OF o E] by blast
  then show ?thesis by (simp add: E)
qed

text \<open>The position a waiting player is told is decided by the map iteration order alone: as
  soon as another player waits, two valid iteration orders give the same token two different
  positions, so position 0 does not mean the front of the queue.\<close>

theorem position_depends_on_map_order:
  assumes "finite (dom (waiting m))" and "t \<in> dom (waiting m)" and "u \<in> dom (waiting m)" and "t \<noteq> u"
  shows "\<exists>o1 o2. enumerates o1 (waiting m) \<and> enumerates o2 (waiting m) \<and>
    GetPosition m o1 t = 0 \<and> 0 < GetPosition m o2 t"
proof -
  obtain r where r: "set r = dom (waiting m) - {t, u}" "distinct r"
    using finite_distinct_list [of "dom (waiting m) - {t, u}"] assms(1) by auto
  have "enumerates (t # u # r) (waiting m)" "enumerates (u # t # r) (waiting m)"
    using r assms(2-4) by (auto simp: enumerates_def)
  moreover have "GetPosition m (t # u # r) t = 0" "GetPosition m (u # t # r) t = 1"
    using assms(4) by (simp_all add: GetPosition_def)
  ultimately show ?thesis by (metis zero_less_one)
qed

theorem position_depends_on_map_order_witness:
  "\<exists>(m :: QueueManager) o1 o2. GetPosition m o1 7 = 0 \<and> 0 < GetPosition m o2 7 \<and> enumerates o1 (waiting m) \<and> enumerates o2 (waiting m)"
proof -
  let ?m = "ex_queue\<lparr>waiting := (waiting ex_queue)(8 \<mapsto> queued_player (ex_req 2 ''science'') 8 0)\<rparr>"
  have "finite (dom (waiting ?m))" "7 \<in> dom (waiting ?m)" "8 \<in> dom (waiting ?m)" "(7::uuid) \<noteq> 8"
    by (simp_all add: ex_queue_waiting)
  from position_depends_on_map_order [OF this] show ?thesis by blast
qed

end
