(* ===== verification/Rooms.thy ===== *)
theory Rooms
  imports Domain
begin

section \<open>Private rooms (internal/match/room.go)\<close>

text \<open>
  \<open>RoomManager.rooms\<close> is a map from room codes to rooms. \<open>JoinRoom\<close>, \<open>GetRoom\<close> and
  \<open>StartRoom\<close> run under the manager's mutex and are atomic steps. \<open>CreateRoom\<close> is two steps:
  \<open>generateRoomCode\<close> looks for a free code under the read lock, and the new room is stored
  later under the write lock; other operations may run in between (\<open>room_run\<close>). The functions
  return the pointer the map holds; the model returns the room it points to. The random
  numbers of \<open>rand.Intn(900000)\<close> are a stream, the readings of the clock are arguments.
\<close>

definition RoomStatusWaiting :: string where "RoomStatusWaiting = ''waiting''"
definition RoomStatusStarting :: string where "RoomStatusStarting = ''starting''"
definition RoomStatusActive :: string where "RoomStatusActive = ''active''"

lemmas room_status_defs = RoomStatusWaiting_def RoomStatusStarting_def RoomStatusActive_def

record RoomPlayer =
  rp_UserID :: uuid
  rp_Username :: string
  rp_IsGuest :: bool
  rp_IsHost :: bool
  rp_JoinedAt :: instant

record PrivateRoom =
  pm_RoomCode :: string
  pm_MatchID :: "uuid option"
  pm_HostID :: uuid
  pm_MatchName :: string
  pm_MaxPlayers :: int
  pm_QuestionCount :: int
  pm_PerQuestionSeconds :: int
  pm_Category :: string
  pm_Players :: "RoomPlayer list"
  pm_Status :: string
  pm_CreatedAt :: instant
  pm_StartCountdown :: int

type_synonym room_map = "string \<rightharpoonup> PrivateRoom"

definition NewRoomManager :: room_map where
  "NewRoomManager = Map.empty"

subsection \<open>Room codes\<close>

text \<open>\<open>fmt.Sprintf("%06d", num)\<close> for a non-negative number.\<close>

definition pad6 :: "nat \<Rightarrow> string" where
  "pad6 n = replicate (6 - length (show_nat n)) (CHR ''0'') @ show_nat n"

text \<open>The loop of \<open>generateRoomCode\<close> from its \<open>i\<close>-th random number on; it may not return.\<close>

partial_function (option) code_loop :: "room_map \<Rightarrow> (nat \<Rightarrow> nat) \<Rightarrow> nat \<Rightarrow> string option" where
  "code_loop rooms rnd i =
     (let num = 100000 + rnd i; code = pad6 num
      in if rooms code = None then Some code else code_loop rooms rnd (Suc i))"

definition generateRoomCode :: "room_map \<Rightarrow> (nat \<Rightarrow> nat) \<Rightarrow> string option" where
  "generateRoomCode rooms rnd = code_loop rooms rnd 0"

subsection \<open>Operations\<close>

definition new_room :: "PrivateRoomRequest \<Rightarrow> string \<Rightarrow> instant \<Rightarrow> instant \<Rightarrow> PrivateRoom" where
  "new_room req code joined created =
     \<lparr>pm_RoomCode = code, pm_MatchID = None, pm_HostID = rr_HostID req, pm_MatchName = rr_MatchName req,
      pm_MaxPlayers = rr_MaxPlayers req, pm_QuestionCount = rr_QuestionCount req,
      pm_PerQuestionSeconds = rr_PerQuestionSeconds req,
      pm_Category = normalizeCategory (rr_Category req),
      pm_Players = [\<lparr>rp_UserID = rr_HostID req, rp_Username = rr_Username req, rp_IsGuest = False,
                     rp_IsHost = True, rp_JoinedAt = joined\<rparr>],
      pm_Status = RoomStatusWaiting, pm_CreatedAt = created, pm_StartCountdown = 5\<rparr>"

text \<open>\<open>CreateRoom\<close> up to the write lock, and its critical section.\<close>

definition CreateRoom_pick ::
  "room_map \<Rightarrow> (nat \<Rightarrow> nat) \<Rightarrow> instant \<Rightarrow> instant \<Rightarrow> PrivateRoomRequest \<Rightarrow> (string \<times> PrivateRoom) res option" where
  "CreateRoom_pick rooms rnd joined created req =
     (if rr_IsGuest req then Some (Inl ''guests cannot create private rooms'')
      else case generateRoomCode rooms rnd of
             None \<Rightarrow> None
           | Some code \<Rightarrow> Some (Inr (code, new_room req code joined created)))"

definition CreateRoom_insert :: "room_map \<Rightarrow> string \<Rightarrow> PrivateRoom \<Rightarrow> room_map" where
  "CreateRoom_insert rooms code room = rooms(code \<mapsto> room)"

definition CreateRoom ::
  "room_map \<Rightarrow> (nat \<Rightarrow> nat) \<Rightarrow> instant \<Rightarrow> instant \<Rightarrow> PrivateRoomRequest \<Rightarrow>
   (room_map \<times> (string \<times> PrivateRoom) res) option" where
  "CreateRoom rooms rnd joined created req =
     (case CreateRoom_pick rooms rnd joined created req of
        None \<Rightarrow> None
      | Some (Inl e) \<Rightarrow> Some (rooms, Inl e)
      | Some (Inr (code, room)) \<Rightarrow> Some (CreateRoom_insert rooms code room, Inr (code, room)))"

definition JoinRoom ::
  "room_map \<Rightarrow> instant \<Rightarrow> string \<Rightarrow> uuid \<Rightarrow> string \<Rightarrow> bool \<Rightarrow> room_map \<times> PrivateRoom res" where
  "JoinRoom rooms now roomCode userID username isGuest =
     (case rooms roomCode of
        None \<Rightarrow> (rooms, Inl ''room not found'')
      | Some room \<Rightarrow>
          if pm_Status room \<noteq> RoomStatusWaiting then (rooms, Inl ''room not accepting players'')
          else if pm_MaxPlayers room \<le> int (length (pm_Players room)) then (rooms, Inl ''room full'')
          else if list_ex (\<lambda>p. rp_UserID p = userID) (pm_Players room)
            then (rooms, Inl ''user already in room'')
          else if userID = pm_HostID room then (rooms, Inl ''host cannot join their own room again'')
          else
            let room' = room\<lparr>pm_Players := pm_Players room @
                  [\<lparr>rp_UserID = userID, rp_Username = username, rp_IsGuest = isGuest,
                    rp_IsHost = False, rp_JoinedAt = now\<rparr>]\<rparr>
            in (rooms(roomCode \<mapsto> room'), Inr room'))"

definition GetRoom :: "room_map \<Rightarrow> string \<Rightarrow> PrivateRoom res" where
  "GetRoom rooms roomCode =
     (case rooms roomCode of None \<Rightarrow> Inl ''room not found'' | Some room \<Rightarrow> Inr room)"

definition StartRoom ::
  "room_map \<Rightarrow> string \<Rightarrow> uuid \<Rightarrow> int \<Rightarrow> room_map \<times> PrivateRoom res" where
  "StartRoom rooms roomCode matchID countdownSeconds =
     (case rooms roomCode of
        None \<Rightarrow> (rooms, Inl ''room not found'')
      | Some room \<Rightarrow>
          if pm_Status room \<noteq> RoomStatusWaiting then (rooms, Inl ''room cannot be started'')
          else if length (pm_Players room) < 2 then (rooms, Inl ''need at least 2 players'')
          else
            let room' = room\<lparr>pm_MatchID := Some matchID, pm_Status := RoomStatusStarting,
                  pm_StartCountdown :=
                    (if 0 < countdownSeconds then countdownSeconds else pm_StartCountdown room)\<rparr>
            in (rooms(roomCode \<mapsto> room'), Inr room'))"

subsection \<open>The code generator\<close>

lemma code_loop_Some: "code_loop rooms rnd i = Some c \<Longrightarrow> \<exists>j \<ge> i. c = pad6 (100000 + rnd j) \<and> rooms c = None"
proof (induction rule: code_loop.raw_induct [of "\<lambda>rooms rnd i c. \<exists>j \<ge> i. c = pad6 (100000 + rnd j) \<and> rooms c = None",
    rotated, consumes 1])
  case (1 rooms rnd i c)
  then show ?case
    by (auto simp: Let_def split: if_splits) (meson Suc_leD)
qed

lemma code_loop_returns:
  assumes "rooms (pad6 (100000 + rnd j)) = None" "i \<le> j"
  shows "\<exists>c. code_loop rooms rnd i = Some c"
  using assms(2)
proof (induction "j - i" arbitrary: i)
  case 0
  with assms(1) show ?case by (subst code_loop.simps) simp
next
  case (Suc d)
  then have "\<exists>c. code_loop rooms rnd (Suc i) = Some c" by (intro Suc.hyps(1)) auto
  then show ?case by (subst code_loop.simps) (auto simp: Let_def)
qed

lemma length_show_nat_le: "n < 10 ^ Suc k \<Longrightarrow> length (show_nat n) \<le> Suc k"
proof (induction k arbitrary: n)
  case 0
  then show ?case by (subst show_nat.simps) simp
next
  case (Suc k)
  show ?case
  proof (cases "n < 10")
    case True
    then show ?thesis by (subst show_nat.simps) simp
  next
    case False
    from Suc.prems have "n div 10 < 10 ^ Suc k" by (simp add: less_mult_imp_div_less)
    from Suc.IH [OF this] False show ?thesis by (subst show_nat.simps) simp
  qed
qed

lemma pad6_six: "n < 1000000 \<Longrightarrow> length (pad6 n) = 6"
  using length_show_nat_le [of n 5] by (simp add: pad6_def)

lemma pad6_digits: "list_all is_digit (pad6 n)"
  using show_nat_digits [of n] by (auto simp: pad6_def list_all_iff is_digit_def)

lemma digits_val_zeros: "digits_val (replicate k (CHR ''0'') @ s) = digits_val s"
proof -
  have "foldl (\<lambda>a c. 10 * a + digit_val c) 0 (replicate k (CHR ''0'')) = 0"
    by (induction k) (simp_all add: digit_val_def)
  then show ?thesis by (simp add: digits_val_def)
qed

lemma digits_val_pad6 [simp]: "digits_val (pad6 n) = int n"
  by (simp add: pad6_def digits_val_zeros)

lemma pad6_inject: "pad6 m = pad6 n \<longleftrightarrow> m = n"
  by (metis digits_val_pad6 of_nat_eq_iff)

subsection \<open>What every room looks like\<close>

definition room_ok :: "string \<Rightarrow> PrivateRoom \<Rightarrow> bool" where
  "room_ok code r \<longleftrightarrow>
     pm_RoomCode r = code \<and>
     (\<exists>host guests. pm_Players r = host # guests \<and> rp_UserID host = pm_HostID r \<and> rp_IsHost host \<and>
        \<not> rp_IsGuest host \<and> list_all (\<lambda>p. \<not> rp_IsHost p) guests) \<and>
     distinct (map rp_UserID (pm_Players r)) \<and>
     int (length (pm_Players r)) \<le> max 1 (pm_MaxPlayers r) \<and>
     pm_Category r \<noteq> [] \<and>
     (pm_Status r = RoomStatusWaiting \<and> pm_MatchID r = None \<or>
      pm_Status r = RoomStatusStarting \<and> pm_MatchID r \<noteq> None \<and> 2 \<le> length (pm_Players r))"

definition rooms_ok :: "room_map \<Rightarrow> bool" where
  "rooms_ok rooms \<longleftrightarrow> (\<forall>code r. rooms code = Some r \<longrightarrow> room_ok code r)"

lemma rooms_okD: "rooms_ok rooms \<Longrightarrow> rooms code = Some r \<Longrightarrow> room_ok code r"
  by (simp add: rooms_ok_def)

lemma rooms_ok_upd: "rooms_ok rooms \<Longrightarrow> room_ok code r \<Longrightarrow> rooms_ok (rooms(code \<mapsto> r))"
  by (simp add: rooms_ok_def)

lemma new_room_ok: "room_ok code (new_room req code t1 t2)"
  by (simp add: room_ok_def new_room_def normalizeCategory_def)

lemma status_distinct [simp]: "RoomStatusWaiting \<noteq> RoomStatusStarting" "RoomStatusStarting \<noteq> RoomStatusWaiting"
  by (simp_all add: room_status_defs)

text \<open>The two operations that change a stored room, as equations on that room.\<close>

lemma JoinRoom_cases:
  assumes "JoinRoom rooms now code u name g = (rooms', r)"
  obtains (reject) e where "rooms' = rooms" "r = Inl e"
  | (joined) room p where "rooms code = Some room" "pm_Status room = RoomStatusWaiting"
      "int (length (pm_Players room)) < pm_MaxPlayers room"
      "u \<notin> rp_UserID ` set (pm_Players room)" "u \<noteq> pm_HostID room"
      "p = \<lparr>rp_UserID = u, rp_Username = name, rp_IsGuest = g, rp_IsHost = False, rp_JoinedAt = now\<rparr>"
      "r = Inr (room\<lparr>pm_Players := pm_Players room @ [p]\<rparr>)"
      "rooms' = rooms(code \<mapsto> room\<lparr>pm_Players := pm_Players room @ [p]\<rparr>)"
  using assms
  by (auto simp: JoinRoom_def Let_def list_ex_iff not_le split: option.splits if_splits)

lemma StartRoom_cases:
  assumes "StartRoom rooms code mid n = (rooms', r)"
  obtains (reject) e where "rooms' = rooms" "r = Inl e"
  | (started) room room' where "rooms code = Some room" "pm_Status room = RoomStatusWaiting"
      "2 \<le> length (pm_Players room)"
      "room' = room\<lparr>pm_MatchID := Some mid, pm_Status := RoomStatusStarting,
         pm_StartCountdown := (if 0 < n then n else pm_StartCountdown room)\<rparr>"
      "r = Inr room'" "rooms' = rooms(code \<mapsto> room')"
  using assms
  by (auto simp: StartRoom_def Let_def split: option.splits if_splits)

lemma join_room_ok:
  assumes "room_ok code r" "pm_Status r = RoomStatusWaiting" "int (length (pm_Players r)) < pm_MaxPlayers r"
    "rp_UserID p \<notin> rp_UserID ` set (pm_Players r)" "\<not> rp_IsHost p"
  shows "room_ok code (r\<lparr>pm_Players := pm_Players r @ [p]\<rparr>)"
proof -
  from assms(1) obtain host guests where "pm_Players r = host # guests" "rp_UserID host = pm_HostID r"
    "rp_IsHost host" "\<not> rp_IsGuest host" "list_all (\<lambda>p. \<not> rp_IsHost p) guests"
    by (auto simp: room_ok_def)
  with assms show ?thesis by (auto simp: room_ok_def)
qed

lemma start_room_ok:
  "room_ok code r \<Longrightarrow> 2 \<le> length (pm_Players r) \<Longrightarrow>
   room_ok code (r\<lparr>pm_MatchID := Some mid, pm_Status := RoomStatusStarting, pm_StartCountdown := n\<rparr>)"
  "room_ok code r \<Longrightarrow> 2 \<le> length (pm_Players r) \<Longrightarrow>
   room_ok code (r\<lparr>pm_MatchID := Some mid, pm_Status := RoomStatusStarting\<rparr>)"
  by (auto simp: room_ok_def)

lemma JoinRoom_ok: "rooms_ok rooms \<Longrightarrow> JoinRoom rooms now code u name g = (rooms', r) \<Longrightarrow> rooms_ok rooms'"
  by (erule JoinRoom_cases) (auto intro!: rooms_ok_upd join_room_ok dest: rooms_okD)

lemma StartRoom_ok: "rooms_ok rooms \<Longrightarrow> StartRoom rooms code mid n = (rooms', r) \<Longrightarrow> rooms_ok rooms'"
  by (erule StartRoom_cases) (simp_all, simp add: rooms_ok_upd start_room_ok rooms_okD del: fun_upd_apply)

subsection \<open>Concurrent runs\<close>

text \<open>
  A state of a run is the map and the rooms built by \<open>CreateRoom\<close> calls that have picked their
  code and not yet taken the write lock. A request may start, and a pending insertion may
  happen, at any time.
\<close>

inductive room_run :: "room_map \<Rightarrow> (string \<times> PrivateRoom) list \<Rightarrow> bool" where
  init: "room_run NewRoomManager []"
| pick: "room_run rooms pend \<Longrightarrow>
    CreateRoom_pick rooms rnd t1 t2 req = Some (Inr (code, room)) \<Longrightarrow> room_run rooms ((code, room) # pend)"
| insert: "room_run rooms (pend1 @ (code, room) # pend2) \<Longrightarrow>
    room_run (CreateRoom_insert rooms code room) (pend1 @ pend2)"
| join: "room_run rooms pend \<Longrightarrow> JoinRoom rooms now code u name g = (rooms', r) \<Longrightarrow> room_run rooms' pend"
| start: "room_run rooms pend \<Longrightarrow> StartRoom rooms code mid n = (rooms', r) \<Longrightarrow> room_run rooms' pend"

lemma CreateRoom_pickD:
  "CreateRoom_pick rooms rnd t1 t2 req = Some (Inr (code, room)) \<Longrightarrow>
   \<not> rr_IsGuest req \<and> rooms code = None \<and> room = new_room req code t1 t2"
  by (auto simp: CreateRoom_pick_def generateRoomCode_def split: if_splits option.splits dest: code_loop_Some)

lemma room_run_ok: "room_run rooms pend \<Longrightarrow> rooms_ok rooms \<and> (\<forall>(c, r) \<in> set pend. room_ok c r)"
proof (induction rule: room_run.induct)
  case init
  show ?case by (simp add: rooms_ok_def NewRoomManager_def)
next
  case (pick rooms pend rnd t1 t2 req code room)
  then show ?case using CreateRoom_pickD [OF pick.hyps(2)] by (auto intro: new_room_ok)
next
  case (insert rooms pend1 code room pend2)
  then have "rooms_ok (CreateRoom_insert rooms code room)"
    unfolding CreateRoom_insert_def by (intro rooms_ok_upd) auto
  with insert show ?case by auto
next
  case (join rooms pend now code u name g rooms' r)
  then show ?case using JoinRoom_ok by blast
next
  case (start rooms pend code mid n rooms' r)
  then show ?case using StartRoom_ok by blast
qed

subsection \<open>Properties\<close>

definition ex_room_req :: "uuid \<Rightarrow> PrivateRoomRequest" where
  "ex_room_req u = \<lparr>rr_HostID = u, rr_Username = ''h'', rr_IsGuest = False, rr_MatchName = ''m'',
     rr_MaxPlayers = 2, rr_QuestionCount = 10, rr_PerQuestionSeconds = 15, rr_Category = []\<rparr>"

definition ex_room :: PrivateRoom where
  "ex_room = new_room (ex_room_req 1) ''100000'' 0 0"

lemma pad6_100000: "pad6 100000 = ''100000''"
proof -
  have "digit 0 = CHR ''0''" "digit 1 = CHR ''1''" by (simp_all add: digit_def) (code_simp+)
  then show ?thesis by (simp add: pad6_def show_nat.simps)
qed

lemma ex_code: "code_loop rooms (\<lambda>_. 0) 0 = Some ''100000''" if "rooms ''100000'' = None"
  using that by (subst code_loop.simps) (simp add: pad6_100000)

lemma ex_pick: "rooms ''100000'' = None \<Longrightarrow>
   CreateRoom_pick rooms (\<lambda>_. 0) 0 0 (ex_room_req u) = Some (Inr (''100000'', new_room (ex_room_req u) ''100000'' 0 0))"
  by (simp add: CreateRoom_pick_def generateRoomCode_def ex_code ex_room_req_def)

lemma ex_room_run: "room_run [''100000'' \<mapsto> ex_room] []"
  using room_run.insert [of Map.empty "[]" "''100000''" ex_room "[]"]
    room_run.pick [OF room_run.init, of "\<lambda>_. 0" 0 0 "ex_room_req 1" "''100000''" ex_room]
  by (simp add: NewRoomManager_def ex_pick ex_room_def CreateRoom_insert_def)

text \<open>C10: In every state that any interleaving of creating, joining and starting rooms can
  reach, a room lists its registered host first and only once, no user twice, never more players
  than its limit, and is either waiting without a match or starting with a match and at least two
  players.\<close>

theorem rooms_stay_consistent:
  assumes "room_run rooms pend" "rooms code = Some r"
  shows "room_ok code r"
  using room_run_ok [OF assms(1)] assms(2) by (auto dest: rooms_okD)

theorem rooms_stay_consistent_witness: "room_ok ''100000'' ex_room"
  by (rule rooms_stay_consistent [OF ex_room_run]) simp

text \<open>C26: A join succeeds exactly when the room exists, still waits, has a free place and does
  not list the user; it then appends that user behind the others and changes nothing else, and
  a failed join changes nothing. Once a match is starting, nobody can join.\<close>

theorem JoinRoom_iff:
  assumes "room_run rooms pend" "JoinRoom rooms now code u name g = (rooms', res)"
  shows "((\<exists>room'. res = Inr room') \<longleftrightarrow>
      (\<exists>room. rooms code = Some room \<and> pm_Status room = RoomStatusWaiting \<and>
         int (length (pm_Players room)) < pm_MaxPlayers room \<and> u \<notin> rp_UserID ` set (pm_Players room)))
    \<and> ((\<exists>e. res = Inl e) \<longrightarrow> rooms' = rooms)
    \<and> (\<forall>room'. res = Inr room' \<longrightarrow> rooms' = rooms(code \<mapsto> room') \<and>
      (\<exists>room p. rooms code = Some room \<and> rp_UserID p = u \<and> pm_Players room' = pm_Players room @ [p]))"
proof (intro conjI)
  have host: "pm_HostID room \<in> rp_UserID ` set (pm_Players room)" if "rooms code = Some room" for room
    using room_run_ok [OF assms(1)] that by (auto simp: rooms_ok_def room_ok_def) force
  show "(\<exists>room'. res = Inr room') \<longleftrightarrow>
      (\<exists>room. rooms code = Some room \<and> pm_Status room = RoomStatusWaiting \<and>
         int (length (pm_Players room)) < pm_MaxPlayers room \<and> u \<notin> rp_UserID ` set (pm_Players room))"
    using assms(2) host by (auto simp: JoinRoom_def Let_def list_ex_iff split: option.splits if_splits)
  show "(\<exists>e. res = Inl e) \<longrightarrow> rooms' = rooms"
    using assms(2) by (rule JoinRoom_cases) auto
  show "\<forall>room'. res = Inr room' \<longrightarrow> rooms' = rooms(code \<mapsto> room') \<and>
      (\<exists>room p. rooms code = Some room \<and> rp_UserID p = u \<and> pm_Players room' = pm_Players room @ [p])"
    using assms(2) by (rule JoinRoom_cases) auto
qed

theorem JoinRoom_iff_witness:
  "\<exists>room'. snd (JoinRoom [''100000'' \<mapsto> ex_room] 5 ''100000'' 2 ''b'' True) = Inr room'"
proof -
  let ?j = "JoinRoom [''100000'' \<mapsto> ex_room] 5 ''100000'' 2 ''b'' True"
  have "?j = (fst ?j, snd ?j)" by simp
  from JoinRoom_iff [OF ex_room_run this] show ?thesis
    by (simp add: ex_room_def new_room_def ex_room_req_def)
qed

text \<open>C29: \<open>generateRoomCode\<close> returns exactly when some random number names a free code. The
  code then is free and consists of six digits between 100000 and 999999; when all 900000 codes
  are taken the loop never ends, and with a random stream that reaches every number it ends as
  long as fewer than 900000 rooms exist.\<close>

theorem generateRoomCode_returns:
  assumes "\<forall>i. rnd i < 900000"
  shows "((\<exists>c. generateRoomCode rooms rnd = Some c) \<longleftrightarrow> (\<exists>i. rooms (pad6 (100000 + rnd i)) = None))
    \<and> (\<forall>c. generateRoomCode rooms rnd = Some c \<longrightarrow> rooms c = None \<and> length c = 6 \<and>
      list_all is_digit c \<and> 100000 \<le> digits_val c \<and> digits_val c \<le> 999999)
    \<and> (finite (dom rooms) \<longrightarrow> card (dom rooms) < 900000 \<longrightarrow> range rnd = {..<900000} \<longrightarrow>
      (\<exists>c. generateRoomCode rooms rnd = Some c))"
proof (intro conjI)
  have r: "100000 + rnd i < 1000000" "rnd i \<le> 899999" for i
    using assms [rule_format, of i] by simp_all
  show iff: "(\<exists>c. generateRoomCode rooms rnd = Some c) \<longleftrightarrow> (\<exists>i. rooms (pad6 (100000 + rnd i)) = None)"
    unfolding generateRoomCode_def using code_loop_Some [of rooms rnd 0] code_loop_returns [of rooms rnd _ 0] by blast
  show "\<forall>c. generateRoomCode rooms rnd = Some c \<longrightarrow> rooms c = None \<and> length c = 6 \<and>
      list_all is_digit c \<and> 100000 \<le> digits_val c \<and> digits_val c \<le> 999999"
    unfolding generateRoomCode_def using r by (auto dest!: code_loop_Some simp: pad6_six pad6_digits)
  show "finite (dom rooms) \<longrightarrow> card (dom rooms) < 900000 \<longrightarrow> range rnd = {..<900000} \<longrightarrow>
      (\<exists>c. generateRoomCode rooms rnd = Some c)"
  proof (intro impI)
    assume fin: "finite (dom rooms)" and few: "card (dom rooms) < 900000" and all: "range rnd = {..<900000}"
    have "card ((\<lambda>n. pad6 (100000 + n)) ` {..<900000}) = 900000"
      by (subst card_image) (auto simp: inj_on_def pad6_inject)
    with few fin have "\<not> (\<lambda>n. pad6 (100000 + n)) ` {..<900000} \<subseteq> dom rooms"
      by (metis card_mono linorder_not_less)
    then obtain n where "n < 900000" "rooms (pad6 (100000 + n)) = None" by (auto simp: dom_def)
    with all have "\<exists>i. rooms (pad6 (100000 + rnd i)) = None"
      by (metis imageE lessThan_iff)
    with iff show "\<exists>c. generateRoomCode rooms rnd = Some c" by blast
  qed
qed

theorem generateRoomCode_returns_witness: "\<exists>c. generateRoomCode [''100000'' \<mapsto> ex_room] (\<lambda>i. if i = 0 then 0 else 1) = Some c"
proof -
  have r: "\<forall>i::nat. (if i = 0 then 0 else 1) < (900000::nat)" by simp
  have "pad6 (100000 + (if (1::nat) = 0 then 0 else 1)) \<noteq> ''100000''" unfolding pad6_100000 [symmetric] by (simp only: pad6_inject) simp
  then have "[''100000'' \<mapsto> ex_room] (pad6 (100000 + (if (1::nat) = 0 then 0 else 1))) = None" by (simp only: fun_upd_apply if_False)
  with generateRoomCode_returns [OF r, of "[''100000'' \<mapsto> ex_room]"] show ?thesis by blast
qed

text \<open>The check for a free code and the insertion are two critical sections: when two hosts
  create rooms concurrently and draw the same number before either room is stored, the second
  insertion replaces the first room, so the first host's code leads to the other host's room.\<close>

theorem concurrent_create_loses_room:
  assumes "rooms (pad6 (100000 + rnd1 0)) = None" "rnd2 0 = rnd1 0"
    and "\<not> rr_IsGuest req1" "\<not> rr_IsGuest req2"
  shows "\<exists>code room1 room2.
    CreateRoom_pick rooms rnd1 t1 t1' req1 = Some (Inr (code, room1)) \<and>
    CreateRoom_pick rooms rnd2 t2 t2' req2 = Some (Inr (code, room2)) \<and>
    pm_HostID room1 = rr_HostID req1 \<and>
    GetRoom (CreateRoom_insert (CreateRoom_insert rooms code room1) code room2) code = Inr room2 \<and>
    pm_HostID room2 = rr_HostID req2"
proof -
  have "generateRoomCode rooms rnd1 = Some (pad6 (100000 + rnd1 0))"
    "generateRoomCode rooms rnd2 = Some (pad6 (100000 + rnd1 0))"
    unfolding generateRoomCode_def using assms(1,2) by (subst code_loop.simps; simp)+
  with assms(3,4) show ?thesis
    by (auto simp: CreateRoom_pick_def CreateRoom_insert_def GetRoom_def new_room_def)
qed

theorem concurrent_create_loses_room_witness:
  "\<exists>code room1 room2. GetRoom (CreateRoom_insert (CreateRoom_insert NewRoomManager code room1) code room2) code
     = Inr room2 \<and> pm_HostID room1 = 1 \<and> pm_HostID room2 = 2"
proof -
  have h: "NewRoomManager (pad6 (100000 + (\<lambda>_. 0::nat) 0)) = None" "(\<lambda>_. 0::nat) 0 = (\<lambda>_. 0) (0::nat)"
    "\<not> rr_IsGuest (ex_room_req 1)" "\<not> rr_IsGuest (ex_room_req 2)"
    by (simp_all add: NewRoomManager_def ex_room_req_def)
  obtain code room1 room2 where
    "GetRoom (CreateRoom_insert (CreateRoom_insert NewRoomManager code room1) code room2) code = Inr room2"
    "pm_HostID room1 = rr_HostID (ex_room_req 1)" "pm_HostID room2 = rr_HostID (ex_room_req 2)"
    using concurrent_create_loses_room [where rooms = NewRoomManager and ?rnd1.0 = "\<lambda>_. 0"
      and ?rnd2.0 = "\<lambda>_. 0" and ?req1.0 = "ex_room_req 1" and ?req2.0 = "ex_room_req 2"] h by blast
  then show ?thesis by (auto simp: ex_room_req_def)
qed

end
