(* ===== verification/Redis.thy ===== *)
theory Redis
  imports F64 Domain "HOL-Library.Product_Lexorder"
begin

section \<open>The Redis client the components are given\<close>

text \<open>
  Redis and its Go client are outside the repository. The components take a
  \<open>'r redis_client\<close>: one function per command the sources send, over an abstract server state
  \<open>'r\<close> that every command (also a read, which may fail) returns. What the sources rely on is the
  locale \<open>redis_server\<close>: its assumptions are the documented effect of each command on a table of
  keys, values and deadlines. A command takes effect at one instant, the server clock of the
  state it returns. A command that reports an error either had its effect or had none.

  A value that the sources store as JSON (\<open>json.Marshal\<close> of a struct and \<open>json.Unmarshal\<close> into
  the same struct) is kept as the struct itself.

  \<open>mem_client\<close> is an executable server in memory with a fault stream. It interprets the locale,
  so the assumptions can hold, and witnesses run on it.
\<close>

datatype doc =
    DText string
  | DPlayer PlayerState
  | DQuestions "QuestionPackItem list"
  | DPack PackResponse
  | DSet "string list"
  | DZSet "(string \<times> rat) list"
  | DHash "(string \<times> string) list"
  | DObject "(string \<times> string) list"

type_synonym table = "string \<rightharpoonup> doc \<times> instant option"

definition live :: "instant \<Rightarrow> table \<Rightarrow> string \<Rightarrow> doc option" where
  "live now tab k =
     (case tab k of None \<Rightarrow> None
      | Some (d, None) \<Rightarrow> Some d
      | Some (d, Some t) \<Rightarrow> if now < t then Some d else None)"

datatype 'a reply = RVal 'a | RNil | RErr err

text \<open>The commands of one \<open>TxPipeline\<close>.\<close>

datatype tx_cmd =
    ZIncrBy string rat string
  | HIncrBy string string int
  | HSet string string string
  | Expire string duration

subsection \<open>The effect of the commands on the table\<close>

definition deadline :: "instant \<Rightarrow> table \<Rightarrow> string \<Rightarrow> instant option" where
  "deadline now tab k = (if live now tab k = None then None else snd (the (tab k)))"

definition sadd :: "instant \<Rightarrow> string \<Rightarrow> string list \<Rightarrow> table \<Rightarrow> table" where
  "sadd now k ms tab =
     (case live now tab k of
        None \<Rightarrow> tab(k \<mapsto> (DSet (remdups ms), None))
      | Some (DSet xs) \<Rightarrow> tab(k \<mapsto> (DSet (xs @ filter (\<lambda>m. m \<notin> set xs) (remdups ms)), deadline now tab k))
      | Some _ \<Rightarrow> tab)"

definition expire :: "instant \<Rightarrow> string \<Rightarrow> duration \<Rightarrow> table \<Rightarrow> table" where
  "expire now k ttl tab =
     (case live now tab k of None \<Rightarrow> tab | Some d \<Rightarrow> tab(k \<mapsto> (d, Some (now + ttl))))"

fun upd_assoc :: "'k \<Rightarrow> 'v \<Rightarrow> ('k \<times> 'v) list \<Rightarrow> ('k \<times> 'v) list" where
  "upd_assoc k v [] = [(k, v)]"
| "upd_assoc k v ((k', v') # r) = (if k' = k then (k, v) # r else (k', v') # upd_assoc k v r)"

definition zset_of :: "doc option \<Rightarrow> (string \<times> rat) list option" where
  "zset_of d = (case d of None \<Rightarrow> Some [] | Some (DZSet z) \<Rightarrow> Some z | Some _ \<Rightarrow> None)"

definition hash_of :: "doc option \<Rightarrow> (string \<times> string) list option" where
  "hash_of d = (case d of None \<Rightarrow> Some [] | Some (DHash h) \<Rightarrow> Some h | Some _ \<Rightarrow> None)"

definition set_of :: "doc option \<Rightarrow> string list option" where
  "set_of d = (case d of None \<Rightarrow> Some [] | Some (DSet h) \<Rightarrow> Some h | Some _ \<Rightarrow> None)"

definition zget :: "(string \<times> rat) list \<Rightarrow> string \<Rightarrow> rat" where
  "zget z m = (case map_of z m of None \<Rightarrow> 0 | Some s \<Rightarrow> s)"

definition hget_int :: "(string \<times> string) list \<Rightarrow> string \<Rightarrow> int option" where
  "hget_int h f = (case map_of h f of None \<Rightarrow> Some 0 | Some s \<Rightarrow> atoi s)"

text \<open>A command on a key that holds another kind of value, or an \<open>HIncrBy\<close> on a field that is no
  number or whose sum leaves 64 bits, is rejected by the server: \<open>None\<close>.\<close>

fun run_cmd :: "instant \<Rightarrow> tx_cmd \<Rightarrow> table \<Rightarrow> table option" where
  "run_cmd now (ZIncrBy k delta m) tab =
     (case zset_of (live now tab k) of None \<Rightarrow> None
      | Some z \<Rightarrow> Some (tab(k \<mapsto> (DZSet (upd_assoc m (f64 (zget z m + delta)) z), deadline now tab k))))"
| "run_cmd now (HIncrBy k f n) tab =
     (case hash_of (live now tab k) of None \<Rightarrow> None
      | Some h \<Rightarrow> (case hget_int h f of None \<Rightarrow> None
          | Some v \<Rightarrow>
              if v + n < - (2 ^ 63) \<or> 2 ^ 63 \<le> v + n then None
              else Some (tab(k \<mapsto> (DHash (upd_assoc f (show_int (v + n)) h), deadline now tab k)))))"
| "run_cmd now (HSet k f v) tab =
     (case hash_of (live now tab k) of None \<Rightarrow> None
      | Some h \<Rightarrow> Some (tab(k \<mapsto> (DHash (upd_assoc f v h), deadline now tab k))))"
| "run_cmd now (Expire k ttl) tab = Some (expire now k ttl tab)"

text \<open>\<open>MULTI\<close>/\<open>EXEC\<close> runs every command; one that is rejected does not undo the others.\<close>

fun run_tx :: "instant \<Rightarrow> tx_cmd list \<Rightarrow> table \<Rightarrow> table" where
  "run_tx now [] tab = tab"
| "run_tx now (c # cs) tab = run_tx now cs (case run_cmd now c tab of None \<Rightarrow> tab | Some t \<Rightarrow> t)"

fun tx_ok :: "instant \<Rightarrow> tx_cmd list \<Rightarrow> table \<Rightarrow> bool" where
  "tx_ok now [] tab \<longleftrightarrow> True"
| "tx_ok now (c # cs) tab \<longleftrightarrow> (case run_cmd now c tab of None \<Rightarrow> False | Some t \<Rightarrow> tx_ok now cs t)"

text \<open>\<open>ZREVRANGE\<close>: descending score, equal scores in reverse lexicographical order of the
  member.\<close>

definition zrev :: "(string \<times> rat) list \<Rightarrow> (string \<times> rat) list" where
  "zrev z = rev (sort_key (\<lambda>(m, s). (s, m)) z)"

definition zslice :: "int \<Rightarrow> int \<Rightarrow> (string \<times> rat) list \<Rightarrow> (string \<times> rat) list" where
  "zslice start stop z = take (nat (stop - start + 1)) (drop (nat start) (zrev z))"

text \<open>A Lua script that reads keys and deletes some: given a read of the key space, the keys it
  deletes and its integer reply.\<close>

type_synonym script = "(string \<Rightarrow> doc option) \<Rightarrow> string list \<times> int"

record 'r redis_client =
  rc_Get :: "'r \<Rightarrow> string \<Rightarrow> 'r \<times> doc reply"
  rc_Set :: "'r \<Rightarrow> string \<Rightarrow> doc \<Rightarrow> duration \<Rightarrow> 'r \<times> err option"
  rc_SetNX :: "'r \<Rightarrow> string \<Rightarrow> doc \<Rightarrow> duration \<Rightarrow> 'r \<times> bool res"
  rc_Del :: "'r \<Rightarrow> string \<Rightarrow> 'r \<times> err option"
  rc_Exists :: "'r \<Rightarrow> string \<Rightarrow> 'r \<times> int res"
  rc_Eval :: "'r \<Rightarrow> script \<Rightarrow> 'r \<times> err option"
  rc_KeysPrefix :: "'r \<Rightarrow> string \<Rightarrow> 'r \<times> string list res"
  rc_SIsMember :: "'r \<Rightarrow> string \<Rightarrow> string \<Rightarrow> 'r \<times> bool res"
  rc_PipeSIsMember :: "'r \<Rightarrow> (string \<times> string) list \<Rightarrow> 'r \<times> bool list res"
  rc_SAdd :: "'r \<Rightarrow> string \<Rightarrow> string list \<Rightarrow> 'r \<times> err option"
  rc_Expire :: "'r \<Rightarrow> string \<Rightarrow> duration \<Rightarrow> 'r \<times> err option"
  rc_TxExec :: "'r \<Rightarrow> tx_cmd list \<Rightarrow> 'r \<times> err option"
  rc_ZRevRange :: "'r \<Rightarrow> string \<Rightarrow> int \<Rightarrow> int \<Rightarrow> 'r \<times> (string \<times> rat) list res"
  rc_HGetAll :: "'r \<Rightarrow> string \<Rightarrow> 'r \<times> (string \<times> string) list res"
  rc_Publish :: "'r \<Rightarrow> string \<Rightarrow> string \<Rightarrow> 'r \<times> err option"

subsection \<open>What the sources rely on\<close>

definition same_data :: "('r \<Rightarrow> table) \<Rightarrow> ('r \<Rightarrow> instant) \<Rightarrow> 'r \<Rightarrow> 'r \<Rightarrow> bool" where
  "same_data tab clk s s' \<longleftrightarrow> tab s' = tab s \<and> clk s \<le> clk s'"

definition becomes :: "('r \<Rightarrow> table) \<Rightarrow> ('r \<Rightarrow> instant) \<Rightarrow> 'r \<Rightarrow> 'r \<Rightarrow> table \<Rightarrow> bool" where
  "becomes tab clk s s' t \<longleftrightarrow> tab s' = t \<and> clk s \<le> clk s'"

lemma same_dataD: "same_data tab clk s s' \<Longrightarrow> tab s' = tab s" "same_data tab clk s s' \<Longrightarrow> clk s \<le> clk s'"
  by (simp_all add: same_data_def)

lemma becomesD: "becomes tab clk s s' t \<Longrightarrow> tab s' = t" "becomes tab clk s s' t \<Longrightarrow> clk s \<le> clk s'"
  by (simp_all add: becomes_def)

locale redis_server =
  fixes rc :: "'r redis_client" and tab :: "'r \<Rightarrow> table" and clk :: "'r \<Rightarrow> instant"
  assumes get_data: "rc_Get rc s k = (s', r0) \<Longrightarrow> same_data tab clk s s'"
    and get_val: "rc_Get rc s k = (s', RVal d) \<Longrightarrow> live (clk s') (tab s) k = Some d"
    and get_nil: "rc_Get rc s k = (s', RNil) \<Longrightarrow> live (clk s') (tab s) k = None"
    and set_ok: "rc_Set rc s k d ttl = (s', None) \<Longrightarrow>
      becomes tab clk s s' ((tab s)(k \<mapsto> (d, Some (clk s' + ttl))))"
    and set_err: "rc_Set rc s k d ttl = (s', Some e) \<Longrightarrow>
      same_data tab clk s s' \<or> becomes tab clk s s' ((tab s)(k \<mapsto> (d, Some (clk s' + ttl))))"
    and setnx_ok: "rc_SetNX rc s k d ttl = (s', Inr True) \<Longrightarrow>
      live (clk s') (tab s) k = None \<and> becomes tab clk s s' ((tab s)(k \<mapsto> (d, Some (clk s' + ttl))))"
    and setnx_held: "rc_SetNX rc s k d ttl = (s', Inr False) \<Longrightarrow>
      live (clk s') (tab s) k \<noteq> None \<and> same_data tab clk s s'"
    and setnx_err: "rc_SetNX rc s k d ttl = (s', Inl e) \<Longrightarrow>
      same_data tab clk s s' \<or> live (clk s') (tab s) k = None \<and>
        becomes tab clk s s' ((tab s)(k \<mapsto> (d, Some (clk s' + ttl))))"
    and eval_ok: "rc_Eval rc s f = (s', None) \<Longrightarrow>
      becomes tab clk s s' ((tab s) |` (- set (fst (f (live (clk s') (tab s))))))"
    and eval_err: "rc_Eval rc s f = (s', Some e) \<Longrightarrow> same_data tab clk s s' \<or>
      becomes tab clk s s' ((tab s) |` (- set (fst (f (live (clk s') (tab s))))))"
    and keys_data: "rc_KeysPrefix rc s p = (s', r1) \<Longrightarrow> same_data tab clk s s'"
    and keys_ok: "rc_KeysPrefix rc s p = (s', Inr ks) \<Longrightarrow>
      distinct ks \<and> set ks = {k. prefix p k \<and> live (clk s') (tab s) k \<noteq> None}"
    and sismember_data: "rc_SIsMember rc s k m = (s', r2) \<Longrightarrow> same_data tab clk s s'"
    and sismember_ok: "rc_SIsMember rc s k m = (s', Inr b) \<Longrightarrow>
      \<exists>xs. set_of (live (clk s') (tab s) k) = Some xs \<and> (b \<longleftrightarrow> m \<in> set xs)"
    and pipe_data: "rc_PipeSIsMember rc s kms = (s', r3) \<Longrightarrow> same_data tab clk s s'"
    and pipe_ok: "rc_PipeSIsMember rc s kms = (s', Inr bs) \<Longrightarrow> length bs = length kms \<and>
      (\<forall>i < length kms. \<exists>xs. set_of (live (clk s') (tab s) (fst (kms ! i))) = Some xs \<and>
         (bs ! i \<longleftrightarrow> snd (kms ! i) \<in> set xs))"
    and sadd_ok: "rc_SAdd rc s k ms = (s', None) \<Longrightarrow> becomes tab clk s s' (sadd (clk s') k ms (tab s))"
    and sadd_err: "rc_SAdd rc s k ms = (s', Some e) \<Longrightarrow>
      same_data tab clk s s' \<or> becomes tab clk s s' (sadd (clk s') k ms (tab s))"
    and expire_ok: "rc_Expire rc s k ttl = (s', None) \<Longrightarrow> becomes tab clk s s' (expire (clk s') k ttl (tab s))"
    and expire_err: "rc_Expire rc s k ttl = (s', Some e) \<Longrightarrow>
      same_data tab clk s s' \<or> becomes tab clk s s' (expire (clk s') k ttl (tab s))"
    and tx_ok: "rc_TxExec rc s cs = (s', None) \<Longrightarrow>
      tx_ok (clk s') cs (tab s) \<and> becomes tab clk s s' (run_tx (clk s') cs (tab s))"
    and tx_err: "rc_TxExec rc s cs = (s', Some e) \<Longrightarrow>
      same_data tab clk s s' \<or> becomes tab clk s s' (run_tx (clk s') cs (tab s))"
    and zrev_data: "rc_ZRevRange rc s k lo hi = (s', r4) \<Longrightarrow> same_data tab clk s s'"
    and zrev_ok: "rc_ZRevRange rc s k lo hi = (s', Inr zs) \<Longrightarrow> 0 \<le> lo \<Longrightarrow> 0 \<le> hi \<Longrightarrow>
      \<exists>z. zset_of (live (clk s') (tab s) k) = Some z \<and> zs = zslice lo hi z"
    and hgetall_data: "rc_HGetAll rc s k = (s', r5) \<Longrightarrow> same_data tab clk s s'"
    and hgetall_ok: "rc_HGetAll rc s k = (s', Inr h) \<Longrightarrow> hash_of (live (clk s') (tab s) k) = Some h"
    and publish_data: "rc_Publish rc s ch msg = (s', r6) \<Longrightarrow> same_data tab clk s s'"
    and del_ok: "rc_Del rc s k = (s', None) \<Longrightarrow> becomes tab clk s s' ((tab s)(k := None))"
    and del_err: "rc_Del rc s k = (s', Some e) \<Longrightarrow>
      same_data tab clk s s' \<or> becomes tab clk s s' ((tab s)(k := None))"
    and exists_data: "rc_Exists rc s k = (s', r7) \<Longrightarrow> same_data tab clk s s'"
    and exists_ok: "rc_Exists rc s k = (s', Inr n) \<Longrightarrow> n = (if live (clk s') (tab s) k = None then 0 else 1)"
begin

text \<open>A \<open>Set\<close> changes no other key, whether it reports an error or not.\<close>

lemma set_frame: "rc_Set rc s k d ttl = (s', r) \<Longrightarrow> k' \<noteq> k \<Longrightarrow> tab s' k' = tab s k'"
  by (cases r) (auto dest!: set_ok set_err simp: same_data_def becomes_def)

lemma set_clk: "rc_Set rc s k d ttl = (s', r) \<Longrightarrow> clk s \<le> clk s'"
  by (cases r) (auto dest!: set_ok set_err simp: same_data_def becomes_def)

lemma setnx_frame: "rc_SetNX rc s k d ttl = (s', r) \<Longrightarrow> k' \<noteq> k \<Longrightarrow> tab s' k' = tab s k'"
  by (cases r; cases "r = Inr True") (auto dest!: setnx_ok setnx_held setnx_err simp: same_data_def becomes_def)

lemma setnx_clk: "rc_SetNX rc s k d ttl = (s', r) \<Longrightarrow> clk s \<le> clk s'"
  by (cases r; cases "r = Inr True") (auto dest!: setnx_ok setnx_held setnx_err simp: same_data_def becomes_def)

lemma eval_frame:
  "rc_Eval rc s f = (s', r) \<Longrightarrow> (\<And>g. k' \<notin> set (fst (f g))) \<Longrightarrow> tab s' k' = tab s k'"
  by (cases r) (auto dest!: eval_ok eval_err simp: same_data_def becomes_def restrict_map_def)

lemma eval_clk: "rc_Eval rc s f = (s', r) \<Longrightarrow> clk s \<le> clk s'"
  by (cases r) (auto dest!: eval_ok eval_err simp: same_data_def becomes_def)

lemma sadd_clk: "rc_SAdd rc s k ms = (s', r) \<Longrightarrow> clk s \<le> clk s'"
  by (cases r) (auto dest!: sadd_ok sadd_err simp: same_data_def becomes_def)

lemma expire_clk: "rc_Expire rc s k ttl = (s', r) \<Longrightarrow> clk s \<le> clk s'"
  by (cases r) (auto dest!: expire_ok expire_err simp: same_data_def becomes_def)

lemma del_frame: "rc_Del rc s k = (s', r) \<Longrightarrow> k' \<noteq> k \<Longrightarrow> tab s' k' = tab s k'"
  by (cases r) (auto dest!: del_ok del_err simp: same_data_def becomes_def)

lemma del_clk: "rc_Del rc s k = (s', r) \<Longrightarrow> clk s \<le> clk s'"
  by (cases r) (auto dest!: del_ok del_err simp: same_data_def becomes_def)

lemma sadd_frame: "rc_SAdd rc s k ms = (s', r) \<Longrightarrow> k' \<noteq> k \<Longrightarrow> tab s' k' = tab s k'"
  by (cases r) (auto dest!: sadd_ok sadd_err simp: same_data_def becomes_def sadd_def
      split: option.splits doc.splits)

lemma expire_frame: "rc_Expire rc s k ttl = (s', r) \<Longrightarrow> k' \<noteq> k \<Longrightarrow> tab s' k' = tab s k'"
  by (cases r) (auto dest!: expire_ok expire_err simp: same_data_def becomes_def expire_def
      split: option.splits)

end

subsection \<open>A server in memory\<close>

text \<open>\<open>mem_faults\<close> says which of the next commands fail; every command takes \<open>mem_lat\<close>
  nanoseconds. A command that fails has no effect.\<close>

record mem =
  mem_tab :: table
  mem_clk :: instant
  mem_lat :: nat
  mem_faults :: "bool list"

definition mem_next :: "mem \<Rightarrow> mem" where
  "mem_next s = s\<lparr>mem_clk := mem_clk s + int (mem_lat s), mem_faults := drop 1 (mem_faults s)\<rparr>"

definition mem_fault :: "mem \<Rightarrow> bool" where
  "mem_fault s = (mem_faults s \<noteq> [] \<and> hd (mem_faults s))"

definition io_error :: err where "io_error = ''i/o timeout''"

definition mem_read :: "(instant \<Rightarrow> table \<Rightarrow> 'a res) \<Rightarrow> mem \<Rightarrow> mem \<times> 'a res" where
  "mem_read f s = (let s' = mem_next s in (s', if mem_fault s then Inl io_error else f (mem_clk s') (mem_tab s)))"

definition mem_write :: "(instant \<Rightarrow> table \<Rightarrow> table option) \<Rightarrow> mem \<Rightarrow> mem \<times> err option" where
  "mem_write f s =
     (let s' = mem_next s in
      if mem_fault s then (s', Some io_error)
      else case f (mem_clk s') (mem_tab s) of
             None \<Rightarrow> (s', Some ''WRONGTYPE'')
           | Some t \<Rightarrow> (s'\<lparr>mem_tab := t\<rparr>, None))"

definition typed :: "'a option \<Rightarrow> 'a res" where
  "typed r = (case r of None \<Rightarrow> Inl ''WRONGTYPE'' | Some x \<Rightarrow> Inr x)"

definition mem_client :: "mem redis_client" where
  "mem_client =
     \<lparr>rc_Get = (\<lambda>s k. let s' = mem_next s in (s', if mem_fault s then RErr io_error else
         case live (mem_clk s') (mem_tab s) k of None \<Rightarrow> RNil | Some d \<Rightarrow> RVal d)),
      rc_Set = (\<lambda>s k d ttl. mem_write (\<lambda>now t. Some (t(k \<mapsto> (d, Some (now + ttl))))) s),
      rc_SetNX = (\<lambda>s k d ttl. let s' = mem_next s in
         if mem_fault s then (s', Inl io_error)
         else case live (mem_clk s') (mem_tab s) k of
                None \<Rightarrow> (s'\<lparr>mem_tab := (mem_tab s)(k \<mapsto> (d, Some (mem_clk s' + ttl)))\<rparr>, Inr True)
              | Some _ \<Rightarrow> (s', Inr False)),
      rc_Del = (\<lambda>s k. mem_write (\<lambda>now t. Some (t(k := None))) s),
      rc_Exists = (\<lambda>s k. mem_read (\<lambda>now t. Inr (if live now t k = None then 0 else 1)) s),
      rc_Eval = (\<lambda>s f. mem_write (\<lambda>now t. Some (t |` (- set (fst (f (live now t)))))) s),
      rc_KeysPrefix = (\<lambda>s p. mem_read (\<lambda>now t.
         if finite (dom t) then Inr (sorted_list_of_set {k \<in> dom t. prefix p k \<and> live now t k \<noteq> None})
         else Inl io_error) s),
      rc_SIsMember = (\<lambda>s k m. mem_read (\<lambda>now t. typed (map_option (\<lambda>xs. m \<in> set xs) (set_of (live now t k)))) s),
      rc_PipeSIsMember = (\<lambda>s kms. mem_read (\<lambda>now t.
         if \<exists>km \<in> set kms. set_of (live now t (fst km)) = None then Inl ''WRONGTYPE''
         else Inr (map (\<lambda>km. snd km \<in> set (the (set_of (live now t (fst km))))) kms)) s),
      rc_SAdd = (\<lambda>s k ms. mem_write (\<lambda>now t. Some (sadd now k ms t)) s),
      rc_Expire = (\<lambda>s k ttl. mem_write (\<lambda>now t. Some (expire now k ttl t)) s),
      rc_TxExec = (\<lambda>s cs. mem_write (\<lambda>now t. if tx_ok now cs t then Some (run_tx now cs t) else None) s),
      rc_ZRevRange = (\<lambda>s k lo hi. mem_read (\<lambda>now t. typed (map_option (zslice lo hi) (zset_of (live now t k)))) s),
      rc_HGetAll = (\<lambda>s k. mem_read (\<lambda>now t. typed (hash_of (live now t k))) s),
      rc_Publish = (\<lambda>s ch msg. mem_write (\<lambda>now t. Some t) s)\<rparr>"

lemma mem_next_sel [simp]:
  "mem_tab (mem_next s) = mem_tab s" "mem_clk (mem_next s) = mem_clk s + int (mem_lat s)"
  by (simp_all add: mem_next_def)

lemma mem_read_data: "mem_read f s = (s', r) \<Longrightarrow> same_data mem_tab mem_clk s s'"
  by (auto simp: mem_read_def Let_def same_data_def)

lemma mem_read_ok: "mem_read f s = (s', Inr x) \<Longrightarrow> f (mem_clk s') (mem_tab s) = Inr x"
  by (auto simp: mem_read_def Let_def split: if_splits)

lemma mem_write_ok:
  "mem_write f s = (s', None) \<Longrightarrow> \<exists>t. f (mem_clk s') (mem_tab s) = Some t \<and> becomes mem_tab mem_clk s s' t"
  by (auto simp: mem_write_def Let_def becomes_def split: if_splits option.splits)

lemma mem_write_err: "mem_write f s = (s', Some e) \<Longrightarrow> same_data mem_tab mem_clk s s'"
  by (auto simp: mem_write_def Let_def same_data_def split: if_splits option.splits)

lemma live_dom: "live now t k = Some d \<Longrightarrow> \<exists>e dl. t k = Some (e, dl)"
  by (auto simp: live_def split: option.splits)

lemma typed_Inr: "typed r = Inr x \<longleftrightarrow> r = Some x"
  by (auto simp: typed_def split: option.splits)

interpretation mem: redis_server mem_client mem_tab mem_clk
proof
  fix s s' k r1 d ttl e f p r2 ks m r3 b kms r4 bs ms cs r5 lo hi zs r6 h ch msg r7
  show "rc_Get mem_client s k = (s', r0) \<Longrightarrow> same_data mem_tab mem_clk s s'" for r0
    by (auto simp: mem_client_def Let_def same_data_def)
  show "rc_Get mem_client s k = (s', RVal d) \<Longrightarrow> live (mem_clk s') (mem_tab s) k = Some d" 
    by (auto simp: mem_client_def Let_def split: if_splits option.splits)
  show "rc_Get mem_client s k = (s', RNil) \<Longrightarrow> live (mem_clk s') (mem_tab s) k = None"
    by (auto simp: mem_client_def Let_def split: if_splits option.splits)
  show "rc_Set mem_client s k d ttl = (s', None) \<Longrightarrow>
      becomes mem_tab mem_clk s s' ((mem_tab s)(k \<mapsto> (d, Some (mem_clk s' + ttl))))"
    by (auto simp: mem_client_def dest: mem_write_ok)
  show "rc_Set mem_client s k d ttl = (s', Some e) \<Longrightarrow> same_data mem_tab mem_clk s s' \<or>
      becomes mem_tab mem_clk s s' ((mem_tab s)(k \<mapsto> (d, Some (mem_clk s' + ttl))))"
    by (auto simp: mem_client_def dest: mem_write_err)
  show "rc_SetNX mem_client s k d ttl = (s', Inr True) \<Longrightarrow> live (mem_clk s') (mem_tab s) k = None \<and>
      becomes mem_tab mem_clk s s' ((mem_tab s)(k \<mapsto> (d, Some (mem_clk s' + ttl))))"
    by (auto simp: mem_client_def Let_def becomes_def split: if_splits option.splits)
  show "rc_SetNX mem_client s k d ttl = (s', Inr False) \<Longrightarrow>
      live (mem_clk s') (mem_tab s) k \<noteq> None \<and> same_data mem_tab mem_clk s s'"
    by (auto simp: mem_client_def Let_def same_data_def split: if_splits option.splits)
  show "rc_SetNX mem_client s k d ttl = (s', Inl e) \<Longrightarrow> same_data mem_tab mem_clk s s' \<or>
      live (mem_clk s') (mem_tab s) k = None \<and>
      becomes mem_tab mem_clk s s' ((mem_tab s)(k \<mapsto> (d, Some (mem_clk s' + ttl))))"
    by (auto simp: mem_client_def Let_def same_data_def split: if_splits option.splits)
  show "rc_Eval mem_client s f = (s', None) \<Longrightarrow>
      becomes mem_tab mem_clk s s' ((mem_tab s) |` (- set (fst (f (live (mem_clk s') (mem_tab s))))))"
    by (auto simp: mem_client_def dest: mem_write_ok)
  show "rc_Eval mem_client s f = (s', Some e) \<Longrightarrow> same_data mem_tab mem_clk s s' \<or>
      becomes mem_tab mem_clk s s' ((mem_tab s) |` (- set (fst (f (live (mem_clk s') (mem_tab s))))))"
    by (auto simp: mem_client_def dest: mem_write_err)
  show "rc_KeysPrefix mem_client s p = (s', r1) \<Longrightarrow> same_data mem_tab mem_clk s s'" for r1
    by (auto simp: mem_client_def dest: mem_read_data)
  show "rc_KeysPrefix mem_client s p = (s', Inr ks) \<Longrightarrow>
      distinct ks \<and> set ks = {k. prefix p k \<and> live (mem_clk s') (mem_tab s) k \<noteq> None}"
    by (auto simp: mem_client_def dest!: mem_read_ok split: if_splits) (erule live_dom)
  show "rc_SIsMember mem_client s k m = (s', r2) \<Longrightarrow> same_data mem_tab mem_clk s s'" for r2
    by (auto simp: mem_client_def dest: mem_read_data)
  show "rc_SIsMember mem_client s k m = (s', Inr b) \<Longrightarrow>
      \<exists>xs. set_of (live (mem_clk s') (mem_tab s) k) = Some xs \<and> (b \<longleftrightarrow> m \<in> set xs)" for b
    by (auto simp: mem_client_def typed_Inr dest!: mem_read_ok)
  show "rc_PipeSIsMember mem_client s kms = (s', r3) \<Longrightarrow> same_data mem_tab mem_clk s s'" for r3
    by (auto simp: mem_client_def dest: mem_read_data)
  show "rc_PipeSIsMember mem_client s kms = (s', Inr bs) \<Longrightarrow> length bs = length kms \<and>
      (\<forall>i < length kms. \<exists>xs. set_of (live (mem_clk s') (mem_tab s) (fst (kms ! i))) = Some xs \<and>
         (bs ! i \<longleftrightarrow> snd (kms ! i) \<in> set xs))" for kms bs
    by (auto simp: mem_client_def dest!: mem_read_ok split: if_splits)
      (drule nth_mem, drule (1) bspec, erule exE, simp)
  show "rc_SAdd mem_client s k ms = (s', None) \<Longrightarrow> becomes mem_tab mem_clk s s' (sadd (mem_clk s') k ms (mem_tab s))" for ms
    by (auto simp: mem_client_def dest: mem_write_ok)
  show "rc_SAdd mem_client s k ms = (s', Some e) \<Longrightarrow>
      same_data mem_tab mem_clk s s' \<or> becomes mem_tab mem_clk s s' (sadd (mem_clk s') k ms (mem_tab s))" for ms
    by (auto simp: mem_client_def dest: mem_write_err)
  show "rc_Expire mem_client s k ttl = (s', None) \<Longrightarrow> becomes mem_tab mem_clk s s' (expire (mem_clk s') k ttl (mem_tab s))"
    by (auto simp: mem_client_def dest: mem_write_ok)
  show "rc_Expire mem_client s k ttl = (s', Some e) \<Longrightarrow>
      same_data mem_tab mem_clk s s' \<or> becomes mem_tab mem_clk s s' (expire (mem_clk s') k ttl (mem_tab s))"
    by (auto simp: mem_client_def dest: mem_write_err)
  show "rc_TxExec mem_client s cs = (s', None) \<Longrightarrow>
      tx_ok (mem_clk s') cs (mem_tab s) \<and> becomes mem_tab mem_clk s s' (run_tx (mem_clk s') cs (mem_tab s))" for cs
    by (auto simp: mem_client_def dest!: mem_write_ok split: if_splits)
  show "rc_TxExec mem_client s cs = (s', Some e) \<Longrightarrow>
      same_data mem_tab mem_clk s s' \<or> becomes mem_tab mem_clk s s' (run_tx (mem_clk s') cs (mem_tab s))" for cs
    by (auto simp: mem_client_def dest: mem_write_err)
  show "rc_ZRevRange mem_client s k lo hi = (s', r4) \<Longrightarrow> same_data mem_tab mem_clk s s'" for lo hi r4
    by (auto simp: mem_client_def dest: mem_read_data)
  show "rc_ZRevRange mem_client s k lo hi = (s', Inr zs) \<Longrightarrow> 0 \<le> lo \<Longrightarrow> 0 \<le> hi \<Longrightarrow>
      \<exists>z. zset_of (live (mem_clk s') (mem_tab s) k) = Some z \<and> zs = zslice lo hi z" for lo hi zs
    by (auto simp: mem_client_def typed_Inr dest!: mem_read_ok)
  show "rc_HGetAll mem_client s k = (s', r5) \<Longrightarrow> same_data mem_tab mem_clk s s'" for r5
    by (auto simp: mem_client_def dest: mem_read_data)
  show "rc_HGetAll mem_client s k = (s', Inr h) \<Longrightarrow> hash_of (live (mem_clk s') (mem_tab s) k) = Some h" for h
    by (auto simp: mem_client_def typed_Inr dest!: mem_read_ok)
  show "rc_Publish mem_client s ch msg = (s', r6) \<Longrightarrow> same_data mem_tab mem_clk s s'" for ch msg r6
    by (cases r6) (auto simp: mem_client_def same_data_def becomes_def dest!: mem_write_ok dest: mem_write_err)
  show "rc_Del mem_client s k = (s', None) \<Longrightarrow> becomes mem_tab mem_clk s s' ((mem_tab s)(k := None))"
    by (auto simp: mem_client_def dest: mem_write_ok)
  show "rc_Del mem_client s k = (s', Some e) \<Longrightarrow> same_data mem_tab mem_clk s s' \<or>
      becomes mem_tab mem_clk s s' ((mem_tab s)(k := None))"
    by (auto simp: mem_client_def dest: mem_write_err)
  show "rc_Exists mem_client s k = (s', r8) \<Longrightarrow> same_data mem_tab mem_clk s s'" for r8
    by (auto simp: mem_client_def dest: mem_read_data)
  show "rc_Exists mem_client s k = (s', Inr n) \<Longrightarrow> n = (if live (mem_clk s') (mem_tab s) k = None then 0 else 1)" for n
    by (auto simp: mem_client_def dest: mem_read_ok)
qed

end
