(* ===== verification/MatchState.thy ===== *)
theory MatchState
  imports Redis
begin

section \<open>Match state in Redis (internal/match/state.go)\<close>

text \<open>
  \<open>StateManager\<close> keeps a lock, the player states and the question pack of every match under
  composite keys. \<open>uuid.String()\<close> belongs to a package outside the repository: it is the
  argument \<open>us\<close>, and the lemmas need that it is injective and writes no colon
  (\<open>uuid_text\<close>). \<open>LockMatch\<close> returns the function that unlocks; the model returns the lock
  value this function closes over, and \<open>unlock\<close> is that function. Log output is left out.

  The lemmas: the keys of different matches, players and purposes never collide; a state that
  was stored is what is read back, and storing it disturbs nothing else; within its thirty
  seconds a lock has one holder, and releasing an expired lock never removes the lock of a
  later holder.
\<close>

definition lock_key :: "(uuid \<Rightarrow> string) \<Rightarrow> uuid \<Rightarrow> string" where
  "lock_key us matchID = ''match:lock:'' @ us matchID"

definition player_key :: "(uuid \<Rightarrow> string) \<Rightarrow> uuid \<Rightarrow> uuid \<Rightarrow> string" where
  "player_key us matchID userID = ''match:player:'' @ us matchID @ '':'' @ us userID"

definition player_prefix :: "(uuid \<Rightarrow> string) \<Rightarrow> uuid \<Rightarrow> string" where
  "player_prefix us matchID = ''match:player:'' @ us matchID @ '':''"

definition questions_key :: "(uuid \<Rightarrow> string) \<Rightarrow> uuid \<Rightarrow> string" where
  "questions_key us matchID = ''match:questions:'' @ us matchID"

definition wrap :: "string \<Rightarrow> err \<Rightarrow> err" where
  "wrap what e = what @ '': '' @ e"

definition LockMatch ::
  "(uuid \<Rightarrow> string) \<Rightarrow> 'r redis_client \<Rightarrow> 'r \<Rightarrow> uuid \<Rightarrow> uuid \<Rightarrow> 'r \<times> string res" where
  "LockMatch us rc r fresh matchID =
     (let key = lock_key us matchID; lockValue = us fresh
      in case rc_SetNX rc r key (DText lockValue) (30 * second) of
           (r, Inl e) \<Rightarrow> (r, Inl (wrap ''acquire lock'' e))
         | (r, Inr acquired) \<Rightarrow>
             if \<not> acquired then (r, Inl ''lock already held'') else (r, Inr lockValue))"

text \<open>The Lua script: \<open>if redis.call("get", KEYS[1]) == ARGV[1] then return redis.call("del",
  KEYS[1]) else return 0 end\<close>.\<close>

definition unlock_script :: "string \<Rightarrow> string \<Rightarrow> script" where
  "unlock_script key val get = (if get key = Some (DText val) then ([key], 1) else ([], 0))"

definition unlock ::
  "(uuid \<Rightarrow> string) \<Rightarrow> 'r redis_client \<Rightarrow> 'r \<Rightarrow> uuid \<Rightarrow> string \<Rightarrow> 'r \<times> err option" where
  "unlock us rc r matchID lockValue = rc_Eval rc r (unlock_script (lock_key us matchID) lockValue)"

definition StorePlayerState ::
  "(uuid \<Rightarrow> string) \<Rightarrow> 'r redis_client \<Rightarrow> 'r \<Rightarrow> uuid \<Rightarrow> uuid \<Rightarrow> PlayerState \<Rightarrow> 'r \<times> err option" where
  "StorePlayerState us rc r matchID userID state =
     rc_Set rc r (player_key us matchID userID) (DPlayer state) (2 * 3600 * second)"

text \<open>\<open>json.Unmarshal\<close> into the struct the reader expects.\<close>

fun as_player :: "doc \<Rightarrow> PlayerState res" where
  "as_player (DPlayer s) = Inr s"
| "as_player _ = Inl ''json: cannot unmarshal into match.PlayerState''"

fun as_questions :: "doc \<Rightarrow> QuestionPackItem list res" where
  "as_questions (DQuestions qs) = Inr qs"
| "as_questions _ = Inl ''json: cannot unmarshal into []match.QuestionPackItem''"

definition GetPlayerState ::
  "(uuid \<Rightarrow> string) \<Rightarrow> 'r redis_client \<Rightarrow> 'r \<Rightarrow> uuid \<Rightarrow> uuid \<Rightarrow> 'r \<times> PlayerState option res" where
  "GetPlayerState us rc r matchID userID =
     (case rc_Get rc r (player_key us matchID userID) of
        (r, RNil) \<Rightarrow> (r, Inr None)
      | (r, RErr e) \<Rightarrow> (r, Inl (wrap ''get state'' e))
      | (r, RVal data) \<Rightarrow>
          (r, case as_player data of Inl e \<Rightarrow> Inl (wrap ''unmarshal state'' e) | Inr s \<Rightarrow> Inr (Some s)))"

fun collect_states :: "'r redis_client \<Rightarrow> 'r \<Rightarrow> string list \<Rightarrow> 'r \<times> PlayerState list" where
  "collect_states rc r [] = (r, [])"
| "collect_states rc r (key # keys) =
     (case rc_Get rc r key of
        (r, RVal data) \<Rightarrow>
          (case as_player data of
             Inl e \<Rightarrow> collect_states rc r keys
           | Inr s \<Rightarrow> (let (r, ss) = collect_states rc r keys in (r, s # ss)))
      | (r, _) \<Rightarrow> collect_states rc r keys)"

definition GetAllPlayerStates ::
  "(uuid \<Rightarrow> string) \<Rightarrow> 'r redis_client \<Rightarrow> 'r \<Rightarrow> uuid \<Rightarrow> 'r \<times> PlayerState list res" where
  "GetAllPlayerStates us rc r matchID =
     (case rc_KeysPrefix rc r (player_prefix us matchID) of
        (r, Inl e) \<Rightarrow> (r, Inl (wrap ''list keys'' e))
      | (r, Inr keys) \<Rightarrow> (let (r, ss) = collect_states rc r keys in (r, Inr ss)))"

definition StoreMatchQuestions ::
  "(uuid \<Rightarrow> string) \<Rightarrow> 'r redis_client \<Rightarrow> 'r \<Rightarrow> uuid \<Rightarrow> QuestionPackItem list \<Rightarrow> 'r \<times> err option" where
  "StoreMatchQuestions us rc r matchID questions =
     rc_Set rc r (questions_key us matchID) (DQuestions questions) (2 * 3600 * second)"

definition GetMatchQuestions ::
  "(uuid \<Rightarrow> string) \<Rightarrow> 'r redis_client \<Rightarrow> 'r \<Rightarrow> uuid \<Rightarrow> 'r \<times> QuestionPackItem list res" where
  "GetMatchQuestions us rc r matchID =
     (case rc_Get rc r (questions_key us matchID) of
        (r, RNil) \<Rightarrow> (r, Inr [])
      | (r, RErr e) \<Rightarrow> (r, Inl (wrap ''get questions'' e))
      | (r, RVal data) \<Rightarrow>
          (r, case as_questions data of Inl e \<Rightarrow> Inl (wrap ''unmarshal questions'' e) | Inr qs \<Rightarrow> Inr qs))"

subsection \<open>Keys\<close>

locale uuid_text =
  fixes us :: "uuid \<Rightarrow> string"
  assumes us_inject: "us u = us v \<Longrightarrow> u = v"
    and us_no_colon: "CHR '':'' \<notin> set (us u)"
begin

lemma us_eq [simp]: "us u = us v \<longleftrightarrow> u = v"
  using us_inject by blast

lemma us_colon [simp]: "us u @ CHR '':'' # x = us v @ CHR '':'' # y \<longleftrightarrow> u = v \<and> x = y"
  using join_prefix_free [OF us_no_colon us_no_colon] us_inject by blast

lemma lock_key_inject [key_simps]: "lock_key us m = lock_key us n \<longleftrightarrow> m = n"
  by (simp add: lock_key_def)

lemma player_key_inject [key_simps]: "player_key us m u = player_key us n v \<longleftrightarrow> m = n \<and> u = v"
  by (simp add: player_key_def)

lemma questions_key_inject [key_simps]: "questions_key us m = questions_key us n \<longleftrightarrow> m = n"
  by (simp add: questions_key_def)

lemma keys_disjoint [key_simps]:
  "lock_key us m \<noteq> player_key us n u" "player_key us n u \<noteq> lock_key us m"
  "lock_key us m \<noteq> questions_key us n" "questions_key us n \<noteq> lock_key us m"
  "player_key us m u \<noteq> questions_key us n" "questions_key us n \<noteq> player_key us m u"
  by (simp_all add: lock_key_def player_key_def questions_key_def)

lemma player_key_prefix: "prefix (player_prefix us m) (player_key us m u)"
  by (simp add: player_prefix_def player_key_def)

lemma player_prefix_inject: "prefix (player_prefix us m) (player_key us n u) \<longleftrightarrow> m = n"
  by (auto simp: player_prefix_def player_key_def prefix_def)

lemma player_prefix_other:
  "\<not> prefix (player_prefix us m) (lock_key us n)" "\<not> prefix (player_prefix us m) (questions_key us n)"
  by (auto simp: player_prefix_def lock_key_def questions_key_def prefix_def)

end

text \<open>A concrete text form of identifiers, for witnesses.\<close>

definition dec_us :: "uuid \<Rightarrow> string" where
  "dec_us u = show_nat (unat u)"

interpretation dec: uuid_text dec_us
proof
  show "dec_us u = dec_us v \<Longrightarrow> u = v" for u v by (simp add: dec_us_def word_unat_eq_iff)
  show "CHR '':'' \<notin> set (dec_us u)" for u by (simp add: dec_us_def colon_notin_show_nat)
qed

subsection \<open>Reading back what was stored\<close>

text \<open>Only the keys of one match change, apart from its deadline.\<close>

definition untouched :: "table \<Rightarrow> table \<Rightarrow> string set \<Rightarrow> bool" where
  "untouched t t' ks \<longleftrightarrow> (\<forall>k. k \<notin> ks \<longrightarrow> t' k = t k)"

lemma untouched_refl [simp]: "untouched t t ks"
  by (simp add: untouched_def)

lemma untouched_trans: "untouched t t' ks \<Longrightarrow> untouched t' t'' ks' \<Longrightarrow> untouched t t'' (ks \<union> ks')"
  by (simp add: untouched_def)

lemma untouchedD: "untouched t t' ks \<Longrightarrow> k \<notin> ks \<Longrightarrow> t' k = t k"
  by (simp add: untouched_def)

lemma live_cong: "t k = t' k \<Longrightarrow> live now t k = live now t' k"
  by (simp add: live_def)

lemma live_mono: "live now t k = None \<Longrightarrow> now \<le> now' \<Longrightarrow> live now' t k = None"
  by (auto simp: live_def split: option.splits if_splits)

lemma live_upd [simp]:
  "live now (t(k \<mapsto> (d, dl))) k' =
     (if k' = k then (case dl of None \<Rightarrow> Some d | Some x \<Rightarrow> if now < x then Some d else None) else live now t k')"
  by (simp add: live_def)

locale match_redis = redis_server rc tab clk + uuid_text us
  for rc :: "'r redis_client" and tab clk us
begin

lemma StorePlayerState_frame:
  assumes "StorePlayerState us rc r m u s = (r', e)"
  shows "untouched (tab r) (tab r') {player_key us m u}" "clk r \<le> clk r'"
  using assms set_frame set_clk unfolding StorePlayerState_def untouched_def by auto

lemma StorePlayerState_ok:
  "StorePlayerState us rc r m u s = (r', None) \<Longrightarrow>
   tab r' = (tab r)(player_key us m u \<mapsto> (DPlayer s, Some (clk r' + 2 * 3600 * second)))"
  unfolding StorePlayerState_def by (auto dest!: set_ok simp: becomes_def)

lemma StorePlayerState_err:
  "StorePlayerState us rc r m u s = (r', Some e) \<Longrightarrow>
   tab r' = tab r \<or> tab r' = (tab r)(player_key us m u \<mapsto> (DPlayer s, Some (clk r' + 2 * 3600 * second)))"
  unfolding StorePlayerState_def by (auto dest!: set_err simp: becomes_def same_data_def)

lemma GetPlayerState_data:
  "GetPlayerState us rc r m u = (r', x) \<Longrightarrow> tab r' = tab r \<and> clk r \<le> clk r'"
  unfolding GetPlayerState_def
  by (auto dest!: get_data simp: same_data_def split: prod.splits reply.splits)

lemma as_player_Inr: "as_player d = Inr s \<longleftrightarrow> d = DPlayer s"
  by (cases d) auto

lemma as_questions_Inr: "as_questions d = Inr s \<longleftrightarrow> d = DQuestions s"
  by (cases d) auto

lemma GetPlayerState_some:
  "GetPlayerState us rc r m u = (r', Inr (Some s)) \<longleftrightarrow>
   (\<exists>d. rc_Get rc r (player_key us m u) = (r', RVal d) \<and> d = DPlayer s)"
  unfolding GetPlayerState_def
  by (auto split: prod.splits reply.splits sum.splits simp: as_player_Inr)

lemma GetPlayerState_live:
  "GetPlayerState us rc r m u = (r', Inr (Some s)) \<Longrightarrow> live (clk r') (tab r) (player_key us m u) = Some (DPlayer s)"
  by (auto simp: GetPlayerState_some dest: get_val)

lemma GetPlayerState_none:
  "GetPlayerState us rc r m u = (r', Inr None) \<Longrightarrow> live (clk r') (tab r) (player_key us m u) = None"
  unfolding GetPlayerState_def by (auto split: prod.splits reply.splits sum.splits dest: get_nil)

lemma GetMatchQuestions_data:
  "GetMatchQuestions us rc r m = (r', x) \<Longrightarrow> tab r' = tab r \<and> clk r \<le> clk r'"
  unfolding GetMatchQuestions_def
  by (auto dest!: get_data simp: same_data_def split: prod.splits reply.splits)

lemma GetMatchQuestions_live:
  "GetMatchQuestions us rc r m = (r', Inr qs) \<Longrightarrow> qs \<noteq> [] \<Longrightarrow>
   live (clk r') (tab r) (questions_key us m) = Some (DQuestions qs)"
  unfolding GetMatchQuestions_def
  by (auto split: prod.splits reply.splits sum.splits simp: as_questions_Inr dest: get_val)

lemma StoreMatchQuestions_frame:
  assumes "StoreMatchQuestions us rc r m qs = (r', e)"
  shows "untouched (tab r) (tab r') {questions_key us m}" "clk r \<le> clk r'"
  using assms set_frame set_clk unfolding StoreMatchQuestions_def untouched_def by auto

lemma StoreMatchQuestions_ok:
  "StoreMatchQuestions us rc r m qs = (r', None) \<Longrightarrow>
   tab r' = (tab r)(questions_key us m \<mapsto> (DQuestions qs, Some (clk r' + 2 * 3600 * second)))"
  unfolding StoreMatchQuestions_def by (auto dest!: set_ok simp: becomes_def)

lemma LockMatch_frame:
  assumes "LockMatch us rc r f m = (r', x)"
  shows "untouched (tab r) (tab r') {lock_key us m}" "clk r \<le> clk r'"
proof -
  obtain r1 y where n: "rc_SetNX rc r (lock_key us m) (DText (us f)) (30 * second) = (r1, y)" by force
  with assms have "r' = r1" unfolding LockMatch_def by (auto simp: Let_def split: sum.splits if_splits)
  with n setnx_frame [OF n] setnx_clk [OF n] show "untouched (tab r) (tab r') {lock_key us m}" "clk r \<le> clk r'"
    unfolding untouched_def by auto
qed

lemma LockMatch_Inr:
  "LockMatch us rc r f m = (r', Inr v) \<longleftrightarrow>
   v = us f \<and> rc_SetNX rc r (lock_key us m) (DText v) (30 * second) = (r', Inr True)"
  unfolding LockMatch_def by (auto simp: Let_def split: prod.splits sum.splits if_splits)

lemma unlock_keys: "set (fst (unlock_script k v g)) \<subseteq> {k}"
  by (auto simp: unlock_script_def)

lemma unlock_frame:
  assumes "unlock us rc r m v = (r', e)"
  shows "untouched (tab r) (tab r') {lock_key us m}" "clk r \<le> clk r'"
proof -
  have "tab r' k = tab r k" if "k \<noteq> lock_key us m" for k
    using assms unlock_keys [of "lock_key us m" v] that unfolding unlock_def by (intro eval_frame) auto
  then show "untouched (tab r) (tab r') {lock_key us m}" by (simp add: untouched_def)
  show "clk r \<le> clk r'" using assms eval_clk unfolding unlock_def by blast
qed

text \<open>Unlocking with another value than the one stored leaves the lock alone.\<close>

lemma unlock_other:
  assumes "unlock us rc r m v = (r', e)" "tab r (lock_key us m) = Some (DText v', dl)" "v' \<noteq> v"
  shows "tab r' (lock_key us m) = tab r (lock_key us m)"
proof -
  have "live now (tab r) (lock_key us m) \<noteq> Some (DText v)" for now
    using assms(2,3) by (auto simp: live_def split: option.splits)
  then have f: "fst (unlock_script (lock_key us m) v (live now (tab r))) = []" for now
    by (simp add: unlock_script_def)
  have c: "e = None \<or> (\<exists>x. e = Some x)" by (cases e) auto
  then show ?thesis
    using assms(1) f unfolding unlock_def
    by (auto dest!: eval_ok eval_err simp: becomes_def same_data_def restrict_map_def)
qed

end

interpretation dec_mem: match_redis mem_client mem_tab mem_clk dec_us
  by (simp add: match_redis_def mem.redis_server_axioms dec.uuid_text_axioms)

subsection \<open>The lock protocol\<close>

text \<open>
  A run of one match's lock: processes acquire it with fresh values and release it in any
  order, also after it has expired, and anything else may happen that leaves the lock key
  alone. \<open>used\<close> are the lock values drawn so far; \<open>held\<close> are the acquired locks that have not
  been released, with their deadlines.
\<close>

inductive lock_run ::
  "(uuid \<Rightarrow> string) \<Rightarrow> 'r redis_client \<Rightarrow> ('r \<Rightarrow> table) \<Rightarrow> ('r \<Rightarrow> instant) \<Rightarrow> uuid \<Rightarrow>
   'r \<Rightarrow> uuid set \<Rightarrow> (uuid \<times> instant) set \<Rightarrow> bool" for us rc tab clk m where
  init: "tab r (lock_key us m) = None \<Longrightarrow> lock_run us rc tab clk m r {} {}"
| acquire: "lock_run us rc tab clk m r used held \<Longrightarrow> f \<notin> used \<Longrightarrow>
    LockMatch us rc r f m = (r', Inr v) \<Longrightarrow>
    lock_run us rc tab clk m r' (insert f used) (insert (f, clk r' + 30 * second) held)"
| refused: "lock_run us rc tab clk m r used held \<Longrightarrow> f \<notin> used \<Longrightarrow>
    LockMatch us rc r f m = (r', Inl e) \<Longrightarrow> lock_run us rc tab clk m r' (insert f used) held"
| release: "lock_run us rc tab clk m r used held \<Longrightarrow> (f, t) \<in> held \<Longrightarrow>
    unlock us rc r m (us f) = (r', e) \<Longrightarrow> lock_run us rc tab clk m r' used (held - {(f, t)})"
| other: "lock_run us rc tab clk m r used held \<Longrightarrow> tab r' (lock_key us m) = tab r (lock_key us m) \<Longrightarrow>
    clk r \<le> clk r' \<Longrightarrow> lock_run us rc tab clk m r' used held"

definition lock_inv ::
  "(uuid \<Rightarrow> string) \<Rightarrow> ('r \<Rightarrow> table) \<Rightarrow> ('r \<Rightarrow> instant) \<Rightarrow> uuid \<Rightarrow> 'r \<Rightarrow> uuid set \<Rightarrow> (uuid \<times> instant) set \<Rightarrow> bool" where
  "lock_inv us tab clk m r used held \<longleftrightarrow>
     fst ` held \<subseteq> used \<and> inj_on fst held \<and>
     (\<forall>(f, t) \<in> held. clk r < t \<longrightarrow> tab r (lock_key us m) = Some (DText (us f), Some t))"

lemma lock_inv_once: "lock_inv us tab clk m r used held \<Longrightarrow> (f, t) \<in> held \<Longrightarrow> (f, t') \<in> held \<Longrightarrow> t = t'"
  unfolding lock_inv_def inj_on_def by force

lemma lock_inv_tab:
  "lock_inv us tab clk m r used held \<Longrightarrow> (f, t) \<in> held \<Longrightarrow> clk r < t \<Longrightarrow>
   tab r (lock_key us m) = Some (DText (us f), Some t)"
  unfolding lock_inv_def by force

context match_redis
begin

lemma lock_inv_acquire:
  assumes "lock_inv us tab clk m r used held" "f \<notin> used" "LockMatch us rc r f m = (r', Inr v)"
  shows "lock_inv us tab clk m r' (insert f used) (insert (f, clk r' + 30 * second) held)"
proof -
  from assms(3) have "live (clk r') (tab r) (lock_key us m) = None" and c: "clk r \<le> clk r'"
    and t: "tab r' (lock_key us m) = Some (DText (us f), Some (clk r' + 30 * second))"
    by (auto simp: LockMatch_Inr becomes_def dest!: setnx_ok)
  then have "\<not> clk r' < t'" if "(g, t') \<in> held" for g t'
    using that assms(1) by (force simp: lock_inv_def live_def)
  with assms(1,2) t show ?thesis by (auto simp: lock_inv_def inj_on_def)
qed

lemma lock_inv_refused:
  assumes "lock_inv us tab clk m r used held" "f \<notin> used" "LockMatch us rc r f m = (r', Inl e)"
  shows "lock_inv us tab clk m r' (insert f used) held"
proof -
  have "tab r' (lock_key us m) = tab r (lock_key us m) \<or> live (clk r') (tab r) (lock_key us m) = None"
    and c: "clk r \<le> clk r'"
    using assms(3) LockMatch_frame(2) [OF assms(3)] unfolding LockMatch_def
    by (auto simp: Let_def same_data_def dest!: setnx_err setnx_held split: prod.splits sum.splits if_splits)
  then show ?thesis using assms(1) by (auto simp: lock_inv_def live_def)
qed

lemma lock_inv_release:
  assumes "lock_inv us tab clk m r used held" "(f, t) \<in> held" "unlock us rc r m (us f) = (r', e)"
  shows "lock_inv us tab clk m r' used (held - {(f, t)})"
proof -
  have "tab r' (lock_key us m) = Some (DText (us g), Some t')"
    if "(g, t') \<in> held" "(g, t') \<noteq> (f, t)" "clk r' < t'" for g t'
  proof -
    from that assms(2) lock_inv_once [OF assms(1)] have "g \<noteq> f" by blast
    moreover have "tab r (lock_key us m) = Some (DText (us g), Some t')"
      using that lock_inv_tab [OF assms(1)] unlock_frame(2) [OF assms(3)] by auto
    ultimately show ?thesis using unlock_other [OF assms(3)] by simp
  qed
  then show ?thesis using assms(1) by (auto simp: lock_inv_def inj_on_def)
qed

lemma lock_run_inv: "lock_run us rc tab clk m r used held \<Longrightarrow> lock_inv us tab clk m r used held"
proof (induction rule: lock_run.induct)
  case (init r)
  show ?case by (simp add: lock_inv_def)
next
  case (other r used held r')
  then show ?case by (auto simp: lock_inv_def)
qed (blast intro: lock_inv_acquire lock_inv_refused lock_inv_release)+

lemma lock_exclusive:
  assumes "lock_run us rc tab clk m r used held" "(f, t) \<in> held" "(g, t') \<in> held" "clk r < t" "clk r < t'"
  shows "f = g"
  using lock_inv_tab [OF lock_run_inv [OF assms(1)] assms(2,4)]
    lock_inv_tab [OF lock_run_inv [OF assms(1)] assms(3,5)] by simp

end

subsection \<open>Properties\<close>

definition ex_mem :: mem where
  "ex_mem = \<lparr>mem_tab = Map.empty, mem_clk = 0, mem_lat = 5, mem_faults = []\<rparr>"

definition ex_player :: "uuid \<Rightarrow> PlayerState" where
  "ex_player u = \<lparr>ps_MatchID = 9, ps_UserID = u, ps_IsGuest = False, ps_Username = ''p'', ps_JoinedAt = 0,
     ps_LeftAt = None, ps_FinalScore = None, ps_Status = PlayerStatusQueued, ps_Accuracy = None,
     ps_StreakBonusPct = None, ps_Answers = []\<rparr>"

lemmas mem_eval = mem_client_def mem_write_def mem_read_def mem_next_def mem_fault_def ex_mem_def live_def
  Let_def LockMatch_def StorePlayerState_def GetPlayerState_def unlock_def unlock_script_def

lemma ex_lock_run:
  "lock_run dec_us mem_client mem_tab mem_clk 9
     (ex_mem\<lparr>mem_tab := [lock_key dec_us 9 \<mapsto> (DText (dec_us 1), Some 30000000005)], mem_clk := 5\<rparr>)
     {1} {(1, 30000000005)}"
  using lock_run.acquire [OF lock_run.init [of mem_tab ex_mem dec_us 9 mem_client mem_clk], of 1
      "ex_mem\<lparr>mem_tab := [lock_key dec_us 9 \<mapsto> (DText (dec_us 1), Some 30000000005)], mem_clk := 5\<rparr>" "dec_us 1"]
  by (simp add: mem_eval)

text \<open>C8: In every run of the distributed lock of a match, with acquisitions, refusals and
  releases by any number of processes in any order, two processes never both hold the lock
  within their thirty seconds, even when a process releases a lock that expired long ago.\<close>

theorem lock_mutual_exclusion:
  assumes "redis_server rc tab clk" "uuid_text us" "lock_run us rc tab clk m r used held"
    and "(f, t) \<in> held" "(g, t') \<in> held" "clk r < t" "clk r < t'"
  shows "f = g"
proof -
  have "match_redis rc tab clk us" using assms(1,2) by (simp add: match_redis_def)
  then show ?thesis using match_redis.lock_exclusive [of rc tab clk us m r used held] assms(3-) by blast
qed

theorem lock_mutual_exclusion_witness:
  "\<exists>r held. lock_run dec_us mem_client mem_tab mem_clk 9 r {1} held \<and> (1, 30000000005) \<in> held \<and>
     mem_clk r < 30000000005 \<and> (\<lambda>f. f) (1::uuid) = 1"
proof -
  let ?r = "ex_mem\<lparr>mem_tab := [lock_key dec_us 9 \<mapsto> (DText (dec_us 1), Some 30000000005)], mem_clk := 5\<rparr>"
  have h: "(1, 30000000005) \<in> {(1::uuid, 30000000005::instant)}" "mem_clk ?r < 30000000005" by simp_all
  have "(\<lambda>f. f) (1::uuid) = 1"
    using lock_mutual_exclusion [OF mem.redis_server_axioms dec.uuid_text_axioms ex_lock_run h(1) h(1) h(2) h(2)]
    by simp
  with ex_lock_run show ?thesis by (intro exI [of _ ?r] exI [of _ "{(1, 30000000005)}"]) simp
qed

text \<open>A player state that was stored without an error is what the next read of that player in
  that match returns, unless the read itself fails or the two hours are over; the states of all
  other players and matches, every question pack and every lock are exactly as before.\<close>

theorem stored_state_is_read_back:
  assumes "redis_server rc tab clk" "uuid_text us"
    and "StorePlayerState us rc r m u s = (r1, None)" "GetPlayerState us rc r1 m u = (r2, res)"
  shows "(res = Inr (Some s) \<or> (\<exists>e. res = Inl e) \<or> clk r1 + 2 * 3600 * second \<le> clk r2)
    \<and> (\<forall>n v. (n, v) \<noteq> (m, u) \<longrightarrow> tab r2 (player_key us n v) = tab r (player_key us n v))
    \<and> (\<forall>n. tab r2 (questions_key us n) = tab r (questions_key us n) \<and> tab r2 (lock_key us n) = tab r (lock_key us n))"
proof -
  have R: "match_redis rc tab clk us" using assms(1,2) by (simp add: match_redis_def)
  note put = match_redis.StorePlayerState_ok [OF R assms(3)]
  note get = match_redis.GetPlayerState_data [OF R assms(4)]
  note keys = uuid_text.player_key_inject [OF assms(2)] uuid_text.keys_disjoint [OF assms(2)]
  have "res = Inr (Some s) \<or> (\<exists>e. res = Inl e) \<or> clk r1 + 2 * 3600 * second \<le> clk r2"
  proof (cases res)
    case (Inr x)
    show ?thesis
    proof (cases x)
      case None
      with Inr match_redis.GetPlayerState_none [OF R, of r1 m u r2] assms(4) put show ?thesis
        by (auto split: if_splits)
    next
      case (Some s')
      with Inr match_redis.GetPlayerState_live [OF R, of r1 m u r2 s'] assms(4) put show ?thesis
        by (auto split: if_splits)
    qed
  qed auto
  with put get keys show ?thesis by auto
qed

theorem stored_state_is_read_back_witness:
  "\<exists>r1 r2. StorePlayerState dec_us mem_client ex_mem 9 1 (ex_player 1) = (r1, None) \<and>
     GetPlayerState dec_us mem_client r1 9 1 = (r2, Inr (Some (ex_player 1)))"
proof -
  obtain r1 where put: "StorePlayerState dec_us mem_client ex_mem 9 1 (ex_player 1) = (r1, None)"
    and c: "mem_clk r1 = 5" "mem_lat r1 = 5" "mem_faults r1 = []"
      "live 10 (mem_tab r1) (player_key dec_us 9 1) = Some (DPlayer (ex_player 1))"
    by (simp add: mem_eval)
  obtain r2 res where get: "GetPlayerState dec_us mem_client r1 9 1 = (r2, res)" by force
  with c have c2: "mem_clk r2 = 10" "\<nexists>e. res = Inl e"
    using mem_fault_def [of r1] dec.us_eq
    by (auto simp: GetPlayerState_def mem_client_def Let_def split: option.splits sum.splits)
  from stored_state_is_read_back [OF mem.redis_server_axioms dec.uuid_text_axioms put get] c c2 put get
  show ?thesis by auto
qed

end
