(* ===== verification/Database.thy ===== *)
theory Database
  imports Domain Json
begin

section \<open>PostgreSQL through the generated queries\<close>

text \<open>
  The functions of \<open>internal/db/sqlc\<close> send the SQL statements of \<open>db/sqlc/queries\<close> to a
  database with the schema of \<open>db/migrations/001_init.sql\<close>. A statement is a function on the
  tables: its defaults, checks, foreign keys and conflict clauses are those of the schema and
  of the SQL text. The server may fail any statement (\<open>db_faults\<close>); generated identifiers and
  random orders are part of the state as the values the server is going to produce. A
  \<open>pgtype.UUID\<close> is an option, \<open>None\<close> being SQL's NULL. The repositories of
  \<open>internal/db/repository\<close> only forward to these functions.
\<close>

text \<open>Conversion of a Go \<open>int\<close> to \<open>int16\<close> and \<open>int32\<close>.\<close>

definition to_int16 :: "int \<Rightarrow> int" where
  "to_int16 x = signed_take_bit 15 x"

definition to_int32 :: "int \<Rightarrow> int" where
  "to_int32 x = signed_take_bit 31 x"

lemma to_int16_id: "- 32768 \<le> x \<Longrightarrow> x < 32768 \<Longrightarrow> to_int16 x = x"
  by (simp add: to_int16_def signed_take_bit_int_eq_self)

lemma to_int32_id: "- 2147483648 \<le> x \<Longrightarrow> x < 2147483648 \<Longrightarrow> to_int32 x = x"
  by (simp add: to_int32_def signed_take_bit_int_eq_self)

lemma to_int16_bounds: "- 32768 \<le> to_int16 x" "to_int16 x < 32768"
  using signed_take_bit_int_greater_eq_minus_exp [of 15 x] signed_take_bit_int_less_exp [of 15 x]
  by (simp_all add: to_int16_def)

type_synonym pg_uuid = "uuid option"

text \<open>A row of \<open>users\<close>; the metadata is an object of strings.\<close>

record UserRow =
  du_UserID :: uuid
  du_Email :: "string option"
  du_PasswordHash :: "string option"
  du_Username :: "string option"
  du_UserType :: string
  du_Status :: string
  du_CreatedAt :: instant
  du_UpdatedAt :: instant
  du_LastLoginAt :: "instant option"
  du_Metadata :: "(string \<times> string) list"

text \<open>A row of \<open>matches\<close>. The only metadata the sources write is the object with the room code.\<close>

record MatchRow =
  db_MatchID :: uuid
  db_Mode :: string
  db_QuestionCount :: int
  db_PerQuestionSeconds :: int
  db_GlobalTimeoutSeconds :: int
  db_SeedHash :: string
  db_LeaderboardEligible :: bool
  db_StartedAt :: "instant option"
  db_CompletedAt :: "instant option"
  db_Status :: string
  db_CreatedBy :: pg_uuid
  db_CreatedAt :: instant
  db_UpdatedAt :: instant
  db_Metadata :: "string option"

record PlayerMatchStateRow =
  dp_MatchID :: uuid
  dp_UserID :: uuid
  dp_IsGuest :: bool
  dp_JoinedAt :: instant
  dp_LeftAt :: "instant option"
  dp_FinalScore :: "int option"
  dp_Status :: string
  dp_Accuracy :: "rat option"
  dp_StreakBonusPct :: "rat option"
  dp_Answers :: "AnswerRecord list"

record QuestionRow =
  dq_QuestionID :: uuid
  dq_Source :: string
  dq_Prompt :: string
  dq_Options :: "string list"
  dq_CorrectAnswer :: string
  dq_Metadata :: json
  dq_Verified :: bool
  dq_CreatedAt :: instant
  dq_UpdatedAt :: instant

record 'e SnapshotRow =
  ds_TimeWindow :: string
  ds_GeneratedAt :: instant
  ds_Entries :: "'e list"
  ds_SourceHash :: string

text \<open>The state of the database. \<open>db_uuids\<close> are the values \<open>gen_random_uuid()\<close> will return,
  \<open>db_orders\<close> the orders in which \<open>ORDER BY RANDOM()\<close> will list the questions.\<close>

record 'e DB =
  db_users :: "UserRow list"
  db_matches :: "uuid \<rightharpoonup> MatchRow"
  db_players :: "uuid \<times> uuid \<rightharpoonup> PlayerMatchStateRow"
  db_questions :: "uuid \<rightharpoonup> QuestionRow"
  db_snapshots :: "'e SnapshotRow list"
  db_now :: instant
  db_uuids :: "nat \<Rightarrow> uuid"
  db_drawn :: nat
  db_orders :: "nat \<Rightarrow> uuid list"
  db_listed :: nat
  db_faults :: "err option list"

definition user_ids :: "'e DB \<Rightarrow> uuid set" where
  "user_ids d = du_UserID ` set (db_users d)"

lemma user_ids_upd [simp]:
  "user_ids (d\<lparr>db_drawn := n\<rparr>) = user_ids d" "user_ids (d\<lparr>db_faults := fs\<rparr>) = user_ids d"
  by (simp_all add: user_ids_def)

definition db_error :: "'e DB \<Rightarrow> err option" where
  "db_error d = (case db_faults d of [] \<Rightarrow> None | f # _ \<Rightarrow> f)"

definition db_next :: "'e DB \<Rightarrow> 'e DB" where
  "db_next d = d\<lparr>db_faults := drop 1 (db_faults d)\<rparr>"

definition stmt :: "('e DB \<Rightarrow> 'e DB \<times> 'a res) \<Rightarrow> 'e DB \<Rightarrow> 'e DB \<times> 'a res" where
  "stmt f d = (case db_error d of Some e \<Rightarrow> (db_next d, Inl e) | None \<Rightarrow> f (db_next d))"

definition no_rows :: err where "no_rows = ''no rows in result set''"

subsection \<open>Matches\<close>

definition match_modes :: "string list" where
  "match_modes = [''random_1v1'', ''private_room'', ''bot_fill'']"

definition match_statuses :: "string list" where
  "match_statuses = [''pending'', ''active'', ''completed'', ''timeout'', ''cancelled'']"

definition player_statuses :: "string list" where
  "player_statuses = [''queued'', ''active'', ''completed'', ''left_early'', ''timeout'']"

record CreateMatchParams =
  cp_Mode :: string
  cp_QuestionCount :: int
  cp_PerQuestionSeconds :: int
  cp_GlobalTimeoutSeconds :: int
  cp_SeedHash :: string
  cp_LeaderboardEligible :: bool
  cp_Status :: string
  cp_CreatedBy :: pg_uuid
  cp_Metadata :: "string option"

definition fk_ok :: "'v set \<Rightarrow> 'v option \<Rightarrow> bool" where
  "fk_ok ref v = (case v of None \<Rightarrow> True | Some x \<Rightarrow> x \<in> ref)"

definition match_row :: "CreateMatchParams \<Rightarrow> uuid \<Rightarrow> instant \<Rightarrow> MatchRow" where
  "match_row arg i now =
     \<lparr>db_MatchID = i, db_Mode = cp_Mode arg, db_QuestionCount = cp_QuestionCount arg,
      db_PerQuestionSeconds = cp_PerQuestionSeconds arg,
      db_GlobalTimeoutSeconds = cp_GlobalTimeoutSeconds arg, db_SeedHash = cp_SeedHash arg,
      db_LeaderboardEligible = cp_LeaderboardEligible arg, db_StartedAt = None,
      db_CompletedAt = None, db_Status = cp_Status arg, db_CreatedBy = cp_CreatedBy arg,
      db_CreatedAt = now, db_UpdatedAt = now, db_Metadata = cp_Metadata arg\<rparr>"

definition CreateMatch :: "CreateMatchParams \<Rightarrow> 'e DB \<Rightarrow> 'e DB \<times> MatchRow res" where
  "CreateMatch arg = stmt (\<lambda>d.
     let i = db_uuids d (db_drawn d); d = d\<lparr>db_drawn := db_drawn d + 1\<rparr>; row = match_row arg i (db_now d)
     in if cp_Mode arg \<notin> set match_modes \<or> cp_Status arg \<notin> set match_statuses
          then (d, Inl ''violates check constraint'')
        else if \<not> fk_ok (user_ids d) (cp_CreatedBy arg)
          then (d, Inl ''violates foreign key constraint matches_created_by_fkey'')
        else if db_matches d i \<noteq> None then (d, Inl ''violates unique constraint matches_pkey'')
        else (d\<lparr>db_matches := (db_matches d)(i \<mapsto> row)\<rparr>, Inr row))"

record CreatePlayerMatchStateParams =
  pp_MatchID :: pg_uuid
  pp_UserID :: pg_uuid
  pp_IsGuest :: bool
  pp_Status :: string

definition CreatePlayerMatchState :: "CreatePlayerMatchStateParams \<Rightarrow> 'e DB \<Rightarrow> 'e DB \<times> unit res" where
  "CreatePlayerMatchState arg = stmt (\<lambda>d.
     case (pp_MatchID arg, pp_UserID arg) of
       (Some m, Some u) \<Rightarrow>
         if pp_Status arg \<notin> set player_statuses then (d, Inl ''violates check constraint'')
         else if db_players d (m, u) \<noteq> None then (d, Inr ())
         else if m \<notin> dom (db_matches d)
           then (d, Inl ''violates foreign key constraint player_match_state_match_id_fkey'')
         else if u \<notin> user_ids d
           then (d, Inl ''violates foreign key constraint player_match_state_user_id_fkey'')
         else (d\<lparr>db_players := (db_players d)((m, u) \<mapsto>
                  \<lparr>dp_MatchID = m, dp_UserID = u, dp_IsGuest = pp_IsGuest arg, dp_JoinedAt = db_now d,
                   dp_LeftAt = None, dp_FinalScore = None, dp_Status = pp_Status arg, dp_Accuracy = None,
                   dp_StreakBonusPct = None, dp_Answers = []\<rparr>)\<rparr>, Inr ())
     | _ \<Rightarrow> (d, Inl ''null value violates not-null constraint''))"

definition GetMatchForSummary :: "pg_uuid \<Rightarrow> 'e DB \<Rightarrow> 'e DB \<times> MatchRow res" where
  "GetMatchForSummary matchID = stmt (\<lambda>d.
     (d, case matchID of None \<Rightarrow> Inl no_rows
         | Some m \<Rightarrow> (case db_matches d m of None \<Rightarrow> Inl no_rows | Some row \<Rightarrow> Inr row)))"

record UpdateMatchStatusParams =
  up_Status :: string
  up_StartedAt :: "instant option"
  up_CompletedAt :: "instant option"
  up_MatchID :: pg_uuid

definition coalesce :: "'a option \<Rightarrow> 'a option \<Rightarrow> 'a option" where
  "coalesce x y = (case x of None \<Rightarrow> y | Some _ \<Rightarrow> x)"

text \<open>An \<open>UPDATE\<close> whose \<open>WHERE\<close> matches no row changes nothing and is no error; the check is
  evaluated on updated rows only.\<close>

definition UpdateMatchStatus :: "UpdateMatchStatusParams \<Rightarrow> 'e DB \<Rightarrow> 'e DB \<times> unit res" where
  "UpdateMatchStatus arg = stmt (\<lambda>d.
     case up_MatchID arg of
       None \<Rightarrow> (d, Inr ())
     | Some m \<Rightarrow>
         (case db_matches d m of
            None \<Rightarrow> (d, Inr ())
          | Some row \<Rightarrow>
              if up_Status arg \<notin> set match_statuses then (d, Inl ''violates check constraint'')
              else (d\<lparr>db_matches := (db_matches d)(m \<mapsto>
                       row\<lparr>db_Status := up_Status arg,
                           db_StartedAt := coalesce (up_StartedAt arg) (db_StartedAt row),
                           db_CompletedAt := coalesce (up_CompletedAt arg) (db_CompletedAt row),
                           db_UpdatedAt := db_now d\<rparr>)\<rparr>, Inr ())))"

subsection \<open>Player results\<close>

text \<open>The columns of \<open>player_match_state\<close> in the migration, and the columns that the statement
  \<open>UpdatePlayerMatchResult\<close> assigns. PostgreSQL rejects a statement that names a column the
  table does not have before it looks at any row.\<close>

definition player_match_state_columns :: "string list" where
  "player_match_state_columns = [''match_id'', ''user_id'', ''is_guest'', ''joined_at'', ''left_at'',
     ''final_score'', ''status'', ''accuracy'', ''streak_bonus_pct'', ''answers'']"

definition UpdatePlayerMatchResult_columns :: "string list" where
  "UpdatePlayerMatchResult_columns = [''final_score'', ''status'', ''accuracy'', ''streak_bonus_pct'',
     ''left_at'', ''answers'', ''updated_at'']"

record UpdatePlayerMatchResultParams =
  ur_MatchID :: pg_uuid
  ur_UserID :: pg_uuid
  ur_FinalScore :: "int option"
  ur_Status :: string
  ur_Accuracy :: "rat option"
  ur_StreakBonusPct :: "rat option"
  ur_LeftAt :: "instant option"
  ur_Answers :: "AnswerRecord list option"

definition UpdatePlayerMatchResult :: "UpdatePlayerMatchResultParams \<Rightarrow> 'e DB \<Rightarrow> 'e DB \<times> unit res" where
  "UpdatePlayerMatchResult arg = stmt (\<lambda>d.
     if \<not> set UpdatePlayerMatchResult_columns \<subseteq> set player_match_state_columns
       then (d, Inl ''column does not exist'')
     else
       case (ur_MatchID arg, ur_UserID arg) of
         (Some m, Some u) \<Rightarrow>
           (case db_players d (m, u) of
              None \<Rightarrow> (d, Inr ())
            | Some row \<Rightarrow>
                if ur_Status arg \<notin> set player_statuses then (d, Inl ''violates check constraint'')
                else (d\<lparr>db_players := (db_players d)((m, u) \<mapsto>
                         row\<lparr>dp_FinalScore := ur_FinalScore arg, dp_Status := ur_Status arg,
                             dp_Accuracy := ur_Accuracy arg, dp_StreakBonusPct := ur_StreakBonusPct arg,
                             dp_LeftAt := coalesce (ur_LeftAt arg) (dp_LeftAt row),
                             dp_Answers := the (coalesce (ur_Answers arg) (Some (dp_Answers row)))\<rparr>)\<rparr>,
                      Inr ()))
       | _ \<Rightarrow> (d, Inr ()))"

definition GetPlayerStatesByMatch :: "pg_uuid \<Rightarrow> (uuid \<times> uuid) list \<Rightarrow> 'e DB \<Rightarrow> 'e DB \<times> PlayerMatchStateRow list res" where
  "GetPlayerStatesByMatch matchID order = stmt (\<lambda>d.
     (d, Inr (case matchID of None \<Rightarrow> []
              | Some m \<Rightarrow> map (the \<circ> db_players d) (filter (\<lambda>k. fst k = m \<and> db_players d k \<noteq> None) order))))"

subsection \<open>Questions\<close>

text \<open>\<open>SELECT ... WHERE verified = true ORDER BY RANDOM() LIMIT $1\<close>: the verified rows in the
  next random order of the table, cut at the limit. A negative limit is an error.\<close>

definition GetQuestionPool :: "int \<Rightarrow> 'e DB \<Rightarrow> 'e DB \<times> QuestionRow list res" where
  "GetQuestionPool limit = stmt (\<lambda>d.
     if limit < 0 then (d, Inl ''LIMIT must not be negative'')
     else
       let order = db_orders d (db_listed d);
           rows = filter dq_Verified (List.map_filter (db_questions d) order)
       in (d\<lparr>db_listed := db_listed d + 1\<rparr>, Inr (take (nat limit) rows)))"

definition random_order :: "'e DB \<Rightarrow> bool" where
  "random_order d \<longleftrightarrow> (\<forall>n. enumerates (db_orders d n) (db_questions d))"

definition question_sources :: "string list" where
  "question_sources = [''curated'', ''quizapi'', ''kaggle'', ''ai'']"

record InsertQuestionParams =
  iq_Source :: string
  iq_Prompt :: string
  iq_Options :: "string list option"
  iq_CorrectAnswer :: string
  iq_Metadata :: "json option"
  iq_Verified :: bool

text \<open>A nil slice of options is NULL, as is nil metadata.\<close>

definition InsertQuestion :: "InsertQuestionParams \<Rightarrow> 'e DB \<Rightarrow> 'e DB \<times> QuestionRow res" where
  "InsertQuestion arg = stmt (\<lambda>d.
     let i = db_uuids d (db_drawn d); d = d\<lparr>db_drawn := db_drawn d + 1\<rparr>
     in case iq_Options arg of
          None \<Rightarrow> (d, Inl ''null value in column options violates not-null constraint'')
        | Some options \<Rightarrow>
            let row = \<lparr>dq_QuestionID = i, dq_Source = iq_Source arg, dq_Prompt = iq_Prompt arg, dq_Options = options,
                  dq_CorrectAnswer = iq_CorrectAnswer arg, dq_Metadata = (case iq_Metadata arg of None \<Rightarrow> JObject [] | Some m \<Rightarrow> m),
                  dq_Verified = iq_Verified arg, dq_CreatedAt = db_now d, dq_UpdatedAt = db_now d\<rparr>
            in if iq_Source arg \<notin> set question_sources then (d, Inl ''violates check constraint questions_source_check'')
               else if db_questions d i \<noteq> None then (d, Inl ''violates unique constraint questions_pkey'')
               else (d\<lparr>db_questions := (db_questions d)(i \<mapsto> row)\<rparr>, Inr row))"

record UpsertQuestionVerificationParams =
  uq_Verified :: bool
  uq_Metadata :: "json option option"
  uq_QuestionID :: pg_uuid

text \<open>\<open>uq_Metadata\<close>: no bytes are NULL and keep the column; bytes that are no JSON fail.\<close>

definition UpsertQuestionVerification :: "UpsertQuestionVerificationParams \<Rightarrow> 'e DB \<Rightarrow> 'e DB \<times> QuestionRow res" where
  "UpsertQuestionVerification arg = stmt (\<lambda>d.
     if uq_Metadata arg = Some None then (d, Inl ''invalid input syntax for type json'')
     else case Option.bind (uq_QuestionID arg) (db_questions d) of
       None \<Rightarrow> (d, Inl no_rows)
     | Some row \<Rightarrow>
         let row = row\<lparr>dq_Verified := uq_Verified arg,
                dq_Metadata := (case uq_Metadata arg of Some (Some m) \<Rightarrow> m | _ \<Rightarrow> dq_Metadata row), dq_UpdatedAt := db_now d\<rparr>
         in (d\<lparr>db_questions := (db_questions d)(dq_QuestionID row \<mapsto> row)\<rparr>, Inr row))"

subsection \<open>Leaderboard snapshots\<close>

definition snapshot_windows :: "string list" where
  "snapshot_windows = [''daily'', ''weekly'', ''monthly'', ''all_time'']"

definition InsertLeaderboardSnapshot :: "'e SnapshotRow \<Rightarrow> 'e DB \<Rightarrow> 'e DB \<times> unit res" where
  "InsertLeaderboardSnapshot arg = stmt (\<lambda>d.
     if ds_TimeWindow arg \<notin> set snapshot_windows then (d, Inl ''violates check constraint'')
     else (d\<lparr>db_snapshots := db_snapshots d @ [arg]\<rparr>, Inr ()))"

text \<open>\<open>ORDER BY generated_at DESC LIMIT $2\<close>. Rows with the same instant come in no defined order;
  the model takes them last stored first.\<close>

definition ListRecentSnapshots :: "string \<Rightarrow> int \<Rightarrow> 'e DB \<Rightarrow> 'e DB \<times> 'e SnapshotRow list res" where
  "ListRecentSnapshots window limit = stmt (\<lambda>d.
     if limit < 0 then (d, Inl ''LIMIT must not be negative'')
     else (d, Inr (take (nat limit) (rev (sort_key ds_GeneratedAt
            (filter (\<lambda>s. ds_TimeWindow s = window) (db_snapshots d)))))))"

subsection \<open>What the statements do\<close>

lemma stmt_Inr:
  "stmt f d = (d', Inr x) \<longleftrightarrow> db_error d = None \<and> f (db_next d) = (d', Inr x)"
  by (auto simp: stmt_def split: option.splits)

lemma db_next_sel [simp]:
  "db_users (db_next d) = db_users d" "db_matches (db_next d) = db_matches d"
  "db_players (db_next d) = db_players d" "db_questions (db_next d) = db_questions d"
  "db_snapshots (db_next d) = db_snapshots d" "db_now (db_next d) = db_now d"
  "db_uuids (db_next d) = db_uuids d" "db_drawn (db_next d) = db_drawn d"
  "db_orders (db_next d) = db_orders d" "db_listed (db_next d) = db_listed d"
  by (simp_all add: db_next_def)

lemma user_ids_next [simp]: "user_ids (db_next d) = user_ids d"
  by (simp add: user_ids_def)

lemma CreateMatch_Inr:
  "CreateMatch arg d = (d', Inr row) \<Longrightarrow>
   row = match_row arg (db_uuids d (db_drawn d)) (db_now d) \<and> fk_ok (user_ids d) (cp_CreatedBy arg) \<and>
   db_matches d (db_uuids d (db_drawn d)) = None \<and>
   db_matches d' = (db_matches d)(db_uuids d (db_drawn d) \<mapsto> row) \<and> db_players d' = db_players d \<and>
   db_users d' = db_users d"
  by (auto simp: CreateMatch_def stmt_Inr Let_def split: if_splits)

lemma CreateMatch_tables:
  "CreateMatch arg d = (d', r) \<Longrightarrow> db_players d' = db_players d \<and> db_users d' = db_users d \<and>
     db_questions d' = db_questions d \<and>
     (\<forall>m. m \<noteq> db_uuids d (db_drawn d) \<longrightarrow> db_matches d' m = db_matches d m)"
  by (auto simp: CreateMatch_def stmt_def Let_def split: if_splits option.splits)

lemma GetMatchForSummary_tables:
  "GetMatchForSummary m d = (d', r) \<Longrightarrow> d' = db_next d"
  by (auto simp: GetMatchForSummary_def stmt_def split: option.splits)

lemma GetMatchForSummary_Inr:
  "GetMatchForSummary m d = (d', Inr row) \<Longrightarrow> \<exists>i. m = Some i \<and> db_matches d i = Some row"
  by (auto simp: GetMatchForSummary_def stmt_Inr split: option.splits)

lemma CreatePlayerMatchState_tables:
  "CreatePlayerMatchState arg d = (d', r) \<Longrightarrow> db_matches d' = db_matches d \<and> db_users d' = db_users d"
  by (auto simp: CreatePlayerMatchState_def stmt_def split: if_splits option.splits)

lemma UpdatePlayerMatchResult_fails:
  "\<exists>e. UpdatePlayerMatchResult arg d = (db_next d, Inl e)"
  by (auto simp: UpdatePlayerMatchResult_def stmt_def UpdatePlayerMatchResult_columns_def
      player_match_state_columns_def split: option.splits)

lemma UpdateMatchStatus_tables:
  "UpdateMatchStatus arg d = (d', r) \<Longrightarrow> db_players d' = db_players d \<and> db_users d' = db_users d \<and>
     dom (db_matches d') = dom (db_matches d)"
  by (auto simp: UpdateMatchStatus_def stmt_def split: if_splits option.splits)

lemma map_filter_rows:
  assumes "enumerates order m"
  shows "length (filter P (List.map_filter m order)) = card {k. \<exists>r. m k = Some r \<and> P r}"
proof -
  have "length (filter P (List.map_filter m ks)) = card {k \<in> set ks. \<exists>r. m k = Some r \<and> P r}"
    if "distinct ks" for ks
    using that
  proof (induction ks)
    case Nil
    then show ?case by (simp add: List.map_filter_simps)
  next
    case (Cons k ks)
    have "{j \<in> set (k # ks). \<exists>r. m j = Some r \<and> P r} =
      (if \<exists>r. m k = Some r \<and> P r then insert k {j \<in> set ks. \<exists>r. m j = Some r \<and> P r}
       else {j \<in> set ks. \<exists>r. m j = Some r \<and> P r})" by auto
    with Cons show ?case by (auto simp: List.map_filter_simps split: option.splits)
  qed
  moreover have "{k \<in> set order. \<exists>r. m k = Some r \<and> P r} = {k. \<exists>r. m k = Some r \<and> P r}"
    using assms by (auto simp: enumerates_def)
  ultimately show ?thesis using assms by (simp add: enumerates_def)
qed

lemma map_filter_set: "x \<in> set (List.map_filter m ks) \<longleftrightarrow> (\<exists>k \<in> set ks. m k = Some x)"
  by (induction ks) (auto simp: List.map_filter_simps split: option.splits)

definition keyed :: "(uuid \<rightharpoonup> QuestionRow) \<Rightarrow> bool" where
  "keyed m \<longleftrightarrow> (\<forall>k r. m k = Some r \<longrightarrow> dq_QuestionID r = k)"

lemma map_filter_ids:
  "keyed m \<Longrightarrow> distinct ks \<Longrightarrow> distinct (map dq_QuestionID (List.map_filter m ks))"
proof (induction ks)
  case Nil
  then show ?case by (simp add: List.map_filter_simps)
next
  case (Cons k ks)
  then show ?case by (auto simp: List.map_filter_simps map_filter_set keyed_def split: option.splits)
qed

lemma distinct_map_take: "distinct (map f xs) \<Longrightarrow> distinct (map f (take n xs))"
  by (simp add: take_map [symmetric])

lemma GetQuestionPool_Inr:
  assumes "GetQuestionPool n d = (d', Inr rows)" "random_order d" "keyed (db_questions d)"
  shows "0 \<le> n" "distinct (map dq_QuestionID rows)"
    "length rows = min (nat n) (card {k. \<exists>r. db_questions d k = Some r \<and> dq_Verified r})"
    "\<forall>r \<in> set rows. dq_Verified r \<and> db_questions d (dq_QuestionID r) = Some r"
    "db_questions d' = db_questions d" "random_order d'"
proof -
  let ?o = "db_orders d (db_listed d)"
  from assms(1) have n: "0 \<le> n"
    and rows: "rows = take (nat n) (filter dq_Verified (List.map_filter (db_questions d) ?o))"
    and d': "db_questions d' = db_questions d" "db_orders d' = db_orders d"
    by (auto simp: GetQuestionPool_def stmt_Inr Let_def split: if_splits)
  from assms(2) have o: "enumerates ?o (db_questions d)" by (simp add: random_order_def)
  show "0 \<le> n" by (rule n)
  show "distinct (map dq_QuestionID rows)" unfolding rows
    using map_filter_ids [OF assms(3)] o by (auto intro!: distinct_map_take distinct_map_filter simp: enumerates_def)
  show "length rows = min (nat n) (card {k. \<exists>r. db_questions d k = Some r \<and> dq_Verified r})"
    unfolding rows using map_filter_rows [OF o, of dq_Verified] by simp
  show "\<forall>r \<in> set rows. dq_Verified r \<and> db_questions d (dq_QuestionID r) = Some r"
    unfolding rows using assms(3) by (auto dest!: in_set_takeD simp: map_filter_set keyed_def)
  show "db_questions d' = db_questions d" "random_order d'"
    using d' assms(2) by (simp_all add: random_order_def)
qed

lemma InsertQuestion_row:
  assumes "InsertQuestion arg d = (d', Inr row)"
  shows "db_questions d (dq_QuestionID row) = None" "db_questions d' = (db_questions d)(dq_QuestionID row \<mapsto> row)"
    "dq_Verified row = iq_Verified arg" "keyed (db_questions d) \<Longrightarrow> keyed (db_questions d')"
  using assms by (auto simp: InsertQuestion_def stmt_Inr Let_def keyed_def db_next_def split: option.splits if_splits)

lemma UpsertQuestionVerification_row:
  assumes "UpsertQuestionVerification arg d = (d', Inr row)" "keyed (db_questions d)"
  shows "uq_QuestionID arg = Some (dq_QuestionID row)" "dq_Verified row = uq_Verified arg"
    "db_questions d' = (db_questions d)(dq_QuestionID row \<mapsto> row)" "keyed (db_questions d')"
  using assms by (auto simp: UpsertQuestionVerification_def stmt_Inr Let_def keyed_def db_next_def bind_eq_Some_conv split: option.splits if_splits)

lemma pool_has_all:
  assumes g: "GetQuestionPool n d = (d', Inr rows)" "random_order d" "keyed (db_questions d)"
    and n: "card {k. \<exists>r. db_questions d k = Some r \<and> dq_Verified r} \<le> nat n" and r: "db_questions d k = Some r" "dq_Verified r"
  shows "r \<in> set rows"
proof -
  let ?V = "{k. \<exists>r. db_questions d k = Some r \<and> dq_Verified r}"
  note p = GetQuestionPool_Inr [OF g]
  have "dq_QuestionID ` set rows \<subseteq> ?V" using p(4) by auto
  moreover have "card (dq_QuestionID ` set rows) = card ?V"
    using p(3) n distinct_card [OF p(2)] by simp
  ultimately have "dq_QuestionID ` set rows = ?V" by (rule card_subset_eq [OF finite])
  then have "k \<in> dq_QuestionID ` set rows" using r by simp
  then obtain q where q: "q \<in> set rows" "dq_QuestionID q = k" by blast
  from p(4) q(1) have "db_questions d k = Some q" unfolding q(2) [symmetric] by blast
  with q(1) r(1) show ?thesis by simp
qed

text \<open>A question that is inserted as verified is in every pool that is large enough for all verified
  questions, and in none any more after its verification was taken back.\<close>

theorem verification_decides_the_pool:
  assumes "InsertQuestion arg d = (d1, Inr row)" "keyed (db_questions d)" "random_order d1"
  shows "iq_Verified arg \<Longrightarrow> GetQuestionPool n d1 = (d2, Inr rows) \<Longrightarrow> card {k. \<exists>r. db_questions d1 k = Some r \<and> dq_Verified r} \<le> nat n \<Longrightarrow>
      row \<in> set rows"
    and "UpsertQuestionVerification \<lparr>uq_Verified = False, uq_Metadata = m, uq_QuestionID = Some (dq_QuestionID row)\<rparr> d1 = (d3, Inr row3) \<Longrightarrow>
      random_order d3 \<Longrightarrow> GetQuestionPool n d3 = (d4, Inr rows4) \<Longrightarrow> r \<in> set rows4 \<Longrightarrow> dq_QuestionID r \<noteq> dq_QuestionID row"
proof -
  note i = InsertQuestion_row [OF assms(1)] and k = InsertQuestion_row(4) [OF assms(1,2)]
  have q: "db_questions d1 (dq_QuestionID row) = Some row" unfolding i(2) by simp
  show "row \<in> set rows" if "iq_Verified arg" "GetQuestionPool n d1 = (d2, Inr rows)"
      "card {k. \<exists>r. db_questions d1 k = Some r \<and> dq_Verified r} \<le> nat n"
    by (rule pool_has_all [OF that(2) assms(3) k that(3) q]) (simp add: i(3) that(1))
  assume u: "UpsertQuestionVerification \<lparr>uq_Verified = False, uq_Metadata = m, uq_QuestionID = Some (dq_QuestionID row)\<rparr> d1 = (d3, Inr row3)"
    and o: "random_order d3" "GetQuestionPool n d3 = (d4, Inr rows4)" "r \<in> set rows4"
  note v = UpsertQuestionVerification_row [OF u k]
  from GetQuestionPool_Inr(4) [OF o(2,1) v(4)] o(3) have "dq_Verified r" "db_questions d3 (dq_QuestionID r) = Some r" by blast+
  with v(1-3) show "dq_QuestionID r \<noteq> dq_QuestionID row" by auto
qed

subsection \<open>Properties\<close>

definition ex_question :: "uuid \<Rightarrow> QuestionRow" where
  "ex_question i = \<lparr>dq_QuestionID = i, dq_Source = ''curated'', dq_Prompt = ''p'', dq_Options = [''a'', ''b''],
     dq_CorrectAnswer = ''a'', dq_Metadata = JObject [], dq_Verified = True, dq_CreatedAt = 0, dq_UpdatedAt = 0\<rparr>"

definition ex_user :: "uuid \<Rightarrow> UserRow" where
  "ex_user i = \<lparr>du_UserID = i, du_Email = None, du_PasswordHash = None, du_Username = None, du_UserType = ''registered'',
     du_Status = ''active'', du_CreatedAt = 0, du_UpdatedAt = 0, du_LastLoginAt = None, du_Metadata = []\<rparr>"

definition ex_db :: "unit DB" where
  "ex_db = \<lparr>db_users = [ex_user 1, ex_user 2], db_matches = Map.empty, db_players = Map.empty,
     db_questions = [11 \<mapsto> ex_question 11, 12 \<mapsto> ex_question 12], db_snapshots = [], db_now = 0,
     db_uuids = (\<lambda>n. of_nat (100 + n)), db_drawn = 0, db_orders = (\<lambda>_. [12, 11]), db_listed = 0, db_faults = []\<rparr>"

text \<open>The statement that stores a player's final result names the column \<open>updated_at\<close>, which
  the table \<open>player_match_state\<close> does not have: it fails for every match and player and in every
  state of the database, and changes no table, so no final score, accuracy, status or answer list
  ever reaches PostgreSQL.\<close>

theorem player_results_never_reach_the_database:
  "\<exists>d' e. UpdatePlayerMatchResult arg d = (d', Inl e) \<and> db_players d' = db_players d \<and>
     db_matches d' = db_matches d"
  using UpdatePlayerMatchResult_fails [of arg d] by auto

text \<open>A request for curated questions that does not fail returns verified questions of the
  table, none of them twice, and as many as asked for if there are enough.\<close>

theorem question_pool_is_a_sample:
  assumes "random_order d" "keyed (db_questions d)" "GetQuestionPool n d = (d', Inr rows)"
  shows "distinct (map dq_QuestionID rows)
    \<and> length rows = min (nat n) (card {k. \<exists>r. db_questions d k = Some r \<and> dq_Verified r})
    \<and> (\<forall>r \<in> set rows. dq_Verified r \<and> db_questions d (dq_QuestionID r) = Some r)"
  using GetQuestionPool_Inr [OF assms(3,1,2)] by blast

theorem question_pool_is_a_sample_witness:
  "\<exists>d' rows. GetQuestionPool 1 ex_db = (d', Inr rows) \<and> distinct (map dq_QuestionID rows) \<and> length rows = 1"
proof -
  have o: "random_order ex_db" "keyed (db_questions ex_db)"
    by (auto simp: ex_db_def random_order_def enumerates_def keyed_def ex_question_def)
  obtain d' rows where g: "GetQuestionPool 1 ex_db = (d', Inr rows)"
    by (simp add: GetQuestionPool_def stmt_def db_error_def ex_db_def)
  have "{k. \<exists>r. db_questions ex_db k = Some r \<and> dq_Verified r} = {11, 12}"
    by (auto simp: ex_db_def ex_question_def)
  with question_pool_is_a_sample [OF o g] g show ?thesis by auto
qed

end
