(* ===== verification/Messages.thy ===== *)
theory Messages
  imports Domain Json
begin

section \<open>The WebSocket protocol (pkg/http/ws/message.go)\<close>

text \<open>
  The payload structs of the messages that the handlers read and write. A \<open>Message\<close> the server
  sends carries its payload as JSON marshalled from a struct; the model keeps the struct: \<open>payload\<close>
  has one constructor per struct that is sent. A message of a client carries any JSON, or nothing:
  it is a \<open>ClientMessage\<close>, whose payload the handlers decode.
\<close>

definition TypeJoinQueue :: string where "TypeJoinQueue = ''join_queue''"
definition TypeCancelQueue :: string where "TypeCancelQueue = ''cancel_queue''"
definition TypeAcceptBotFill :: string where "TypeAcceptBotFill = ''accept_bot_fill''"
definition TypeJoinPrivate :: string where "TypeJoinPrivate = ''join_private''"
definition TypeReadyState :: string where "TypeReadyState = ''ready_state''"
definition TypeSubmitAnswer :: string where "TypeSubmitAnswer = ''submit_answer''"
definition TypeLeaveMatch :: string where "TypeLeaveMatch = ''leave_match''"
definition TypeRequestProgress :: string where "TypeRequestProgress = ''request_progress''"

definition TypeQueueUpdate :: string where "TypeQueueUpdate = ''queue_update''"
definition TypeMatchFound :: string where "TypeMatchFound = ''match_found''"
definition TypePrivateRoomUpdate :: string where "TypePrivateRoomUpdate = ''private_room_update''"
definition TypeQuestionBatch :: string where "TypeQuestionBatch = ''question_batch''"
definition TypeAnswerAck :: string where "TypeAnswerAck = ''answer_ack''"
definition TypeMatchComplete :: string where "TypeMatchComplete = ''match_complete''"
definition TypeLeaderboardUpdate :: string where "TypeLeaderboardUpdate = ''leaderboard_update''"
definition TypeError :: string where "TypeError = ''error''"

lemmas type_defs = TypeJoinQueue_def TypeCancelQueue_def TypeAcceptBotFill_def TypeJoinPrivate_def
  TypeReadyState_def TypeSubmitAnswer_def TypeLeaveMatch_def TypeRequestProgress_def
  TypeQueueUpdate_def TypeMatchFound_def TypePrivateRoomUpdate_def TypeQuestionBatch_def
  TypeAnswerAck_def TypeMatchComplete_def TypeLeaderboardUpdate_def TypeError_def

subsection \<open>Client messages\<close>

record JoinQueuePayload =
  jq_QueueToken :: string
  jq_QuestionCount :: int
  jq_Category :: string

record SubmitAnswerPayload =
  sb_MatchID :: string
  sb_QuestionToken :: string
  sb_Answer :: string
  sb_ClientLatencyMs :: int

record CancelQueuePayload =
  cq_QueueToken :: string

record JoinPrivatePayload =
  jp_RoomCode :: string

record RequestProgressPayload =
  rq_MatchID :: string

record LeaveMatchPayload =
  lm_MatchID :: string
  lm_Reason :: string

subsection \<open>Server messages\<close>

record QueueUpdatePayload =
  qu_QueueToken :: string
  qu_Status :: string
  qu_Position :: int
  qu_WaitSeconds :: int

record Player =
  pl_UserID :: string
  pl_Username :: string

record MatchFoundPayload =
  mf_MatchID :: string
  mf_Mode :: string
  mf_Players :: "Player list"
  mf_QuestionCount :: int
  mf_PerQuestionSeconds :: int
  mf_GlobalTimeoutSeconds :: int

record PrivateRoomUpdatePayload =
  pu_MatchID :: string
  pu_RoomCode :: string
  pu_Players :: "Player list"
  pu_SlotsRemaining :: int

record QuestionPayload =
  qy_Order :: int
  qy_ID :: string
  qy_Prompt :: string
  qy_Options :: "string list"
  qy_Token :: string

record QuestionBatchPayload =
  qb_MatchID :: string
  qb_Batch :: "QuestionPayload list"
  qb_Seed :: string
  qb_IssuedAt :: string

record AnswerAckPayload =
  aa_MatchID :: string
  aa_QuestionOrder :: int
  aa_Accepted :: bool
  aa_ServerReceivedAt :: string

record MatchResult =
  mt_UserID :: string
  mt_Username :: string
  mt_FinalScore :: int
  mt_Accuracy :: rat
  mt_StreakBonusApplied :: rat
  mt_Status :: string

record MatchCompletePayload =
  mc_MatchID :: string
  mc_Results :: "MatchResult list"
  mc_LeaderboardEligible :: bool
  mc_LeaderboardPosition :: int

record LeaderboardEntry =
  we_Rank :: int
  we_UserID :: string
  we_Username :: string
  we_Score :: int
  we_Wins :: int
  we_Games :: int
  we_Accuracy :: rat

record LeaderboardUpdatePayload =
  lu_Window :: string
  lu_Top :: "LeaderboardEntry list"
  lu_MatchID :: string

record ErrorPayload =
  er_Code :: string
  er_Message :: string

datatype payload =
    PQueueUpdate QueueUpdatePayload
  | PMatchFound MatchFoundPayload
  | PPrivateRoomUpdate PrivateRoomUpdatePayload
  | PQuestionBatch QuestionBatchPayload
  | PAnswerAck AnswerAckPayload
  | PMatchComplete MatchCompletePayload
  | PLeaderboardUpdate LeaderboardUpdatePayload
  | PError ErrorPayload

record Message =
  msg_Type :: string
  msg_Payload :: payload
  msg_RequestID :: string

record ClientMessage =
  cm_Type :: string
  cm_Payload :: "json option"

definition message :: "string \<Rightarrow> payload \<Rightarrow> Message" where
  "message t p = \<lparr>msg_Type = t, msg_Payload = p, msg_RequestID = []\<rparr>"

end
