(* ===== verification/HttpErrors.thy ===== *)
theory HttpErrors
  imports Prelude
begin

section \<open>Error responses (pkg/http/errors)\<close>

text \<open>
  The error codes of \<open>codes.go\<close> and the responders of \<open>errors.go\<close>: an error response is its
  status, code, message and field (empty when the responder sets none).
\<close>

definition ErrCodeUnauthorized :: string where "ErrCodeUnauthorized = ''unauthorized''"
definition ErrCodeForbidden :: string where "ErrCodeForbidden = ''forbidden''"
definition ErrCodeInvalidToken :: string where "ErrCodeInvalidToken = ''invalid_token''"
definition ErrCodeTokenExpired :: string where "ErrCodeTokenExpired = ''token_expired''"
definition ErrCodeAuthenticationRequired :: string where "ErrCodeAuthenticationRequired = ''authentication_required''"
definition ErrCodeInvalidRequest :: string where "ErrCodeInvalidRequest = ''invalid_request''"
definition ErrCodeValidationFailed :: string where "ErrCodeValidationFailed = ''validation_failed''"
definition ErrCodeMissingField :: string where "ErrCodeMissingField = ''missing_field''"
definition ErrCodeNotFound :: string where "ErrCodeNotFound = ''not_found''"
definition ErrCodeAlreadyExists :: string where "ErrCodeAlreadyExists = ''already_exists''"
definition ErrCodeConflict :: string where "ErrCodeConflict = ''conflict''"
definition ErrCodeRegistrationFailed :: string where "ErrCodeRegistrationFailed = ''registration_failed''"
definition ErrCodeLoginFailed :: string where "ErrCodeLoginFailed = ''login_failed''"
definition ErrCodeGuestCreationFailed :: string where "ErrCodeGuestCreationFailed = ''guest_creation_failed''"
definition ErrCodeConversionFailed :: string where "ErrCodeConversionFailed = ''conversion_failed''"
definition ErrCodeRefreshFailed :: string where "ErrCodeRefreshFailed = ''refresh_failed''"
definition ErrCodeSetUsernameFailed :: string where "ErrCodeSetUsernameFailed = ''set_username_failed''"
definition ErrCodeResetFailed :: string where "ErrCodeResetFailed = ''reset_failed''"
definition ErrCodeUsernameTaken :: string where "ErrCodeUsernameTaken = ''username_taken''"
definition ErrCodeRoomCreationFailed :: string where "ErrCodeRoomCreationFailed = ''room_creation_failed''"
definition ErrCodeRoomNotFound :: string where "ErrCodeRoomNotFound = ''room_not_found''"
definition ErrCodeRoomFetchFailed :: string where "ErrCodeRoomFetchFailed = ''room_fetch_failed''"
definition ErrCodeGuestsCannotCreateRooms :: string where "ErrCodeGuestsCannotCreateRooms = ''guests_cannot_create_rooms''"
definition ErrCodeInvalidRoomCode :: string where "ErrCodeInvalidRoomCode = ''invalid_room_code''"
definition ErrCodeJoinFailed :: string where "ErrCodeJoinFailed = ''join_failed''"
definition ErrCodeRoomStartFailed :: string where "ErrCodeRoomStartFailed = ''room_start_failed''"
definition ErrCodeMatchCreationFailed :: string where "ErrCodeMatchCreationFailed = ''match_creation_failed''"
definition ErrCodeInvalidMatchID :: string where "ErrCodeInvalidMatchID = ''invalid_match_id''"
definition ErrCodeSubmitFailed :: string where "ErrCodeSubmitFailed = ''submit_failed''"
definition ErrCodeEnqueueFailed :: string where "ErrCodeEnqueueFailed = ''enqueue_failed''"
definition ErrCodeInvalidQueueToken :: string where "ErrCodeInvalidQueueToken = ''invalid_queue_token''"
definition ErrCodeQueueTokenNotFound :: string where "ErrCodeQueueTokenNotFound = ''queue_token_not_found''"
definition ErrCodeInvalidPayload :: string where "ErrCodeInvalidPayload = ''invalid_payload''"
definition ErrCodeUnknownMessageType :: string where "ErrCodeUnknownMessageType = ''unknown_message_type''"
definition ErrCodeConnectionError :: string where "ErrCodeConnectionError = ''connection_error''"
definition ErrCodeInternalError :: string where "ErrCodeInternalError = ''internal_error''"
definition ErrCodeServiceUnavailable :: string where "ErrCodeServiceUnavailable = ''service_unavailable''"
definition ErrCodeUpstreamError :: string where "ErrCodeUpstreamError = ''upstream_error''"
definition ErrCodeFeatureNotAvailable :: string where "ErrCodeFeatureNotAvailable = ''feature_not_available''"
definition ErrCodeNotImplemented :: string where "ErrCodeNotImplemented = ''not_implemented''"
definition ErrCodeOAuthNotConfigured :: string where "ErrCodeOAuthNotConfigured = ''oauth_not_configured''"
definition ErrCodeOAuthStartFailed :: string where "ErrCodeOAuthStartFailed = ''oauth_start_failed''"
definition ErrCodeOAuthCallbackFailed :: string where "ErrCodeOAuthCallbackFailed = ''oauth_callback_failed''"
definition ErrCodeOAuthMissingCode :: string where "ErrCodeOAuthMissingCode = ''missing_code''"
definition ErrCodeOAuthInvalidState :: string where "ErrCodeOAuthInvalidState = ''invalid_state''"
definition ErrCodeUserCreationFailed :: string where "ErrCodeUserCreationFailed = ''user_creation_failed''"
definition ErrCodeLeaderboardFetchFailed :: string where "ErrCodeLeaderboardFetchFailed = ''leaderboard_fetch_failed''"
definition ErrCodeUnknownWindow :: string where "ErrCodeUnknownWindow = ''unknown_leaderboard_window''"

record ErrorResponse =
  hr_Status :: int
  hr_Error :: string
  hr_Message :: string
  hr_Field :: string

definition RespondError :: "int \<Rightarrow> string \<Rightarrow> string \<Rightarrow> ErrorResponse" where
  "RespondError status code msg = \<lparr>hr_Status = status, hr_Error = code, hr_Message = msg, hr_Field = []\<rparr>"

definition RespondValidationError :: "string \<Rightarrow> string \<Rightarrow> string \<Rightarrow> ErrorResponse" where
  "RespondValidationError code msg field =
     \<lparr>hr_Status = 400, hr_Error = code, hr_Message = msg, hr_Field = field\<rparr>"

definition RespondInternalError :: "string \<Rightarrow> ErrorResponse" where
  "RespondInternalError msg = RespondError 500 ErrCodeInternalError msg"

definition RespondNotFound :: "string \<Rightarrow> string \<Rightarrow> ErrorResponse" where
  "RespondNotFound code msg = RespondError 404 code msg"

definition RespondUnauthorized :: "string \<Rightarrow> string \<Rightarrow> ErrorResponse" where
  "RespondUnauthorized code msg = RespondError 401 code msg"

definition RespondForbidden :: "string \<Rightarrow> string \<Rightarrow> ErrorResponse" where
  "RespondForbidden code msg = RespondError 403 code msg"

definition RespondBadRequest :: "string \<Rightarrow> string \<Rightarrow> ErrorResponse" where
  "RespondBadRequest code msg = RespondError 400 code msg"

definition RespondServiceUnavailable :: "string \<Rightarrow> string \<Rightarrow> ErrorResponse" where
  "RespondServiceUnavailable code msg = RespondError 503 code msg"

end
