(* ===== verification/Questions.thy ===== *)
theory Questions
  imports MatchState Database "HOL-Library.Multiset"
begin

section \<open>The question service (internal/question)\<close>

text \<open>
  \<open>Service.FetchPack\<close> of \<open>service.go\<close> in the stages its comments name, with the history
  functions on Redis, the pack cache of \<open>cache.go\<close> and the prefetch worker of \<open>worker.go\<close>.
  The world a call runs in has the Redis server, the database and everything else the
  parameters act on (the AI service, the clock). The interfaces \<open>PackCache\<close> and
  \<open>AIGenerator\<close> are fields of the service; the HMAC, the text of an identifier and the order
  of one map iteration are fields too.

  The lemmas: what FetchPack returns always has the requested size; the cache key does not
  depend on the order of the difficulty map and a cached pack is returned again; the filter
  against repeated questions within a match removes nothing; the filter against the history of
  both players rejects a pack when the players repeat different questions.
\<close>

record ('r, 'e, 'x) world =
  w_redis :: 'r
  w_db :: "'e DB"
  w_ext :: 'x

definition on_redis :: "('r \<Rightarrow> 'r \<times> 'a) \<Rightarrow> ('r, 'e, 'x) world \<Rightarrow> ('r, 'e, 'x) world \<times> 'a" where
  "on_redis f w = (let (r, x) = f (w_redis w) in (w\<lparr>w_redis := r\<rparr>, x))"

definition on_db :: "('e DB \<Rightarrow> 'e DB \<times> 'a) \<Rightarrow> ('r, 'e, 'x) world \<Rightarrow> ('r, 'e, 'x) world \<times> 'a" where
  "on_db f w = (let (d, x) = f (w_db w) in (w\<lparr>w_db := d\<rparr>, x))"

definition on_ext :: "('x \<Rightarrow> 'x \<times> 'a) \<Rightarrow> ('r, 'e, 'x) world \<Rightarrow> ('r, 'e, 'x) world \<times> 'a" where
  "on_ext f w = (let (s, x) = f (w_ext w) in (w\<lparr>w_ext := s\<rparr>, x))"

record AIGenerateRequest =
  ag_Category :: string
  ag_Difficulty :: string
  ag_Count :: int
  ag_Seed :: string
  ag_DifficultyCounts :: counts

record ('r, 'e, 'x) PackCache =
  pc_Get :: "PackRequest \<Rightarrow> ('r, 'e, 'x) world \<Rightarrow> ('r, 'e, 'x) world \<times> PackResponse option res"
  pc_Set :: "PackRequest \<Rightarrow> PackResponse \<Rightarrow> ('r, 'e, 'x) world \<Rightarrow> ('r, 'e, 'x) world \<times> err option"

record 'x AIGenerator =
  ai_GeneratePack :: "AIGenerateRequest \<Rightarrow> 'x \<Rightarrow> 'x \<times> Question list res"
  ai_EnqueuePack :: "AIGenerateRequest \<Rightarrow> 'x \<Rightarrow> 'x \<times> err option"

record ('r, 'e, 'x) QService =
  qs_cache :: "('r, 'e, 'x) PackCache"
  qs_ai :: "'x AIGenerator option"
  qs_redis :: "'r redis_client option"
  qs_hmacKey :: string
  qs_hmac :: "string \<Rightarrow> string \<Rightarrow> string"
  qs_us :: "uuid \<Rightarrow> string"
  qs_now :: "'x \<Rightarrow> 'x \<times> instant"
  qs_order :: "'x \<Rightarrow> 'x \<times> (string list \<Rightarrow> string list)"

subsection \<open>Tokens and rows\<close>

definition signToken :: "('r, 'e, 'x) QService \<Rightarrow> string \<Rightarrow> string" where
  "signToken s questionID = (if qs_hmacKey s = [] then questionID else qs_hmac s (qs_hmacKey s) questionID)"

text \<open>\<open>uuid.FromBytes\<close> never fails on the sixteen bytes of a \<open>pgtype.UUID\<close>.\<close>

definition uuidFrom :: "('r, 'e, 'x) QService \<Rightarrow> uuid \<Rightarrow> string" where
  "uuidFrom s u = qs_us s u"

definition toDomain :: "('r, 'e, 'x) QService \<Rightarrow> QuestionRow \<Rightarrow> Question" where
  "toDomain s row =
     (let i = uuidFrom s (dq_QuestionID row)
      in \<lparr>q_ID = i, q_Prompt = dq_Prompt row, q_Options = dq_Options row,
          q_Answer = dq_CorrectAnswer row, q_Source = dq_Source row, q_Token = signToken s i\<rparr>)"

definition fetchCurated ::
  "('r, 'e, 'x) QService \<Rightarrow> string \<Rightarrow> string \<Rightarrow> int \<Rightarrow> ('r, 'e, 'x) world \<Rightarrow>
   ('r, 'e, 'x) world \<times> Question list res" where
  "fetchCurated s category difficulty limit w =
     (case on_db (GetQuestionPool (to_int32 limit)) w of
        (w, Inl e) \<Rightarrow> (w, Inl e)
      | (w, Inr rows) \<Rightarrow> (w, Inr (map (toDomain s) rows)))"

definition fetchAIMixed ::
  "('r, 'e, 'x) QService \<Rightarrow> string \<Rightarrow> counts \<Rightarrow> string \<Rightarrow> ('r, 'e, 'x) world \<Rightarrow>
   ('r, 'e, 'x) world \<times> Question list res" where
  "fetchAIMixed s category needs seed w =
     (case qs_ai s of
        None \<Rightarrow> (w, Inl ''ai generator unavailable'')
      | Some ai \<Rightarrow>
          let tot = sum_list (map snd needs)
          in on_ext (ai_GeneratePack ai \<lparr>ag_Category = category, ag_Difficulty = [], ag_Count = tot,
                ag_Seed = seed, ag_DifficultyCounts = needs\<rparr>) w)"

subsection \<open>Repeated questions\<close>

text \<open>The loop of \<open>checkWithinMatchDuplicates\<close>: unique ids in order, and whether one was
  skipped.\<close>

fun dup_loop :: "string set \<Rightarrow> string list \<Rightarrow> string list \<times> bool" where
  "dup_loop seen [] = ([], False)"
| "dup_loop seen (i # is) =
     (if i \<in> seen then (fst (dup_loop seen is), True)
      else (i # fst (dup_loop (insert i seen) is), snd (dup_loop (insert i seen) is)))"

definition checkWithinMatchDuplicates :: "string list \<Rightarrow> string list \<times> bool" where
  "checkWithinMatchDuplicates questionIDs = dup_loop {} questionIDs"

definition history_key :: "('r, 'e, 'x) QService \<Rightarrow> uuid \<Rightarrow> string" where
  "history_key s userID = ''user:questions:'' @ qs_us s userID"

fun history_loop ::
  "'r redis_client \<Rightarrow> string \<Rightarrow> string list \<Rightarrow> 'r \<Rightarrow> 'r \<times> string list \<times> int" where
  "history_loop rc key [] r = (r, [], 0)"
| "history_loop rc key (i # is) r =
     (case rc_SIsMember rc r key i of
        (r, Inl e) \<Rightarrow> (let (r, unseen, n) = history_loop rc key is r in (r, i # unseen, n))
      | (r, Inr found) \<Rightarrow>
          (let (r, unseen, n) = history_loop rc key is r
           in if found then (r, unseen, n + 1) else (r, i # unseen, n)))"

definition checkUserQuestionHistory ::
  "('r, 'e, 'x) QService \<Rightarrow> uuid \<Rightarrow> string list \<Rightarrow> ('r, 'e, 'x) world \<Rightarrow>
   ('r, 'e, 'x) world \<times> string list \<times> int" where
  "checkUserQuestionHistory s userID questionIDs w =
     (case qs_redis s of
        None \<Rightarrow> (w, questionIDs, 0)
      | Some rc \<Rightarrow>
          if userID = uuid_Nil then (w, questionIDs, 0)
          else on_redis (history_loop rc (history_key s userID) questionIDs) w)"

fun pipe_cmds :: "string \<Rightarrow> string \<Rightarrow> string list \<Rightarrow> (string \<times> string) list" where
  "pipe_cmds key1 key2 [] = []"
| "pipe_cmds key1 key2 (i # is) = (key1, i) # (key2, i) # pipe_cmds key1 key2 is"

text \<open>The loop over the answers of the pipeline, two for every question.\<close>

fun both_loop :: "string list \<Rightarrow> bool list \<Rightarrow> string list \<times> int \<times> int" where
  "both_loop (i # is) (seen1 # seen2 # bs) =
     (let (unseen, n1, n2) = both_loop is bs
      in (if \<not> seen1 \<and> \<not> seen2 then i # unseen else unseen,
          if seen1 then n1 + 1 else n1, if seen2 then n2 + 1 else n2))"
| "both_loop _ _ = ([], 0, 0)"

definition checkBothPlayersHistory ::
  "('r, 'e, 'x) QService \<Rightarrow> uuid \<Rightarrow> uuid \<Rightarrow> string list \<Rightarrow> ('r, 'e, 'x) world \<Rightarrow>
   ('r, 'e, 'x) world \<times> string list \<times> int \<times> int" where
  "checkBothPlayersHistory s player1ID player2ID questionIDs w =
     (case qs_redis s of
        None \<Rightarrow> (w, questionIDs, 0, 0)
      | Some rc \<Rightarrow>
          if player1ID = uuid_Nil \<or> player2ID = uuid_Nil then (w, questionIDs, 0, 0)
          else if questionIDs = [] then (w, [], 0, 0)
          else
            case on_redis (\<lambda>r. rc_PipeSIsMember rc r
                   (pipe_cmds (history_key s player1ID) (history_key s player2ID) questionIDs)) w of
              (w, Inl e) \<Rightarrow> (w, questionIDs, 0, 0)
            | (w, Inr bs) \<Rightarrow> (w, both_loop questionIDs bs))"

definition AddUserQuestionHistory ::
  "('r, 'e, 'x) QService \<Rightarrow> uuid \<Rightarrow> string list \<Rightarrow> ('r, 'e, 'x) world \<Rightarrow>
   ('r, 'e, 'x) world \<times> err option" where
  "AddUserQuestionHistory s userID questionIDs w =
     (case qs_redis s of
        None \<Rightarrow> (w, None)
      | Some rc \<Rightarrow>
          if userID = uuid_Nil \<or> questionIDs = [] then (w, None)
          else
            let key = history_key s userID
            in case on_redis (\<lambda>r. rc_SAdd rc r key questionIDs) w of
                 (w, Some e) \<Rightarrow> (w, Some (wrap ''add question history'' e))
               | (w, None) \<Rightarrow>
                   (case on_redis (\<lambda>r. rc_Expire rc r key (10 * 24 * 3600 * second)) w of
                      (w, Some e) \<Rightarrow> (w, Some (wrap ''set question history TTL'' e))
                    | (w, None) \<Rightarrow> (w, None)))"

subsection \<open>The pack cache (cache.go)\<close>

definition defaultCacheTTL :: duration where
  "defaultCacheTTL = 5 * 60 * second"

record 'r Cache =
  ca_client :: "'r redis_client"
  ca_ttl :: duration

definition NewCache :: "'r redis_client \<Rightarrow> duration \<Rightarrow> 'r Cache" where
  "NewCache client ttl = \<lparr>ca_client = client, ca_ttl = (if ttl \<le> 0 then defaultCacheTTL else ttl)\<rparr>"

definition cache_key :: "PackRequest \<Rightarrow> string" where
  "cache_key req =
     (let diffParts = sort (map (\<lambda>(k, v). k @ '':'' @ show_int v) (pr_DifficultyCounts req))
      in join '':'' [''questionpack'', pr_Category req, pr_Seed req, show_int (pr_TotalQuestions req),
           join ''|'' diffParts])"

fun as_pack :: "doc \<Rightarrow> PackResponse res" where
  "as_pack (DPack p) = Inr p"
| "as_pack _ = Inl ''json: cannot unmarshal into question.PackResponse''"

definition Cache_Get ::
  "'r Cache \<Rightarrow> PackRequest \<Rightarrow> ('r, 'e, 'x) world \<Rightarrow> ('r, 'e, 'x) world \<times> PackResponse option res" where
  "Cache_Get c req w =
     (case on_redis (\<lambda>r. rc_Get (ca_client c) r (cache_key req)) w of
        (w, RNil) \<Rightarrow> (w, Inr None)
      | (w, RErr e) \<Rightarrow> (w, Inl e)
      | (w, RVal data) \<Rightarrow> (w, case as_pack data of Inl e \<Rightarrow> Inl e | Inr resp \<Rightarrow> Inr (Some resp)))"

definition Cache_Set ::
  "'r Cache \<Rightarrow> PackRequest \<Rightarrow> PackResponse \<Rightarrow> ('r, 'e, 'x) world \<Rightarrow> ('r, 'e, 'x) world \<times> err option" where
  "Cache_Set c req resp w = on_redis (\<lambda>r. rc_Set (ca_client c) r (cache_key req) (DPack resp) (ca_ttl c)) w"

definition redis_cache :: "'r Cache \<Rightarrow> ('r, 'e, 'x) PackCache" where
  "redis_cache c = \<lparr>pc_Get = Cache_Get c, pc_Set = Cache_Set c\<rparr>"

subsection \<open>FetchPack\<close>

text \<open>Stage 1: the curated questions per difficulty, and how many each difficulty still needs.\<close>

fun curated_loop ::
  "('r, 'e, 'x) QService \<Rightarrow> string \<Rightarrow> counts \<Rightarrow> ('r, 'e, 'x) world \<Rightarrow>
   ('r, 'e, 'x) world \<times> (Question list \<times> counts) res" where
  "curated_loop s category [] w = (w, Inr ([], []))"
| "curated_loop s category ((diff, cnt) # cs) w =
     (case fetchCurated s category diff cnt w of
        (w, Inl e) \<Rightarrow> (w, Inl e)
      | (w, Inr curated) \<Rightarrow>
          (case curated_loop s category cs w of
             (w, Inl e) \<Rightarrow> (w, Inl e)
           | (w, Inr (result, needs)) \<Rightarrow>
               let needed = cnt - int (length curated)
               in (w, Inr (curated @ result, if 0 < needed then (diff, needed) # needs else needs))))"

text \<open>Stage 2: one call to the generator for everything that is missing.\<close>

definition ai_stage ::
  "('r, 'e, 'x) QService \<Rightarrow> PackRequest \<Rightarrow> counts \<Rightarrow> Question list \<Rightarrow> ('r, 'e, 'x) world \<Rightarrow>
   ('r, 'e, 'x) world \<times> Question list res" where
  "ai_stage s req remainingNeeds result w =
     (if 0 < sum_list (map snd remainingNeeds)
      then (case fetchAIMixed s (pr_Category req) remainingNeeds (pr_Seed req) w of
              (w, Inl e) \<Rightarrow> (w, Inl (wrap ''ai fallback failed'' e))
            | (w, Inr aiQs) \<Rightarrow> (w, Inr (result @ aiQs)))
      else (w, Inr result))"

text \<open>The counts to regenerate: proportional (\<open>int(float64(needed) * proportion)\<close>), then at
  least one where the request had some.\<close>

definition proportional_needs :: "PackRequest \<Rightarrow> int \<Rightarrow> counts" where
  "proportional_needs req needed =
     map (\<lambda>(diff, cnt).
       (diff, let proportion = f64 (f64 (of_int cnt) / f64 (of_int (pr_TotalQuestions req)))
              in go_trunc (f64 (f64 (of_int needed) * proportion)))) (pr_DifficultyCounts req)"

definition at_least_one :: "PackRequest \<Rightarrow> counts \<Rightarrow> counts" where
  "at_least_one req needs =
     map (\<lambda>((diff, origCount), (_, n)). (diff, if 0 < origCount \<and> n = 0 then 1 else n))
       (zip (pr_DifficultyCounts req) needs)"

text \<open>The loop that appends new questions while there is room: \<open>seen\<close> are the ids taken.\<close>

fun add_new :: "int \<Rightarrow> Question list \<Rightarrow> string set \<Rightarrow> Question list \<Rightarrow> Question list" where
  "add_new tot filtered seen [] = filtered"
| "add_new tot filtered seen (q # qs) =
     (if q_ID q \<notin> seen \<and> int (length filtered) < tot
      then add_new tot (filtered @ [q]) (insert (q_ID q) seen) qs
      else add_new tot filtered seen qs)"

text \<open>Stage 3: questions that occur twice within the match.\<close>

definition within_match_stage ::
  "('r, 'e, 'x) QService \<Rightarrow> PackRequest \<Rightarrow> Question list \<Rightarrow> ('r, 'e, 'x) world \<Rightarrow>
   ('r, 'e, 'x) world \<times> Question list" where
  "within_match_stage s req result w =
     (let (uniqueIDs, hasDuplicates) = checkWithinMatchDuplicates (map q_ID result)
      in if \<not> hasDuplicates then (w, result)
         else
           let filtered = filter (\<lambda>q. q_ID q \<in> set uniqueIDs) result;
               needed = pr_TotalQuestions req - int (length filtered)
           in if 0 < needed
              then (case fetchAIMixed s (pr_Category req) (at_least_one req (proportional_needs req needed))
                           (pr_Seed req @ ''-retry'') w of
                      (w, Inl e) \<Rightarrow> (w, filtered)
                    | (w, Inr additionalQs) \<Rightarrow>
                        (w, add_new (pr_TotalQuestions req) filtered (q_ID ` set filtered) additionalQs))
              else (w, filtered))"

definition need_got :: "string \<Rightarrow> int \<Rightarrow> nat \<Rightarrow> err" where
  "need_got what need got = what @ '': need '' @ show_int need @ '' got '' @ show_int (int got)"

text \<open>Stage 4 and the ends of stage 5: enough questions, and not more than asked for.\<close>

definition exactly :: "string \<Rightarrow> int \<Rightarrow> Question list \<Rightarrow> Question list res" where
  "exactly what tot result =
     (if int (length result) < tot then Inl (need_got what tot (length result))
      else Inr (take (nat tot) result))"

text \<open>Stage 5: the history of both players. \<open>add_unseen_both\<close> is the loop over regenerated
  questions, each checked against both histories.\<close>

fun add_unseen_both ::
  "('r, 'e, 'x) QService \<Rightarrow> uuid \<Rightarrow> uuid \<Rightarrow> int \<Rightarrow> Question list \<Rightarrow> string set \<Rightarrow> Question list \<Rightarrow>
   ('r, 'e, 'x) world \<Rightarrow> ('r, 'e, 'x) world \<times> Question list" where
  "add_unseen_both s p1 p2 tot filtered seen [] w = (w, filtered)"
| "add_unseen_both s p1 p2 tot filtered seen (q # qs) w =
     (let (w, unseen, _, _) = checkBothPlayersHistory s p1 p2 [q_ID q] w
      in if unseen \<noteq> [] \<and> q_ID q \<notin> seen \<and> int (length filtered) < tot
         then add_unseen_both s p1 p2 tot (filtered @ [q]) (insert (q_ID q) seen) qs w
         else add_unseen_both s p1 p2 tot filtered seen qs w)"

text \<open>\<open>duplicateMap\<close> keeps the last question of an id; the loop over it takes the ids in the
  order of one map iteration.\<close>

definition duplicate_map :: "string set \<Rightarrow> Question list \<Rightarrow> (string \<rightharpoonup> Question)" where
  "duplicate_map unseen result = map_of (rev (map (\<lambda>q. (q_ID q, q)) (filter (\<lambda>q. q_ID q \<notin> unseen) result)))"

definition duplicate_ids :: "string set \<Rightarrow> Question list \<Rightarrow> string list" where
  "duplicate_ids unseen result = remdups (map q_ID (filter (\<lambda>q. q_ID q \<notin> unseen) result))"

fun fill_up :: "int \<Rightarrow> Question list \<Rightarrow> Question list \<Rightarrow> Question list" where
  "fill_up tot filtered [] = filtered"
| "fill_up tot filtered (q # qs) =
     (if int (length filtered) < tot then fill_up tot (filtered @ [q]) qs else fill_up tot filtered qs)"

definition allow_some ::
  "('r, 'e, 'x) QService \<Rightarrow> PackRequest \<Rightarrow> string list \<Rightarrow> int \<Rightarrow> Question list \<Rightarrow> ('r, 'e, 'x) world \<Rightarrow>
   ('r, 'e, 'x) world \<times> Question list" where
  "allow_some s req unseen maxDup result w =
     (let filtered = filter (\<lambda>q. q_ID q \<in> set unseen) result;
          needed = pr_TotalQuestions req - int (length filtered)
      in if 0 < needed \<and> needed \<le> maxDup
         then let (w, order) = on_ext (qs_order s) w;
                  dups = List.map_filter (duplicate_map (set unseen) result)
                           (order (duplicate_ids (set unseen) result))
              in (w, fill_up (pr_TotalQuestions req) filtered dups)
         else (w, filtered))"

fun dedup_unseen :: "string set \<Rightarrow> string set \<Rightarrow> Question list \<Rightarrow> Question list" where
  "dedup_unseen unseen seen [] = []"
| "dedup_unseen unseen seen (q # qs) =
     (if q_ID q \<in> unseen \<and> q_ID q \<notin> seen then q # dedup_unseen unseen (insert (q_ID q) seen) qs
      else dedup_unseen unseen seen qs)"

definition both_players_stage ::
  "('r, 'e, 'x) QService \<Rightarrow> PackRequest \<Rightarrow> uuid \<Rightarrow> uuid \<Rightarrow> Question list \<Rightarrow> ('r, 'e, 'x) world \<Rightarrow>
   ('r, 'e, 'x) world \<times> Question list" where
  "both_players_stage s req p1 p2 result w =
     (let (w, unseenByBoth, dup1Count, dup2Count) = checkBothPlayersHistory s p1 p2 (map q_ID result) w;
          maxDup = (if dup1Count < dup2Count then dup2Count else dup1Count)
      in if 3 < maxDup then
           let filtered = dedup_unseen (set unseenByBoth) {} result;
               needed = pr_TotalQuestions req - int (length filtered)
           in if 0 < needed
              then (case fetchAIMixed s (pr_Category req) (at_least_one req (proportional_needs req needed))
                           (pr_Seed req @ ''-unique'') w of
                      (w, Inl e) \<Rightarrow> (w, filtered)
                    | (w, Inr additionalQs) \<Rightarrow>
                        add_unseen_both s p1 p2 (pr_TotalQuestions req) filtered (q_ID ` set filtered)
                          additionalQs w)
              else (w, result)
         else if 0 < maxDup then allow_some s req unseenByBoth maxDup result w
         else (w, result))"

text \<open>The older branch for one user.\<close>

fun add_unseen_one ::
  "('r, 'e, 'x) QService \<Rightarrow> uuid \<Rightarrow> int \<Rightarrow> Question list \<Rightarrow> string set \<Rightarrow> Question list \<Rightarrow>
   ('r, 'e, 'x) world \<Rightarrow> ('r, 'e, 'x) world \<times> Question list" where
  "add_unseen_one s u tot filtered seen [] w = (w, filtered)"
| "add_unseen_one s u tot filtered seen (q # qs) w =
     (let (w, unseen, _) = checkUserQuestionHistory s u [q_ID q] w
      in if unseen \<noteq> [] \<and> q_ID q \<notin> seen \<and> int (length filtered) < tot
         then add_unseen_one s u tot (filtered @ [q]) (insert (q_ID q) seen) qs w
         else add_unseen_one s u tot filtered seen qs w)"

definition one_player_stage ::
  "('r, 'e, 'x) QService \<Rightarrow> PackRequest \<Rightarrow> uuid \<Rightarrow> Question list \<Rightarrow> ('r, 'e, 'x) world \<Rightarrow>
   ('r, 'e, 'x) world \<times> Question list" where
  "one_player_stage s req u result w =
     (let (w, unseenIDs, duplicateCount) = checkUserQuestionHistory s u (map q_ID result) w
      in if 3 < duplicateCount then
           let filtered = filter (\<lambda>q. q_ID q \<in> set unseenIDs) result;
               needed = pr_TotalQuestions req - int (length filtered)
           in if 0 < needed
              then (case fetchAIMixed s (pr_Category req) (proportional_needs req needed)
                           (pr_Seed req @ ''-unique'') w of
                      (w, Inl e) \<Rightarrow> (w, filtered)
                    | (w, Inr additionalQs) \<Rightarrow>
                        add_unseen_one s u (pr_TotalQuestions req) filtered (q_ID ` set filtered) additionalQs w)
              else (w, result)
         else if 0 < duplicateCount then allow_some s req unseenIDs duplicateCount result w
         else (w, result))"

definition insufficient :: string where "insufficient = ''insufficient questions''"
definition insufficient_unique :: string where
  "insufficient_unique = ''insufficient unique questions after filtering''"

definition panic_makeslice :: err where
  "panic_makeslice = ''panic: runtime error: makeslice: cap out of range''"

text \<open>Stage 5 with its two cases; other requests pass through.\<close>

definition history_stage ::
  "('r, 'e, 'x) QService \<Rightarrow> PackRequest \<Rightarrow> Question list \<Rightarrow> ('r, 'e, 'x) world \<Rightarrow>
   ('r, 'e, 'x) world \<times> Question list res" where
  "history_stage s req result w =
     (case (if pr_MatchMode req = ''random_1v1'' then pr_UserIDs req else []) of
        Some p1 # Some p2 # _ \<Rightarrow>
          (let (w, result) = both_players_stage s req p1 p2 result w
           in (w, exactly insufficient_unique (pr_TotalQuestions req) result))
      | _ \<Rightarrow>
          (case (if pr_MatchMode req = ''random_1v1'' then pr_UserID req else None) of
             Some u \<Rightarrow>
               if u = uuid_Nil then (w, Inr result)
               else (let (w, result) = one_player_stage s req u result w
                     in (w, exactly insufficient_unique (pr_TotalQuestions req) result))
           | None \<Rightarrow> (w, Inr result)))"

definition build_pack ::
  "('r, 'e, 'x) QService \<Rightarrow> PackRequest \<Rightarrow> ('r, 'e, 'x) world \<Rightarrow> ('r, 'e, 'x) world \<times> Question list res" where
  "build_pack s req w =
     (case curated_loop s (pr_Category req) (pr_DifficultyCounts req) w of
        (w, Inl e) \<Rightarrow> (w, Inl e)
      | (w, Inr (result, remainingNeeds)) \<Rightarrow>
          (case ai_stage s req remainingNeeds result w of
             (w, Inl e) \<Rightarrow> (w, Inl e)
           | (w, Inr result) \<Rightarrow>
               (case within_match_stage s req result w of
                  (w, result) \<Rightarrow>
                    (case exactly insufficient (pr_TotalQuestions req) result of
                       Inl e \<Rightarrow> (w, Inl e)
                     | Inr result \<Rightarrow> history_stage s req result w))))"

definition FetchPack ::
  "('r, 'e, 'x) QService \<Rightarrow> PackRequest \<Rightarrow> ('r, 'e, 'x) world \<Rightarrow> ('r, 'e, 'x) world \<times> PackResponse res" where
  "FetchPack s req w =
     (case pc_Get (qs_cache s) req w of
        (w, Inr (Some cached)) \<Rightarrow> (w, Inr cached)
      | (w, _) \<Rightarrow>
          if pr_TotalQuestions req < 0 then (w, Inl panic_makeslice)
          else
            case build_pack s req w of
              (w, Inl e) \<Rightarrow> (w, Inl e)
            | (w, Inr result) \<Rightarrow>
                let (w, now) = on_ext (qs_now s) w;
                    resp = \<lparr>resp_Questions = result, resp_Seed = pr_Seed req,
                            resp_ExpiresAt = (now + 600 * second) div second\<rparr>;
                    (w, _) = pc_Set (qs_cache s) req resp w
                in (w, Inr resp))"

subsection \<open>The prefetch worker (worker.go)\<close>

definition pickFirstDifficulty :: "counts \<Rightarrow> string" where
  "pickFirstDifficulty m = (case m of [] \<Rightarrow> DifficultyEasy | (diff, _) # _ \<Rightarrow> diff)"

definition worker_handle ::
  "('r, 'e, 'x) QService \<Rightarrow> PackRequest \<Rightarrow> ('r, 'e, 'x) world \<Rightarrow> ('r, 'e, 'x) world" where
  "worker_handle s req w =
     (case FetchPack s req w of
        (w, Inr _) \<Rightarrow> w
      | (w, Inl err) \<Rightarrow>
          (case qs_ai s of
             None \<Rightarrow> w
           | Some ai \<Rightarrow>
               fst (on_ext (ai_EnqueuePack ai
                 \<lparr>ag_Category = pr_Category req,
                  ag_Difficulty = pickFirstDifficulty (pr_DifficultyCounts req),
                  ag_Count = pr_TotalQuestions req, ag_Seed = pr_Seed req, ag_DifficultyCounts = []\<rparr>) w)))"

text \<open>\<open>Run\<close>: the requests of the queue one after the other, until the worker is stopped.\<close>

fun worker_run :: "('r, 'e, 'x) QService \<Rightarrow> PackRequest list \<Rightarrow> ('r, 'e, 'x) world \<Rightarrow> ('r, 'e, 'x) world" where
  "worker_run s [] w = w"
| "worker_run s (req # reqs) w = worker_run s reqs (worker_handle s req w)"

subsection \<open>Size of a pack\<close>

lemma exactly_Inr: "exactly what n qs = Inr qs' \<Longrightarrow> 0 \<le> n \<Longrightarrow> int (length qs') = n"
  by (auto simp: exactly_def split: if_splits)

lemma exactly_Inl: "exactly what n qs = Inl e \<longleftrightarrow> int (length qs) < n \<and> e = need_got what n (length qs)"
  by (auto simp: exactly_def)

lemma history_stage_size:
  assumes "history_stage s req result w = (w', Inr qs)" "int (length result) = pr_TotalQuestions req"
  shows "int (length qs) = pr_TotalQuestions req"
proof -
  have n: "0 \<le> pr_TotalQuestions req" using assms(2) by linarith
  from assms show ?thesis
    unfolding history_stage_def
    by (auto dest: exactly_Inr [OF _ n] split: list.splits option.splits if_splits prod.splits)
qed

lemma build_pack_size:
  assumes "build_pack s req w = (w', Inr qs)" "0 \<le> pr_TotalQuestions req"
  shows "int (length qs) = pr_TotalQuestions req"
  using assms unfolding build_pack_def
  by (auto dest!: exactly_Inr [OF _ assms(2)] dest: history_stage_size split: prod.splits sum.splits)

lemma FetchPack_miss:
  assumes "pc_Get (qs_cache s) req w = (w0, Inr None)" "0 \<le> pr_TotalQuestions req"
    "build_pack s req w0 = (w1, Inr qs)"
  shows "\<exists>w' resp. FetchPack s req w = (w', Inr resp) \<and> resp_Questions resp = qs"
  using assms by (simp add: FetchPack_def Let_def split: prod.splits)

subsection \<open>Repeats within a match\<close>

lemma dup_loop_set: "set (fst (dup_loop seen ids)) = set ids - seen"
  by (induction ids arbitrary: seen) auto

lemma dup_loop_distinct: "distinct (fst (dup_loop seen ids)) "
  by (induction ids arbitrary: seen) (auto simp: dup_loop_set)

lemma dup_loop_flag: "snd (dup_loop seen ids) \<longleftrightarrow> \<not> (distinct ids \<and> set ids \<inter> seen = {})"
  by (induction ids arbitrary: seen) auto

lemma checkWithinMatchDuplicates_spec:
  "set (fst (checkWithinMatchDuplicates ids)) = set ids"
  "distinct (fst (checkWithinMatchDuplicates ids))"
  "snd (checkWithinMatchDuplicates ids) \<longleftrightarrow> \<not> distinct ids"
  by (simp_all add: checkWithinMatchDuplicates_def dup_loop_set dup_loop_distinct dup_loop_flag)

text \<open>The filter asks for ids that occur in the list of unique ids: all of them do.\<close>

lemma filter_unique_ids: "filter (\<lambda>q. q_ID q \<in> set (fst (checkWithinMatchDuplicates (map q_ID qs)))) qs = qs"
  by (simp add: checkWithinMatchDuplicates_spec filter_id_conv)

lemma within_match_stage_id:
  "pr_TotalQuestions req \<le> int (length result) \<Longrightarrow> within_match_stage s req result w = (w, result)"
  using filter_unique_ids [of result]
  by (auto simp: within_match_stage_def split: prod.splits)

lemma add_new_prefix: "\<exists>rest. add_new n filtered seen qs = filtered @ rest"
  by (induction n filtered seen qs rule: add_new.induct) auto

lemma within_match_stage_keeps: "within_match_stage s req result w = (w', qs) \<Longrightarrow> \<exists>rest. qs = result @ rest"
  using filter_unique_ids [of result] add_new_prefix
  by (auto simp: within_match_stage_def Let_def split: prod.splits sum.splits if_splits)

subsection \<open>What the history answers mean\<close>

lemma map_pipe_cmds: "map f (pipe_cmds k1 k2 ids) = concat (map (\<lambda>i. [f (k1, i), f (k2, i)]) ids)"
  by (induction ids) auto

lemma both_loop_spec:
  "both_loop ids (concat (map (\<lambda>i. [P i, Q i]) ids)) =
     (filter (\<lambda>i. \<not> P i \<and> \<not> Q i) ids, int (length (filter P ids)), int (length (filter Q ids)))"
  by (induction ids) (auto simp: Let_def)

lemma length_filter_disjoint:
  "(\<And>x. x \<in> set xs \<Longrightarrow> \<not> (P x \<and> Q x)) \<Longrightarrow>
   length (filter (\<lambda>x. \<not> P x \<and> \<not> Q x) xs) + length (filter P xs) + length (filter Q xs) = length xs"
  by (induction xs) auto

definition seen_by :: "instant \<Rightarrow> table \<Rightarrow> string \<Rightarrow> string \<Rightarrow> bool" where
  "seen_by now t key i \<longleftrightarrow> (\<exists>xs. set_of (live now t key) = Some xs \<and> i \<in> set xs)"

context redis_server
begin

lemma pipe_answers:
  assumes "rc_PipeSIsMember rc r (pipe_cmds k1 k2 ids) = (r', Inr bs)"
  shows "bs = concat (map (\<lambda>i. [seen_by (clk r') (tab r) k1 i, seen_by (clk r') (tab r) k2 i]) ids)"
proof -
  let ?c = "pipe_cmds k1 k2 ids"
  from pipe_ok [OF assms] have "bs = map (\<lambda>(k, i). seen_by (clk r') (tab r) k i) ?c"
    by (intro nth_equalityI) (auto simp: seen_by_def split_beta)
  then show ?thesis by (simp add: map_pipe_cmds)
qed

end

lemma filter_ids: "map q_ID (filter (\<lambda>q. P (q_ID q)) qs) = filter P (map q_ID qs)"
  by (simp add: filter_map comp_def)

lemma length_filter_ids: "length (filter (\<lambda>q. q_ID q \<in> set (filter P (map q_ID qs))) qs) = length (filter P (map q_ID qs))"
proof -
  have "filter (\<lambda>q. q_ID q \<in> set (filter P (map q_ID qs))) qs = filter (\<lambda>q. P (q_ID q)) qs"
    by (auto intro!: filter_cong)
  then show ?thesis by (simp add: filter_map comp_def)
qed

lemma allow_some_none:
  assumes "maxDup < pr_TotalQuestions req - int (length (filter (\<lambda>q. q_ID q \<in> set unseen) result))"
  shows "allow_some s req unseen maxDup result w = (w, filter (\<lambda>q. q_ID q \<in> set unseen) result)"
  using assms by (simp add: allow_some_def Let_def)

text \<open>Both players have seen some of the questions, none of them the same: too few are left, and
  the branch that puts repeats back is not taken.\<close>

lemma both_players_disjoint:
  assumes R: "redis_server rc tab clk" and s: "qs_redis s = Some rc" and p: "p1 \<noteq> uuid_Nil" "p2 \<noteq> uuid_Nil"
    and ne: "qs \<noteq> []" and n: "int (length qs) = pr_TotalQuestions req"
    and pipe: "rc_PipeSIsMember rc (w_redis w) (pipe_cmds (history_key s p1) (history_key s p2) (map q_ID qs)) = (r', Inr bs)"
    and P: "\<And>i. P i = seen_by (clk r') (tab (w_redis w)) (history_key s p1) i"
    and Q: "\<And>i. Q i = seen_by (clk r') (tab (w_redis w)) (history_key s p2) i"
    and disj: "\<And>q. q \<in> set qs \<Longrightarrow> \<not> (P (q_ID q) \<and> Q (q_ID q))"
    and a: "length (filter P (map q_ID qs)) \<in> {1..3}" and b: "length (filter Q (map q_ID qs)) \<in> {1..3}"
  shows "\<exists>qs'. both_players_stage s req p1 p2 qs w = (w\<lparr>w_redis := r'\<rparr>, qs') \<and>
    length qs' + length (filter P (map q_ID qs)) + length (filter Q (map q_ID qs)) = length qs"
proof -
  let ?ids = "map q_ID qs" and ?U = "filter (\<lambda>i. \<not> P i \<and> \<not> Q i) (map q_ID qs)"
  have PQ: "P = seen_by (clk r') (tab (w_redis w)) (history_key s p1)"
    "Q = seen_by (clk r') (tab (w_redis w)) (history_key s p2)" using P Q by auto
  have "bs = concat (map (\<lambda>i. [P i, Q i]) ?ids)"
    using redis_server.pipe_answers [OF R pipe] by (simp add: PQ)
  then have both: "both_loop ?ids bs = (?U, int (length (filter P ?ids)), int (length (filter Q ?ids)))"
    by (simp only: both_loop_spec)
  have chk: "checkBothPlayersHistory s p1 p2 ?ids w =
      (w\<lparr>w_redis := r'\<rparr>, ?U, int (length (filter P ?ids)), int (length (filter Q ?ids)))"
    using s p ne pipe by (simp add: checkBothPlayersHistory_def on_redis_def both)
  have sum: "length ?U + length (filter P ?ids) + length (filter Q ?ids) = length ?ids"
    using disj by (intro length_filter_disjoint) auto
  let ?m = "if int (length (filter P ?ids)) < int (length (filter Q ?ids)) then int (length (filter Q ?ids))
      else int (length (filter P ?ids))"
  have m: "0 < ?m" "\<not> 3 < ?m" using a b by auto
  have len: "length (filter (\<lambda>q. q_ID q \<in> set ?U) qs) = length ?U" by (rule length_filter_ids)
  have "?m < pr_TotalQuestions req - int (length (filter (\<lambda>q. q_ID q \<in> set ?U) qs))"
    unfolding len using a b sum n by auto
  then have "both_players_stage s req p1 p2 qs w = (w\<lparr>w_redis := r'\<rparr>, filter (\<lambda>q. q_ID q \<in> set ?U) qs)"
    unfolding both_players_stage_def chk Let_def prod.case using m by (simp only: if_True if_False allow_some_none)
  with len sum show ?thesis by simp
qed

subsection \<open>Reading a cached pack\<close>

lemma cache_key_perm:
  assumes "pr_Category req' = pr_Category req" "pr_Seed req' = pr_Seed req"
    "pr_TotalQuestions req' = pr_TotalQuestions req"
    "mset (pr_DifficultyCounts req') = mset (pr_DifficultyCounts req)"
  shows "cache_key req' = cache_key req"
proof -
  let ?f = "\<lambda>(k, v). k @ '':'' @ show_int v"
  have "mset (map ?f (pr_DifficultyCounts req')) = mset (map ?f (pr_DifficultyCounts req))"
    using assms(4) by (simp add: mset_map)
  then have "sort (map ?f (pr_DifficultyCounts req')) = sort (map ?f (pr_DifficultyCounts req))"
    by (intro properties_for_sort) simp_all
  with assms(1-3) show ?thesis by (simp add: cache_key_def)
qed

lemma as_pack_Inr: "as_pack d = Inr p \<longleftrightarrow> d = DPack p"
  by (cases d) auto

lemma on_redis_run: "f (w_redis w) = (r', x) \<Longrightarrow> on_redis f w = (w\<lparr>w_redis := r'\<rparr>, x)"
  by (simp add: on_redis_def)

subsection \<open>What FetchPack leaves alone\<close>

text \<open>\<open>reads\<close>: nothing is written to Redis, nor to the tables of matches, players and users.\<close>

definition reads :: "('r \<Rightarrow> table) \<Rightarrow> ('r, 'e, 'x) world \<Rightarrow> ('r, 'e, 'x) world \<Rightarrow> bool" where
  "reads tab w w' \<longleftrightarrow> tab (w_redis w') = tab (w_redis w) \<and> db_matches (w_db w') = db_matches (w_db w) \<and>
     db_players (w_db w') = db_players (w_db w) \<and> db_users (w_db w') = db_users (w_db w) \<and>
     db_uuids (w_db w') = db_uuids (w_db w) \<and> db_drawn (w_db w') = db_drawn (w_db w)"

lemma reads_refl [simp]: "reads tab w w"
  by (simp add: reads_def)

lemma reads_trans: "reads tab w w1 \<Longrightarrow> reads tab w1 w2 \<Longrightarrow> reads tab w w2"
  by (simp add: reads_def)

lemma reads_ext: "on_ext f w = (w', x) \<Longrightarrow> reads tab w w'"
  by (auto simp: on_ext_def reads_def split: prod.splits)

lemma fetchCurated_reads: "fetchCurated s c diff n w = (w', x) \<Longrightarrow> reads tab w w'"
  by (auto simp: fetchCurated_def on_db_def reads_def GetQuestionPool_def stmt_def Let_def
      split: prod.splits option.splits if_splits sum.splits)

lemma curated_loop_reads: "curated_loop s c cs w = (w', x) \<Longrightarrow> reads tab w w'"
proof (induction cs arbitrary: w w' x)
  case (Cons dc cs)
  obtain diff cnt where dc: "dc = (diff, cnt)" by force
  obtain w1 y where f: "fetchCurated s c diff cnt w = (w1, y)" by force
  note r1 = fetchCurated_reads [OF f, of tab]
  show ?case
  proof (cases y)
    case (Inl e)
    with Cons.prems dc f r1 show ?thesis by simp
  next
    case (Inr qs)
    obtain w2 z where l: "curated_loop s c cs w1 = (w2, z)" by force
    from Cons.prems dc f Inr l have "w' = w2" by (auto simp: Let_def split: sum.splits prod.splits)
    with reads_trans [OF r1 Cons.IH [OF l]] show ?thesis by simp
  qed
qed simp

lemma fetchAIMixed_reads: "fetchAIMixed s c needs seed w = (w', x) \<Longrightarrow> reads tab w w'"
  by (auto simp: fetchAIMixed_def Let_def split: option.splits dest: reads_ext)

lemma ai_stage_reads: "ai_stage s req needs qs w = (w', x) \<Longrightarrow> reads tab w w'"
  by (auto simp: ai_stage_def split: prod.splits sum.splits if_splits dest: fetchAIMixed_reads)

lemma within_match_stage_reads: "within_match_stage s req qs w = (w', x) \<Longrightarrow> reads tab w w'"
  by (auto simp: within_match_stage_def Let_def split: prod.splits sum.splits if_splits dest: fetchAIMixed_reads)

definition history_client :: "('r, 'e, 'x) QService \<Rightarrow> ('r \<Rightarrow> table) \<Rightarrow> ('r \<Rightarrow> instant) \<Rightarrow> bool" where
  "history_client s tab clk \<longleftrightarrow> (case qs_redis s of None \<Rightarrow> True | Some rc \<Rightarrow> redis_server rc tab clk)"

lemma history_loop_tab:
  assumes "redis_server rc tab clk" "history_loop rc key is r = (r', x)"
  shows "tab r' = tab r"
  using assms(2)
proof (induction "is" arbitrary: r r' x)
  case (Cons i "is")
  obtain r1 y where m: "rc_SIsMember rc r key i = (r1, y)" by force
  obtain r2 z where l: "history_loop rc key is r1 = (r2, z)" by (rule prod.exhaust)
  from Cons.prems m l have "r' = r2" by (auto split: sum.splits prod.splits if_splits)
  with Cons.IH [OF l] redis_server.sismember_data [OF assms(1) m] show ?case by (simp add: same_data_def)
qed simp

lemma checkUserQuestionHistory_reads:
  "history_client s tab clk \<Longrightarrow> checkUserQuestionHistory s u ids w = (w', x) \<Longrightarrow> reads tab w w'"
  by (auto simp: checkUserQuestionHistory_def history_client_def on_redis_def reads_def
      split: option.splits if_splits prod.splits dest: history_loop_tab)

lemma checkBothPlayersHistory_reads:
  "history_client s tab clk \<Longrightarrow> checkBothPlayersHistory s p1 p2 ids w = (w', x) \<Longrightarrow> reads tab w w'"
  by (auto simp: checkBothPlayersHistory_def history_client_def on_redis_def reads_def same_data_def
      split: option.splits if_splits prod.splits sum.splits dest!: redis_server.pipe_data)

lemma add_unseen_both_reads:
  "history_client s tab clk \<Longrightarrow> add_unseen_both s p1 p2 n filtered seen qs w = (w', x) \<Longrightarrow> reads tab w w'"
proof (induction qs arbitrary: filtered seen w x)
  case (Cons q qs)
  obtain w1 y where c: "checkBothPlayersHistory s p1 p2 [q_ID q] w = (w1, y)" by (rule prod.exhaust)
  from Cons.prems c obtain f g where "add_unseen_both s p1 p2 n f g qs w1 = (w', x)"
    by (auto simp: Let_def split: prod.splits if_splits)
  with Cons.IH [OF Cons.prems(1)] reads_trans [OF checkBothPlayersHistory_reads [OF Cons.prems(1) c]] show ?case by blast
qed simp

lemma add_unseen_one_reads:
  "history_client s tab clk \<Longrightarrow> add_unseen_one s u n filtered seen qs w = (w', x) \<Longrightarrow> reads tab w w'"
proof (induction qs arbitrary: filtered seen w x)
  case (Cons q qs)
  obtain w1 y where c: "checkUserQuestionHistory s u [q_ID q] w = (w1, y)" by (rule prod.exhaust)
  from Cons.prems c obtain f g where "add_unseen_one s u n f g qs w1 = (w', x)"
    by (auto simp: Let_def split: prod.splits if_splits)
  with Cons.IH [OF Cons.prems(1)] reads_trans [OF checkUserQuestionHistory_reads [OF Cons.prems(1) c]] show ?case by blast
qed simp

lemma allow_some_reads: "allow_some s req unseen n qs w = (w', x) \<Longrightarrow> reads tab w w'"
  by (auto simp: allow_some_def Let_def split: prod.splits if_splits dest: reads_ext)

lemma both_players_stage_reads:
  assumes "history_client s tab clk" "both_players_stage s req p1 p2 qs w = (w', x)"
  shows "reads tab w w'"
proof -
  obtain w1 y where c: "checkBothPlayersHistory s p1 p2 (map q_ID qs) w = (w1, y)" by (rule prod.exhaust)
  have "reads tab w1 w'"
    using assms(2) c unfolding both_players_stage_def
    by (auto simp: Let_def split: prod.splits if_splits sum.splits dest: allow_some_reads fetchAIMixed_reads
        intro: reads_trans [OF fetchAIMixed_reads add_unseen_both_reads [OF assms(1)]])
  with checkBothPlayersHistory_reads [OF assms(1) c] show ?thesis by (rule reads_trans)
qed

lemma one_player_stage_reads:
  assumes "history_client s tab clk" "one_player_stage s req u qs w = (w', x)"
  shows "reads tab w w'"
proof -
  obtain w1 y where c: "checkUserQuestionHistory s u (map q_ID qs) w = (w1, y)" by (rule prod.exhaust)
  have "reads tab w1 w'"
    using assms(2) c unfolding one_player_stage_def
    by (auto simp: Let_def split: prod.splits if_splits sum.splits dest: allow_some_reads fetchAIMixed_reads
        intro: reads_trans [OF fetchAIMixed_reads add_unseen_one_reads [OF assms(1)]])
  with checkUserQuestionHistory_reads [OF assms(1) c] show ?thesis by (rule reads_trans)
qed

lemma history_stage_reads:
  "history_client s tab clk \<Longrightarrow> history_stage s req qs w = (w', x) \<Longrightarrow> reads tab w w'"
  unfolding history_stage_def
  by (auto simp: Let_def split: prod.splits if_splits list.splits option.splits
      dest: both_players_stage_reads one_player_stage_reads)

lemma build_pack_reads:
  assumes h: "history_client s tab clk" and b: "build_pack s req w = (w', x)"
  shows "reads tab w w'"
proof -
  obtain w1 y where c: "curated_loop s (pr_Category req) (pr_DifficultyCounts req) w = (w1, y)" by force
  note r1 = curated_loop_reads [OF c, of tab]
  show ?thesis
  proof (cases y)
    case (Inl e)
    with b c r1 show ?thesis by (simp add: build_pack_def)
  next
    case (Inr p)
    obtain qs needs where p: "p = (qs, needs)" by force
    obtain w2 z where a: "ai_stage s req needs qs w1 = (w2, z)" by force
    note r2 = reads_trans [OF r1 ai_stage_reads [OF a]]
    show ?thesis
    proof (cases z)
      case (Inl e)
      with b c Inr p a r2 show ?thesis by (simp add: build_pack_def)
    next
      case (Inr qs2)
      obtain w3 qs3 where d: "within_match_stage s req qs2 w2 = (w3, qs3)" by force
      note r3 = reads_trans [OF r2 within_match_stage_reads [OF d]]
      from b c \<open>y = Inr p\<close> p a Inr d have "w' = w3 \<or> (\<exists>qs4. history_stage s req qs4 w3 = (w', x))"
        by (auto simp: build_pack_def split: sum.splits)
      with r3 history_stage_reads [OF h] reads_trans show ?thesis by metis
    qed
  qed
qed

text \<open>With the Redis cache, only the key of the pack is written, and only with a pack.\<close>

definition pack_written :: "string \<Rightarrow> table \<Rightarrow> table \<Rightarrow> bool" where
  "pack_written key t t' \<longleftrightarrow> t' = t \<or> (\<exists>p dl. t' = t(key \<mapsto> (DPack p, Some dl)))"

lemma FetchPack_frame:
  assumes h: "history_client s tab clk" and c: "qs_cache s = redis_cache c" "redis_server (ca_client c) tab clk"
    and f: "FetchPack s req w = (w', x)"
  shows "pack_written (cache_key req) (tab (w_redis w)) (tab (w_redis w')) \<and> db_matches (w_db w') = db_matches (w_db w) \<and>
     db_players (w_db w') = db_players (w_db w) \<and> db_users (w_db w') = db_users (w_db w)"
proof -
  obtain w1 y where g: "Cache_Get c req w = (w1, y)" by force
  have r1: "reads tab w w1" using g redis_server.get_data [OF c(2)]
    by (auto simp: Cache_Get_def on_redis_def reads_def same_data_def split: prod.splits reply.splits)
  have *: ?thesis if "reads tab w w2" "pack_written (cache_key req) (tab (w_redis w2)) (tab (w_redis w'))"
    "w_db w' = w_db w2" for w2
    using that by (simp add: reads_def)
  show ?thesis
  proof (cases "(\<exists>p. y = Inr (Some p)) \<or> pr_TotalQuestions req < 0")
    case True
    with f g c(1) have "w' = w1" by (auto simp: FetchPack_def redis_cache_def split: sum.splits option.splits)
    with r1 * [of w1] show ?thesis by (simp add: pack_written_def)
  next
    case False
    obtain w2 z where b: "build_pack s req w1 = (w2, z)" by force
    note r2 = reads_trans [OF r1 build_pack_reads [OF h b]]
    from False f g c(1) b have f': "(case z of Inl e \<Rightarrow> (w2, Inl e) | Inr result \<Rightarrow>
                let (w, now) = on_ext (qs_now s) w2;
                    resp = \<lparr>resp_Questions = result, resp_Seed = pr_Seed req,
                            resp_ExpiresAt = (now + 600 * second) div second\<rparr>;
                    (w, _) = pc_Set (qs_cache s) req resp w
                in (w, Inr resp)) = (w', x)"
      by (auto simp: FetchPack_def redis_cache_def split: sum.splits option.splits)
    show ?thesis
    proof (cases z)
      case (Inl e)
      with f' r2 * [of w2] show ?thesis by (simp add: pack_written_def)
    next
      case (Inr qs)
      obtain w3 now where n: "on_ext (qs_now s) w2 = (w3, now)" by force
      with f' Inr c(1) obtain resp y where st: "Cache_Set c req resp w3 = (w', y)"
        by (auto simp: Let_def redis_cache_def split: prod.splits)
      obtain r' where r': "rc_Set (ca_client c) (w_redis w3) (cache_key req) (DPack resp) (ca_ttl c) = (r', y)" "w' = w3\<lparr>w_redis := r'\<rparr>"
        using st by (auto simp: Cache_Set_def on_redis_def split: prod.splits)
      have "pack_written (cache_key req) (tab (w_redis w3)) (tab r')"
        using redis_server.set_ok [OF c(2), of "w_redis w3"] redis_server.set_err [OF c(2), of "w_redis w3"] r'(1)
        by (cases y) (fastforce simp: pack_written_def becomes_def same_data_def)+
      with r'(2) * [OF reads_trans [OF r2 reads_ext [OF n]]] show ?thesis by simp
    qed
  qed
qed

subsection \<open>Properties\<close>

definition ex_service :: "(mem, unit, unit) QService" where
  "ex_service = \<lparr>qs_cache = redis_cache (NewCache mem_client 0), qs_ai = None, qs_redis = Some mem_client,
     qs_hmacKey = [], qs_hmac = (\<lambda>k m. m), qs_us = dec_us, qs_now = (\<lambda>x. (x, 0)), qs_order = (\<lambda>x. (x, id))\<rparr>"

definition ex_world :: "table \<Rightarrow> (mem, unit, unit) world" where
  "ex_world t = \<lparr>w_redis = ex_mem\<lparr>mem_tab := t\<rparr>, w_db = ex_db, w_ext = ()\<rparr>"

definition ex_pack_req :: "string \<Rightarrow> counts \<Rightarrow> PackRequest" where
  "ex_pack_req mode cs = \<lparr>pr_Category = ''c'', pr_DifficultyCounts = cs, pr_TotalQuestions = 2, pr_Seed = ''s'',
     pr_PerQuestionSeconds = 15, pr_UserID = None, pr_UserIDs = [Some 1, Some 2], pr_MatchMode = mode\<rparr>"

definition ex_hist :: table where
  "ex_hist = [''user:questions:1'' \<mapsto> (DSet [''11''], None), ''user:questions:2'' \<mapsto> (DSet [''12''], None)]"

lemma dec_us_small: "dec_us 1 = ''1''" "dec_us 2 = ''2''" "dec_us 11 = ''11''" "dec_us 12 = ''12''"
proof -
  have "digit 1 = CHR ''1''" "digit 2 = CHR ''2''" by (simp_all add: digit_def) (code_simp+)
  then show "dec_us 1 = ''1''" "dec_us 2 = ''2''" "dec_us 11 = ''11''" "dec_us 12 = ''12''"
    by (simp_all add: dec_us_def show_nat.simps)
qed

lemmas ex_eval = ex_service_def ex_world_def ex_pack_req_def redis_cache_def NewCache_def Cache_Get_def
  Cache_Set_def on_redis_def on_db_def on_ext_def fetchCurated_def GetQuestionPool_def stmt_def db_error_def
  db_next_def ex_db_def List.map_filter_simps ex_question_def toDomain_def uuidFrom_def signToken_def
  to_int32_id dec_us_small

lemma ex_miss: "t (cache_key req) = None \<Longrightarrow> \<exists>r. pc_Get (qs_cache ex_service) req (ex_world t)
    = (ex_world t\<lparr>w_redis := r\<rparr>, Inr None) \<and> mem_tab r = t \<and> mem_faults r = [] \<and> mem_clk r = 5 \<and> mem_lat r = 5"
  by (simp add: ex_eval mem_client_def mem_next_def mem_fault_def ex_mem_def live_def)

definition ex_q :: "string \<Rightarrow> Question" where
  "ex_q i = \<lparr>q_ID = i, q_Prompt = ''p'', q_Options = [''a'', ''b''], q_Answer = ''a'', q_Source = ''curated'', q_Token = i\<rparr>"

lemma ex_curated_twice:
  "\<exists>w1. curated_loop ex_service c [(''easy'', 1), (''hard'', 1)] (ex_world t\<lparr>w_redis := r\<rparr>)
     = (w1, Inr ([ex_q ''12'', ex_q ''12''], [])) \<and> w_redis w1 = r"
  by (simp add: ex_eval Let_def ex_q_def)

lemma ex_curated_both:
  "\<exists>w1. curated_loop ex_service c [(''easy'', 2)] (ex_world t\<lparr>w_redis := r\<rparr>)
     = (w1, Inr ([ex_q ''12'', ex_q ''11''], [])) \<and> w_redis w1 = r"
  by (simp add: ex_eval Let_def ex_q_def)

text \<open>C17: A pack that is not served from the cache has exactly the requested number of questions,
  on every path: curated questions, the generator, the history filters and the regenerated
  questions included.\<close>

theorem fetched_pack_has_requested_size:
  assumes "pc_Get (qs_cache s) req w = (w0, cached)" "\<forall>r. cached \<noteq> Inr (Some r)"
    and "FetchPack s req w = (w', Inr resp)"
  shows "int (length (resp_Questions resp)) = pr_TotalQuestions req \<and> resp_Seed resp = pr_Seed req"
  using assms
  by (auto simp: FetchPack_def Let_def not_less dest: build_pack_size split: prod.splits sum.splits option.splits if_splits)

theorem fetched_pack_has_requested_size_witness:
  "\<exists>w' resp. FetchPack ex_service (ex_pack_req ''private_room'' [(''easy'', 2)]) (ex_world Map.empty) = (w', Inr resp) \<and>
     int (length (resp_Questions resp)) = 2"
proof -
  let ?req = "ex_pack_req ''private_room'' [(''easy'', 2)]"
  obtain r where miss: "pc_Get (qs_cache ex_service) ?req (ex_world Map.empty) = (ex_world Map.empty\<lparr>w_redis := r\<rparr>, Inr None)"
    using ex_miss [of Map.empty ?req] by auto
  obtain w1 where "curated_loop ex_service ''c'' [(''easy'', 2)] (ex_world Map.empty\<lparr>w_redis := r\<rparr>)
      = (w1, Inr ([ex_q ''12'', ex_q ''11''], []))" using ex_curated_both by blast
  then have "build_pack ex_service ?req (ex_world Map.empty\<lparr>w_redis := r\<rparr>) = (w1, Inr [ex_q ''12'', ex_q ''11''])"
    by (simp add: build_pack_def ai_stage_def within_match_stage_id history_stage_def exactly_def ex_pack_req_def)
  then obtain w' resp where f: "FetchPack ex_service ?req (ex_world Map.empty) = (w', Inr resp)"
    using FetchPack_miss [OF miss] by (auto simp: ex_pack_req_def)
  from fetched_pack_has_requested_size [OF miss _ f] f show ?thesis by (simp add: ex_pack_req_def)
qed

text \<open>The filter against questions that occur twice within a match removes nothing. When the
  curated questions fill the request, a private match gets them as they were drawn, once per
  difficulty from the same table, with all repetitions.\<close>

theorem repeats_within_a_match_survive:
  assumes "pc_Get (qs_cache s) req w = (w0, Inr None)" "pr_MatchMode req \<noteq> ''random_1v1''"
    and "curated_loop s (pr_Category req) (pr_DifficultyCounts req) w0 = (w1, Inr (qs, []))"
    and "0 \<le> pr_TotalQuestions req" "pr_TotalQuestions req \<le> int (length qs)"
  shows "\<exists>w' resp. FetchPack s req w = (w', Inr resp) \<and> resp_Questions resp = take (nat (pr_TotalQuestions req)) qs"
proof -
  have "exactly insufficient (pr_TotalQuestions req) qs = Inr (take (nat (pr_TotalQuestions req)) qs)"
    using assms(5) by (simp add: exactly_def)
  with assms have "build_pack s req w0 = (w1, Inr (take (nat (pr_TotalQuestions req)) qs))"
    by (simp add: build_pack_def ai_stage_def within_match_stage_id history_stage_def)
  with assms(1,4) show ?thesis by (intro FetchPack_miss)
qed

theorem repeats_within_a_match_survive_witness:
  "\<exists>w' resp. FetchPack ex_service (ex_pack_req ''private_room'' [(''easy'', 1), (''hard'', 1)]) (ex_world Map.empty)
     = (w', Inr resp) \<and> map q_ID (resp_Questions resp) = [''12'', ''12'']"
proof -
  let ?req = "ex_pack_req ''private_room'' [(''easy'', 1), (''hard'', 1)]"
  obtain r where miss: "pc_Get (qs_cache ex_service) ?req (ex_world Map.empty) = (ex_world Map.empty\<lparr>w_redis := r\<rparr>, Inr None)"
    using ex_miss [of Map.empty ?req] by auto
  obtain w1 where cur: "curated_loop ex_service (pr_Category ?req) (pr_DifficultyCounts ?req) (ex_world Map.empty\<lparr>w_redis := r\<rparr>)
      = (w1, Inr ([ex_q ''12'', ex_q ''12''], []))" using ex_curated_twice [of "''c''" r Map.empty]
    by (auto simp: ex_pack_req_def simp del: curated_loop.simps)
  have h: "pr_MatchMode ?req \<noteq> ''random_1v1''" "0 \<le> pr_TotalQuestions ?req"
    "pr_TotalQuestions ?req \<le> int (length [ex_q ''12'', ex_q ''12''])" by (simp_all add: ex_pack_req_def)
  obtain w' resp where "FetchPack ex_service ?req (ex_world Map.empty) = (w', Inr resp)"
    "resp_Questions resp = take (nat (pr_TotalQuestions ?req)) [ex_q ''12'', ex_q ''12'']"
    using repeats_within_a_match_survive [OF miss h(1) cur h(2,3)] by blast
  then show ?thesis by (simp add: ex_pack_req_def ex_q_def)
qed

text \<open>In a random match, when each player has already seen between one and three of the drawn
  questions (the number of repeats the code means to allow) but not the same ones, the filtered
  pack is not filled up again: FetchPack fails with too few unique questions and the match cannot
  be created.\<close>

theorem different_repeats_reject_the_pack:
  assumes "redis_server rc tab clk" "qs_redis s = Some rc" "p1 \<noteq> uuid_Nil" "p2 \<noteq> uuid_Nil"
    and "pr_MatchMode req = ''random_1v1''" "pr_UserIDs req = [Some p1, Some p2]"
    and "pc_Get (qs_cache s) req w = (w0, Inr None)"
    and "curated_loop s (pr_Category req) (pr_DifficultyCounts req) w0 = (w1, Inr (qs, []))"
    and "int (length qs) = pr_TotalQuestions req"
    and "rc_PipeSIsMember rc (w_redis w1) (pipe_cmds (history_key s p1) (history_key s p2) (map q_ID qs)) = (r', Inr bs)"
    and "P = seen_by (clk r') (tab (w_redis w1)) (history_key s p1)"
    and "Q = seen_by (clk r') (tab (w_redis w1)) (history_key s p2)"
    and "\<forall>q \<in> set qs. \<not> (P (q_ID q) \<and> Q (q_ID q))"
    and "length (filter P (map q_ID qs)) \<in> {1..3}" "length (filter Q (map q_ID qs)) \<in> {1..3}"
  shows "\<exists>w' got. FetchPack s req w = (w', Inl (need_got insufficient_unique (pr_TotalQuestions req) got)) \<and>
    got + length (filter P (map q_ID qs)) + length (filter Q (map q_ID qs)) = length qs"
proof -
  have ne: "qs \<noteq> []" using assms(14) by auto
  obtain qs' where st: "both_players_stage s req p1 p2 qs w1 = (w1\<lparr>w_redis := r'\<rparr>, qs')"
    and got: "length qs' + length (filter P (map q_ID qs)) + length (filter Q (map q_ID qs)) = length qs"
    using both_players_disjoint [OF assms(1-4) ne assms(9,10), of P Q] assms(11-15) by auto
  have all: "exactly insufficient (pr_TotalQuestions req) qs = Inr qs" using assms(9) by (simp add: exactly_def)
  have few: "exactly insufficient_unique (pr_TotalQuestions req) qs'
      = Inl (need_got insufficient_unique (pr_TotalQuestions req) (length qs'))"
    using got assms(9,14,15) by (simp add: exactly_def)
  have "within_match_stage s req qs w1 = (w1, qs)" using assms(9) by (intro within_match_stage_id) simp
  with assms(5,6,8) st all few have "build_pack s req w0 = (w1\<lparr>w_redis := r'\<rparr>,
      Inl (need_got insufficient_unique (pr_TotalQuestions req) (length qs')))"
    by (simp add: build_pack_def ai_stage_def history_stage_def)
  with assms(7,9) got show ?thesis by (auto simp: FetchPack_def)
qed

theorem different_repeats_reject_the_pack_witness:
  "\<exists>w'. FetchPack ex_service (ex_pack_req ''random_1v1'' [(''easy'', 2)]) (ex_world ex_hist)
     = (w', Inl (need_got insufficient_unique 2 0))"
proof -
  let ?req = "ex_pack_req ''random_1v1'' [(''easy'', 2)]" and ?qs = "[ex_q ''12'', ex_q ''11'']"
  have "ex_hist (cache_key ?req) = None"
    by (simp add: ex_hist_def cache_key_def)
  then obtain r where miss: "pc_Get (qs_cache ex_service) ?req (ex_world ex_hist) = (ex_world ex_hist\<lparr>w_redis := r\<rparr>, Inr None)"
    and r: "mem_tab r = ex_hist" "mem_faults r = []" using ex_miss [of ex_hist ?req] by auto
  obtain w1 where cur: "curated_loop ex_service (pr_Category ?req) (pr_DifficultyCounts ?req) (ex_world ex_hist\<lparr>w_redis := r\<rparr>)
      = (w1, Inr (?qs, []))" and w1: "w_redis w1 = r" using ex_curated_both [of "''c''" r ex_hist]
    by (auto simp: ex_pack_req_def simp del: curated_loop.simps)
  have key: "history_key ex_service 1 = ''user:questions:1''" "history_key ex_service 2 = ''user:questions:2''"
    by (simp_all add: history_key_def ex_service_def dec_us_small)
  have lv: "set_of (live now ex_hist ''user:questions:1'') = Some [''11'']"
    "set_of (live now ex_hist ''user:questions:2'') = Some [''12'']" for now
    by (simp_all add: ex_hist_def live_def set_of_def)
  obtain r' bs where pipe: "rc_PipeSIsMember mem_client (w_redis w1) (pipe_cmds (history_key ex_service 1)
      (history_key ex_service 2) (map q_ID ?qs)) = (r', Inr bs)"
    using r by (simp add: mem_client_def mem_read_def mem_fault_def w1 key ex_q_def lv Let_def)
  let ?P = "seen_by (mem_clk r') (mem_tab (w_redis w1)) (history_key ex_service 1)"
  let ?Q = "seen_by (mem_clk r') (mem_tab (w_redis w1)) (history_key ex_service 2)"
  have PQ: "?P = (\<lambda>i. i = ''11'')" "?Q = (\<lambda>i. i = ''12'')" by (auto simp: seen_by_def w1 r key lv)
  have h: "qs_redis ex_service = Some mem_client" "(1::uuid) \<noteq> uuid_Nil" "(2::uuid) \<noteq> uuid_Nil"
    "pr_MatchMode ?req = ''random_1v1''" "pr_UserIDs ?req = [Some 1, Some 2]"
    "int (length ?qs) = pr_TotalQuestions ?req"
    "\<forall>q \<in> set ?qs. \<not> (?P (q_ID q) \<and> ?Q (q_ID q))"
    "length (filter ?P (map q_ID ?qs)) \<in> {1..3}" "length (filter ?Q (map q_ID ?qs)) \<in> {1..3}"
    unfolding PQ by (simp_all add: ex_service_def ex_pack_req_def ex_q_def)
  have n: "length (filter ?P (map q_ID ?qs)) = 1" "length (filter ?Q (map q_ID ?qs)) = 1"
    unfolding PQ by (simp_all add: ex_q_def)
  show ?thesis
    using different_repeats_reject_the_pack [OF mem.redis_server_axioms h(1-5) miss cur h(6) pipe refl refl h(7-9)]
    unfolding n by (simp add: ex_pack_req_def)
qed

text \<open>C30: Once a pack has been stored for a request, another request with the same category, seed
  and size gets this pack back, whatever order the entries of its difficulty map come in, without
  a query to the database or the generator, until the time to live is over or the read fails.\<close>

theorem cached_pack_is_returned:
  assumes "redis_server rc tab clk" "qs_cache s = redis_cache (NewCache rc ttl)"
    and "Cache_Set (NewCache rc ttl) req resp w = (w1, None)"
    and "pr_Category req' = pr_Category req" "pr_Seed req' = pr_Seed req"
    and "pr_TotalQuestions req' = pr_TotalQuestions req"
    and "mset (pr_DifficultyCounts req') = mset (pr_DifficultyCounts req)"
    and "rc_Get rc (w_redis w1) (cache_key req') = (r', x)" "\<forall>e. x \<noteq> RErr e"
    and "clk r' < clk (w_redis w1) + ca_ttl (NewCache rc ttl)"
  shows "FetchPack s req' w1 = (w1\<lparr>w_redis := r'\<rparr>, Inr resp)"
proof -
  have key: "cache_key req' = cache_key req" using assms(4-7) by (rule cache_key_perm)
  from assms(3) have "rc_Set rc (w_redis w) (cache_key req) (DPack resp) (ca_ttl (NewCache rc ttl)) = (w_redis w1, None)"
    by (auto simp: Cache_Set_def on_redis_def NewCache_def split: prod.splits)
  from redis_server.set_ok [OF assms(1) this] have
    "live (clk r') (tab (w_redis w1)) (cache_key req') = Some (DPack resp)"
    using assms(10) by (simp add: becomes_def key)
  with assms(8,9) redis_server.get_val [OF assms(1), of "w_redis w1" "cache_key req'" r']
    redis_server.get_nil [OF assms(1), of "w_redis w1" "cache_key req'" r']
  have "x = RVal (DPack resp)" by (cases x) auto
  then show ?thesis
    using assms(2,8) by (simp add: FetchPack_def redis_cache_def Cache_Get_def on_redis_def NewCache_def)
qed

theorem cached_pack_is_returned_witness:
  "\<exists>w1 r'. FetchPack ex_service (ex_pack_req ''private_room'' [(''hard'', 1), (''easy'', 1)]) w1
     = (w1\<lparr>w_redis := r'\<rparr>, Inr \<lparr>resp_Questions = [], resp_Seed = ''s'', resp_ExpiresAt = 0\<rparr>)"
proof -
  let ?req = "ex_pack_req ''private_room'' [(''easy'', 1), (''hard'', 1)]"
  let ?req' = "ex_pack_req ''private_room'' [(''hard'', 1), (''easy'', 1)]"
  let ?resp = "\<lparr>resp_Questions = [], resp_Seed = ''s'', resp_ExpiresAt = 0\<rparr>"
  obtain w1 where put: "Cache_Set (NewCache mem_client 0) ?req ?resp (ex_world Map.empty) = (w1, None)"
    and c: "mem_clk (w_redis w1) = 5" "mem_lat (w_redis w1) = 5" "mem_faults (w_redis w1) = []"
    by (simp add: ex_eval mem_client_def mem_write_def mem_next_def mem_fault_def ex_mem_def Let_def)
  obtain r' x where get: "rc_Get mem_client (w_redis w1) (cache_key ?req') = (r', x)" by force
  with c have "\<forall>e. x \<noteq> RErr e" "mem_clk r' < mem_clk (w_redis w1) + ca_ttl (NewCache mem_client 0)"
    by (auto simp: mem_client_def mem_fault_def Let_def NewCache_def defaultCacheTTL_def split: option.splits)
  from cached_pack_is_returned [OF mem.redis_server_axioms _ put _ _ _ _ get this, of ex_service]
  show ?thesis by (auto simp: ex_service_def ex_pack_req_def)
qed

end
