(* ===== verification/Leaderboard.thy ===== *)
theory Leaderboard
  imports Questions Messages HttpErrors
begin

section \<open>Leaderboards (internal/leaderboard)\<close>

text \<open>
  \<open>Service\<close> of \<open>service.go\<close> on Redis sorted sets and hashes, the conversion of \<open>helpers.go\<close>,
  the REST handlers of \<open>http.go\<close>, the snapshot worker of \<open>worker.go\<close> and the forwarding of
  \<open>subscriber.go\<close>. \<open>us\<close> and \<open>mp\<close> are \<open>uuid.String\<close> and \<open>uuid.MustParse\<close>; a member of a
  leaderboard set is always the text of an identifier (\<open>updateWindow\<close> writes it), so the panic
  of \<open>MustParse\<close> is left out. The goroutine that \<open>RecordResult\<close> starts is part of its result:
  the match and the windows \<open>publishUpdate\<close> is going to be called with.

  The lemmas: recording a result adds exactly its numbers to the player's totals in every
  window and touches nobody else's; a list read back shows the best of the stored ranking; the windows of the
  service the application builds all hold the same totals.
\<close>

definition WindowDaily :: string where "WindowDaily = ''daily''"
definition WindowWeekly :: string where "WindowWeekly = ''weekly''"
definition WindowMonthly :: string where "WindowMonthly = ''monthly''"
definition WindowAllTime :: string where "WindowAllTime = ''all_time''"

definition defaultWindows :: "string list" where
  "defaultWindows = [WindowDaily, WindowWeekly, WindowMonthly, WindowAllTime]"

lemmas window_defs = WindowDaily_def WindowWeekly_def WindowMonthly_def WindowAllTime_def

record Entry =
  le_UserID :: uuid
  le_Username :: string
  le_Score :: int
  le_Wins :: int
  le_Games :: int
  le_Accuracy :: rat
  le_CorrectTotal :: int
  le_QuestionTotal :: int

record RecordRequest =
  lr_UserID :: uuid
  lr_Username :: string
  lr_Score :: int
  lr_CorrectCount :: int
  lr_QuestionCount :: int
  lr_Won :: bool
  lr_MatchID :: uuid
  lr_Windows :: "string list"
  lr_Eligible :: bool

record LbOptions =
  lo_TopN :: int
  lo_PubSubChannel :: string
  lo_Windows :: "string list"
  lo_ScoreDecay :: rat
  lo_EntryTTL :: duration
  lo_RedisKeyPrefix :: string
  lo_SnapshotTopLimit :: int

record LbService =
  lb_topN :: int
  lb_pubsubChannel :: string
  lb_windows :: "string list"
  lb_scoreDecay :: rat
  lb_entryTTL :: duration
  lb_prefix :: string
  lb_snapshotTopLim :: int

definition NewLbService :: "LbOptions \<Rightarrow> LbService" where
  "NewLbService opts =
     \<lparr>lb_topN = (if lo_TopN opts \<le> 0 then 50 else lo_TopN opts),
      lb_pubsubChannel = (if lo_PubSubChannel opts = '''' then ''lb:updates'' else lo_PubSubChannel opts),
      lb_windows = (if lo_Windows opts = [] then defaultWindows else lo_Windows opts),
      lb_scoreDecay = lo_ScoreDecay opts, lb_entryTTL = lo_EntryTTL opts,
      lb_prefix = (if lo_RedisKeyPrefix opts = '''' then ''lb'' else lo_RedisKeyPrefix opts),
      lb_snapshotTopLim = (if lo_SnapshotTopLimit opts \<le> 0 then 100 else lo_SnapshotTopLimit opts)\<rparr>"

text \<open>What \<open>app.New\<close> passes: \<open>leaderboard.ServiceOptions{}\<close>.\<close>

definition app_lb_options :: LbOptions where
  "app_lb_options = \<lparr>lo_TopN = 0, lo_PubSubChannel = [], lo_Windows = [], lo_ScoreDecay = 0, lo_EntryTTL = 0,
     lo_RedisKeyPrefix = [], lo_SnapshotTopLimit = 0\<rparr>"

definition boolToInt :: "bool \<Rightarrow> int" where
  "boolToInt v = (if v then 1 else 0)"

definition parseInt :: "string \<Rightarrow> int" where
  "parseInt val = (if val = '''' then 0 else case atoi val of None \<Rightarrow> 0 | Some i \<Rightarrow> i)"

definition leaderboardKey :: "LbService \<Rightarrow> string \<Rightarrow> string" where
  "leaderboardKey s window = lb_prefix s @ '':'' @ window"

definition metaKey :: "LbService \<Rightarrow> (uuid \<Rightarrow> string) \<Rightarrow> string \<Rightarrow> uuid \<Rightarrow> string" where
  "metaKey s us window userID = lb_prefix s @ '':'' @ window @ '':meta:'' @ us userID"

definition privateRoomLeaderboardKey :: "LbService \<Rightarrow> string \<Rightarrow> string" where
  "privateRoomLeaderboardKey s roomCode = lb_prefix s @ '':private_room:'' @ roomCode"

definition privateRoomMetaKey :: "LbService \<Rightarrow> (uuid \<Rightarrow> string) \<Rightarrow> string \<Rightarrow> uuid \<Rightarrow> string" where
  "privateRoomMetaKey s us roomCode userID = lb_prefix s @ '':private_room:'' @ roomCode @ '':meta:'' @ us userID"

definition request_entry :: "RecordRequest \<Rightarrow> Entry" where
  "request_entry req =
     \<lparr>le_UserID = lr_UserID req, le_Username = lr_Username req, le_Score = lr_Score req,
      le_Wins = boolToInt (lr_Won req), le_Games = 1,
      le_Accuracy = (if 0 < lr_QuestionCount req
        then f64 (f64 (of_int (lr_CorrectCount req)) / f64 (of_int (lr_QuestionCount req))) else 0),
      le_CorrectTotal = lr_CorrectCount req, le_QuestionTotal = lr_QuestionCount req\<rparr>"

text \<open>The commands one pipeline sends for an entry.\<close>

definition entry_cmds :: "(uuid \<Rightarrow> string) \<Rightarrow> string \<Rightarrow> string \<Rightarrow> Entry \<Rightarrow> tx_cmd list" where
  "entry_cmds us zKey mKey entry =
     [ZIncrBy zKey (f64 (of_int (le_Score entry))) (us (le_UserID entry)),
      HIncrBy mKey ''wins'' (le_Wins entry), HIncrBy mKey ''games'' (le_Games entry),
      HIncrBy mKey ''correct'' (le_CorrectTotal entry), HIncrBy mKey ''questions'' (le_QuestionTotal entry),
      HSet mKey ''username'' (le_Username entry)]"

definition updateWindow ::
  "LbService \<Rightarrow> (uuid \<Rightarrow> string) \<Rightarrow> 'r redis_client \<Rightarrow> string \<Rightarrow> Entry \<Rightarrow> 'r \<Rightarrow> 'r \<times> err option" where
  "updateWindow s us rc window entry r =
     (let zKey = leaderboardKey s window; mKey = metaKey s us window (le_UserID entry);
          cmds = entry_cmds us zKey mKey entry @
            (if 0 < lb_entryTTL s \<and> window \<noteq> WindowAllTime
             then [Expire zKey (lb_entryTTL s), Expire mKey (lb_entryTTL s)] else [])
      in case rc_TxExec rc r cmds of
           (r, Some e) \<Rightarrow> (r, Some (wrap (''update leaderboard window '' @ window) e))
         | (r, None) \<Rightarrow> (r, None))"

fun update_windows ::
  "LbService \<Rightarrow> (uuid \<Rightarrow> string) \<Rightarrow> 'r redis_client \<Rightarrow> Entry \<Rightarrow> string list \<Rightarrow> 'r \<Rightarrow> 'r \<times> err option" where
  "update_windows s us rc entry [] r = (r, None)"
| "update_windows s us rc entry (window # ws) r =
     (case updateWindow s us rc window entry r of
        (r, Some e) \<Rightarrow> (r, Some e)
      | (r, None) \<Rightarrow> update_windows s us rc entry ws r)"

text \<open>The third component is the call of \<open>publishUpdate\<close> that was started.\<close>

definition RecordResult ::
  "LbService \<Rightarrow> (uuid \<Rightarrow> string) \<Rightarrow> 'r redis_client \<Rightarrow> RecordRequest \<Rightarrow> 'r \<Rightarrow>
   'r \<times> err option \<times> (uuid \<times> string list) option" where
  "RecordResult s us rc req r =
     (if \<not> lr_Eligible req then (r, None, None)
      else
        let windows = (if lr_Windows req = [] then lb_windows s else lr_Windows req)
        in case update_windows s us rc (request_entry req) windows r of
             (r, Some e) \<Rightarrow> (r, Some e, None)
           | (r, None) \<Rightarrow> (r, None, Some (lr_MatchID req, windows)))"

definition RecordPrivateRoomResult ::
  "LbService \<Rightarrow> (uuid \<Rightarrow> string) \<Rightarrow> 'r redis_client \<Rightarrow> string \<Rightarrow> RecordRequest \<Rightarrow> 'r \<Rightarrow> 'r \<times> err option" where
  "RecordPrivateRoomResult s us rc roomCode req r =
     (if \<not> lr_Eligible req then (r, None)
      else
        let entry = request_entry req;
            zKey = privateRoomLeaderboardKey s roomCode;
            mKey = privateRoomMetaKey s us roomCode (le_UserID entry)
        in case rc_TxExec rc r (entry_cmds us zKey mKey entry @
                  [Expire zKey (7 * 24 * 3600 * second), Expire mKey (7 * 24 * 3600 * second)]) of
             (r, Some e) \<Rightarrow> (r, Some (wrap (''update private room leaderboard '' @ roomCode) e))
           | (r, None) \<Rightarrow> (r, None))"

subsection \<open>Reading\<close>

definition hfield :: "(string \<times> string) list \<Rightarrow> string \<Rightarrow> string" where
  "hfield data f = (case map_of data f of None \<Rightarrow> '''' | Some v \<Rightarrow> v)"

definition entry_of_meta :: "uuid \<Rightarrow> (string \<times> string) list \<Rightarrow> Entry" where
  "entry_of_meta u data =
     (if data = [] then
        \<lparr>le_UserID = u, le_Username = [], le_Score = 0, le_Wins = 0, le_Games = 0, le_Accuracy = 0,
         le_CorrectTotal = 0, le_QuestionTotal = 0\<rparr>
      else
        let correct = parseInt (hfield data ''correct''); questions = parseInt (hfield data ''questions'')
        in \<lparr>le_UserID = u, le_Username = hfield data ''username'', le_Score = 0,
            le_Wins = parseInt (hfield data ''wins''), le_Games = parseInt (hfield data ''games''),
            le_Accuracy = (if 0 < questions then f64 (f64 (of_int correct) / f64 (of_int questions)) else 0),
            le_CorrectTotal = correct, le_QuestionTotal = questions\<rparr>)"

definition readMeta ::
  "LbService \<Rightarrow> (uuid \<Rightarrow> string) \<Rightarrow> (string \<Rightarrow> uuid) \<Rightarrow> 'r redis_client \<Rightarrow> string \<Rightarrow> string \<Rightarrow> 'r \<Rightarrow>
   'r \<times> Entry res" where
  "readMeta s us mp rc window userIDStr r =
     (case rc_HGetAll rc r (metaKey s us window (mp userIDStr)) of
        (r, Inl e) \<Rightarrow> (r, Inl e)
      | (r, Inr data) \<Rightarrow> (r, Inr (entry_of_meta (mp userIDStr) data)))"

definition readPrivateRoomMeta ::
  "LbService \<Rightarrow> (uuid \<Rightarrow> string) \<Rightarrow> (string \<Rightarrow> uuid) \<Rightarrow> 'r redis_client \<Rightarrow> string \<Rightarrow> string \<Rightarrow> 'r \<Rightarrow>
   'r \<times> Entry res" where
  "readPrivateRoomMeta s us mp rc roomCode userIDStr r =
     (case rc_HGetAll rc r (privateRoomMetaKey s us roomCode (mp userIDStr)) of
        (r, Inl e) \<Rightarrow> (r, Inl e)
      | (r, Inr data) \<Rightarrow> (r, Inr (entry_of_meta (mp userIDStr) data)))"

text \<open>The loop over the members, with the reader of one member's hash: a member whose hash
  cannot be read is skipped.\<close>

fun read_entries ::
  "(string \<Rightarrow> 'r \<Rightarrow> 'r \<times> Entry res) \<Rightarrow> (string \<times> rat) list \<Rightarrow> 'r \<Rightarrow> 'r \<times> Entry list" where
  "read_entries rd [] r = (r, [])"
| "read_entries rd ((member, score) # zs) r =
     (case rd member r of
        (r, Inl e) \<Rightarrow> read_entries rd zs r
      | (r, Inr meta) \<Rightarrow>
          (let (r, es) = read_entries rd zs r in (r, meta\<lparr>le_Score := go_trunc score\<rparr> # es)))"

definition clip_limit :: "LbService \<Rightarrow> int \<Rightarrow> int" where
  "clip_limit s limit = (if limit \<le> 0 \<or> lb_topN s < limit then lb_topN s else limit)"

definition Top ::
  "LbService \<Rightarrow> (uuid \<Rightarrow> string) \<Rightarrow> (string \<Rightarrow> uuid) \<Rightarrow> 'r redis_client \<Rightarrow> string \<Rightarrow> int \<Rightarrow> 'r \<Rightarrow>
   'r \<times> Entry list res" where
  "Top s us mp rc window limit r =
     (let limit = clip_limit s limit
      in case rc_ZRevRange rc r (leaderboardKey s window) 0 (limit - 1) of
           (r, Inl e) \<Rightarrow> (r, Inl (wrap ''fetch leaderboard'' e))
         | (r, Inr results) \<Rightarrow>
             (let (r, es) = read_entries (readMeta s us mp rc window) results r in (r, Inr es)))"

definition SnapshotTop ::
  "LbService \<Rightarrow> (uuid \<Rightarrow> string) \<Rightarrow> (string \<Rightarrow> uuid) \<Rightarrow> 'r redis_client \<Rightarrow> string \<Rightarrow> 'r \<Rightarrow> 'r \<times> Entry list res" where
  "SnapshotTop s us mp rc window r = Top s us mp rc window (lb_snapshotTopLim s) r"

definition GetPrivateRoomLeaderboard ::
  "LbService \<Rightarrow> (uuid \<Rightarrow> string) \<Rightarrow> (string \<Rightarrow> uuid) \<Rightarrow> 'r redis_client \<Rightarrow> string \<Rightarrow> int \<Rightarrow> 'r \<Rightarrow>
   'r \<times> Entry list res" where
  "GetPrivateRoomLeaderboard s us mp rc roomCode limit r =
     (let limit = clip_limit s limit
      in case rc_ZRevRange rc r (privateRoomLeaderboardKey s roomCode) 0 (limit - 1) of
           (r, Inl e) \<Rightarrow> (r, Inl (wrap ''fetch private room leaderboard'' e))
         | (r, Inr results) \<Rightarrow>
             (let (r, es) = read_entries (readPrivateRoomMeta s us mp rc roomCode) results r in (r, Inr es)))"

definition wsEntry :: "(uuid \<Rightarrow> string) \<Rightarrow> int \<Rightarrow> Entry \<Rightarrow> LeaderboardEntry" where
  "wsEntry us i e =
     \<lparr>we_Rank = i, we_UserID = us (le_UserID e), we_Username = le_Username e, we_Score = le_Score e,
      we_Wins = le_Wins e, we_Games = le_Games e, we_Accuracy = le_Accuracy e\<rparr>"

fun ws_from :: "(uuid \<Rightarrow> string) \<Rightarrow> int \<Rightarrow> Entry list \<Rightarrow> LeaderboardEntry list" where
  "ws_from us i [] = []"
| "ws_from us i (e # es) = wsEntry us i e # ws_from us (i + 1) es"

definition toWSEntries :: "(uuid \<Rightarrow> string) \<Rightarrow> Entry list \<Rightarrow> LeaderboardEntry list" where
  "toWSEntries us entries = ws_from us 1 entries"

text \<open>\<open>js\<close> is \<open>json.Marshal\<close> of the update.\<close>

fun publishUpdate ::
  "LbService \<Rightarrow> (uuid \<Rightarrow> string) \<Rightarrow> (string \<Rightarrow> uuid) \<Rightarrow> (LeaderboardUpdatePayload \<Rightarrow> string) \<Rightarrow> 'r redis_client \<Rightarrow>
   uuid \<Rightarrow> string list \<Rightarrow> 'r \<Rightarrow> 'r" where
  "publishUpdate s us mp js rc matchID [] r = r"
| "publishUpdate s us mp js rc matchID (window # ws) r =
     (case Top s us mp rc window 10 r of
        (r, Inl e) \<Rightarrow> publishUpdate s us mp js rc matchID ws r
      | (r, Inr entries) \<Rightarrow>
          if entries = [] then publishUpdate s us mp js rc matchID ws r
          else
            let payload = \<lparr>lu_Window = window, lu_Top = toWSEntries us entries, lu_MatchID = us matchID\<rparr>;
                (r, _) = rc_Publish rc r (lb_pubsubChannel s) (js payload)
            in publishUpdate s us mp js rc matchID ws r)"

text \<open>\<open>forward\<close> of \<open>subscriber.go\<close>: the message to broadcast, if the payload decodes.\<close>

definition forward :: "(string \<Rightarrow> LeaderboardUpdatePayload res) \<Rightarrow> string \<Rightarrow> Message option" where
  "forward unjs payload =
     (case unjs payload of Inl e \<Rightarrow> None
      | Inr evt \<Rightarrow> Some (message TypeLeaderboardUpdate (PLeaderboardUpdate evt)))"

subsection \<open>Snapshots and REST (worker.go, http.go)\<close>

type_synonym lb_db = "LeaderboardEntry DB"

text \<open>\<open>hash\<close> is the hex SHA-256 of the marshalled entries.\<close>

definition snapshotWindow ::
  "LbService \<Rightarrow> (uuid \<Rightarrow> string) \<Rightarrow> (string \<Rightarrow> uuid) \<Rightarrow> (LeaderboardEntry list \<Rightarrow> string) \<Rightarrow> 'r redis_client \<Rightarrow>
   int \<Rightarrow> instant \<Rightarrow> string \<Rightarrow> 'r \<times> lb_db \<Rightarrow> ('r \<times> lb_db) \<times> err option" where
  "snapshotWindow s us mp hash rc topN now window rd =
     (case Top s us mp rc window topN (fst rd) of
        (r, Inl e) \<Rightarrow> ((r, snd rd), Some e)
      | (r, Inr entries) \<Rightarrow>
          if entries = [] then ((r, snd rd), None)
          else
            let wsEntries = toWSEntries us entries
            in case InsertLeaderboardSnapshot
                      \<lparr>ds_TimeWindow = window, ds_GeneratedAt = now, ds_Entries = wsEntries,
                       ds_SourceHash = hash wsEntries\<rparr> (snd rd) of
                 (d, Inl e) \<Rightarrow> ((r, d), Some e)
               | (d, Inr _) \<Rightarrow> ((r, d), None))"

text \<open>\<open>tick\<close>: every default window; the error of one is only logged. \<open>now\<close> gives each window its
  reading of the clock.\<close>

definition snapshot_tick ::
  "LbService \<Rightarrow> (uuid \<Rightarrow> string) \<Rightarrow> (string \<Rightarrow> uuid) \<Rightarrow> (LeaderboardEntry list \<Rightarrow> string) \<Rightarrow> 'r redis_client \<Rightarrow>
   int \<Rightarrow> (string \<Rightarrow> instant) \<Rightarrow> 'r \<times> lb_db \<Rightarrow> 'r \<times> lb_db" where
  "snapshot_tick s us mp hash rc topN now rd =
     fold (\<lambda>window rd. fst (snapshotWindow s us mp hash rc topN (now window) window rd)) defaultWindows rd"

definition worker_topN :: "int \<Rightarrow> int" where
  "worker_topN topN = (if topN \<le> 0 then 50 else topN)"

definition isValidWindow :: "string \<Rightarrow> bool" where
  "isValidWindow window \<longleftrightarrow> window = WindowDaily \<or> window = WindowWeekly \<or> window = WindowMonthly \<or>
     window = WindowAllTime"

definition parse_limit :: "string \<Rightarrow> int" where
  "parse_limit raw =
     (if raw = '''' then 10
      else case atoi raw of None \<Rightarrow> 10
           | Some parsed \<Rightarrow> if 0 < parsed \<and> parsed \<le> 100 then parsed else 10)"

definition snapshotFallback :: "string \<Rightarrow> int \<Rightarrow> lb_db \<Rightarrow> lb_db \<times> LeaderboardEntry list" where
  "snapshotFallback window limit d =
     (case ListRecentSnapshots window 1 d of
        (d, Inl e) \<Rightarrow> (d, [])
      | (d, Inr []) \<Rightarrow> (d, [])
      | (d, Inr (row # _)) \<Rightarrow> (d, if limit < int (length (ds_Entries row)) then take (nat limit) (ds_Entries row)
                               else ds_Entries row))"

text \<open>The responses: an error, the board of a window with its source, or the
  board of a room.\<close>

datatype lb_response =
    LbError ErrorResponse
  | LbWindow string "LeaderboardEntry list" string
  | LbRoom string "LeaderboardEntry list"

definition HandleGetPrivateRoom ::
  "LbService \<Rightarrow> (uuid \<Rightarrow> string) \<Rightarrow> (string \<Rightarrow> uuid) \<Rightarrow> 'r redis_client \<Rightarrow> string \<Rightarrow> string \<Rightarrow> string \<Rightarrow>
   'r \<times> lb_db \<Rightarrow> ('r \<times> lb_db) \<times> lb_response" where
  "HandleGetPrivateRoom s us mp rc meth path rawLimit rd =
     (if meth \<noteq> ''GET'' then (rd, LbError (RespondError 405 ErrCodeInvalidRequest ''Method not allowed''))
      else
        let roomCode = trim_suffix ''/'' (trim_prefix ''/v1/leaderboards/private/'' path)
        in if roomCode = '''' then (rd, LbError (RespondValidationError ErrCodeInvalidRequest ''Room code required'' ''room_code''))
           else
             case GetPrivateRoomLeaderboard s us mp rc roomCode (parse_limit rawLimit) (fst rd) of
               (r, Inl e) \<Rightarrow> ((r, snd rd), LbError (RespondInternalError ''Failed to fetch leaderboard''))
             | (r, Inr entries) \<Rightarrow> ((r, snd rd), LbRoom roomCode (toWSEntries us entries)))"

definition HandleGet ::
  "LbService \<Rightarrow> (uuid \<Rightarrow> string) \<Rightarrow> (string \<Rightarrow> uuid) \<Rightarrow> 'r redis_client \<Rightarrow> string \<Rightarrow> string \<Rightarrow> string \<Rightarrow>
   'r \<times> lb_db \<Rightarrow> ('r \<times> lb_db) \<times> lb_response" where
  "HandleGet s us mp rc meth path rawLimit rd =
     (if meth \<noteq> ''GET'' then (rd, LbError (RespondError 405 ErrCodeInvalidRequest ''Method not allowed''))
      else
        let p = trim_suffix ''/'' (trim_prefix ''/v1/leaderboards/'' path)
        in if prefix ''private/'' p then HandleGetPrivateRoom s us mp rc meth path rawLimit rd
           else if p = '''' \<or> \<not> isValidWindow p
             then (rd, LbError (RespondNotFound ErrCodeUnknownWindow ''Unknown leaderboard window''))
           else
             let limit = parse_limit rawLimit;
                 (r, top) = (case Top s us mp rc p limit (fst rd) of
                    (r, Inr entries) \<Rightarrow> (r, toWSEntries us entries) | (r, Inl e) \<Rightarrow> (r, []))
             in if top = []
                then (let (d, top) = snapshotFallback p limit (snd rd) in ((r, d), LbWindow p top ''snapshot''))
                else ((r, snd rd), LbWindow p top ''redis''))"

subsection \<open>What one transaction does\<close>

text \<open>The number in a field of a hash, and the score of a member of a sorted set.\<close>

definition hv :: "doc option \<Rightarrow> string \<Rightarrow> int" where
  "hv d f = parseInt (hfield (the (hash_of d)) f)"

definition zv :: "doc option \<Rightarrow> string \<Rightarrow> rat" where
  "zv d m = zget (the (zset_of d)) m"

lemma map_of_upd_assoc [simp]: "map_of (upd_assoc k v xs) = (map_of xs)(k \<mapsto> v)"
  by (induction k v xs rule: upd_assoc.induct) auto

lemma live_deadline [simp]: "live now (t(k \<mapsto> (d, deadline now t k))) k = Some d"
  by (auto simp: deadline_def live_def split: option.splits if_splits)

lemma zset_of_DZSet [simp]: "zset_of (Some (DZSet z)) = Some z"
  by (simp add: zset_of_def)

lemma hash_of_DHash [simp]: "hash_of (Some (DHash h)) = Some h"
  by (simp add: hash_of_def)

lemma zset_of_hash: "zset_of d = Some z \<Longrightarrow> d = None \<and> z = [] \<or> d = Some (DZSet z)"
  by (auto simp: zset_of_def split: option.splits doc.splits)

lemma hget_int_parse: "hget_int h f = Some v \<Longrightarrow> parseInt (hfield h f) = v"
  by (auto simp: hget_int_def hfield_def parseInt_def split: option.splits) (simp add: atoi_def)

lemma show_int_nonempty [simp]: "show_int i \<noteq> []"
  by (simp add: show_int_def)

lemma parseInt_show_int: "- (2 ^ 63) \<le> i \<Longrightarrow> i < 2 ^ 63 \<Longrightarrow> parseInt (show_int i) = i"
  by (simp add: parseInt_def atoi_show_int)

definition cmd_key :: "tx_cmd \<Rightarrow> string" where
  "cmd_key c = (case c of ZIncrBy k _ _ \<Rightarrow> k | HIncrBy k _ _ \<Rightarrow> k | HSet k _ _ \<Rightarrow> k | Expire k _ \<Rightarrow> k)"

lemma run_cmd_frame: "run_cmd now c t = Some t' \<Longrightarrow> j \<noteq> cmd_key c \<Longrightarrow> t' j = t j"
  by (cases c) (auto simp: cmd_key_def expire_def split: option.splits if_splits)

lemma run_cmd_frame_live: "run_cmd now c t = Some t' \<Longrightarrow> j \<noteq> cmd_key c \<Longrightarrow> live now t' j = live now t j"
  by (intro live_cong run_cmd_frame)

lemma run_ZIncrBy:
  assumes "run_cmd now (ZIncrBy k x m) t = Some t'"
  shows "zset_of (live now t k) \<noteq> None \<and>
   zv (live now t' k) m' = (if m' = m then f64 (zv (live now t k) m + x) else zv (live now t k) m')"
proof -
  from assms obtain z where z: "zset_of (live now t k) = Some z"
    and t': "t' = t(k \<mapsto> (DZSet (upd_assoc m (f64 (zget z m + x)) z), deadline now t k))"
    by (auto split: option.splits)
  have "live now t' k = Some (DZSet (upd_assoc m (f64 (zget z m + x)) z))" unfolding t' by (rule live_deadline)
  with z show ?thesis by (simp add: zv_def zget_def)
qed

lemma run_HIncrBy:
  assumes "run_cmd now (HIncrBy k f n) t = Some t'"
  shows "hash_of (live now t k) \<noteq> None \<and>
   hv (live now t' k) f' = (if f' = f then hv (live now t k) f + n else hv (live now t k) f')"
proof -
  from assms obtain h v where h: "hash_of (live now t k) = Some h" "hget_int h f = Some v"
    "- (2 ^ 63) \<le> v + n" "v + n < 2 ^ 63"
    and t': "t' = t(k \<mapsto> (DHash (upd_assoc f (show_int (v + n)) h), deadline now t k))"
    by (auto split: option.splits if_splits)
  have "live now t' k = Some (DHash (upd_assoc f (show_int (v + n)) h))" unfolding t' by (rule live_deadline)
  with h hget_int_parse [OF h(2)] show ?thesis
    by (auto simp: hv_def hfield_def [of "upd_assoc f w h" for w] parseInt_show_int) (simp add: hfield_def)
qed

lemma run_HSet:
  assumes "run_cmd now (HSet k f v) t = Some t'" "f' \<noteq> f"
  shows "hv (live now t' k) f' = hv (live now t k) f'"
proof -
  from assms(1) obtain h where h: "hash_of (live now t k) = Some h"
    and t': "t' = t(k \<mapsto> (DHash (upd_assoc f v h), deadline now t k))"
    by (auto split: option.splits)
  have "live now t' k = Some (DHash (upd_assoc f v h))" unfolding t' by (rule live_deadline)
  with h assms(2) show ?thesis by (simp add: hv_def hfield_def)
qed

lemma expire_live: "0 < ttl \<Longrightarrow> live now (expire now k ttl t) j = live now t j"
  by (auto simp: expire_def split: option.splits)

lemma tx_cons:
  "tx_ok now (c # cs) t \<Longrightarrow> \<exists>t1. run_cmd now c t = Some t1 \<and> tx_ok now cs t1 \<and> run_tx now (c # cs) t = run_tx now cs t1"
  by (auto split: option.splits)

lemma run_tx_Expire:
  "\<forall>c \<in> set cs. \<exists>k ttl. c = Expire k ttl \<and> 0 < ttl \<Longrightarrow> live now (run_tx now cs t) j = live now t j"
proof (induction cs arbitrary: t)
  case Nil
  then show ?case by simp
next
  case (Cons c cs)
  then obtain k ttl where "c = Expire k ttl" "0 < ttl" by auto
  with Cons show ?case by (auto simp: expire_live)
qed

lemma run_tx_frame: "\<forall>c \<in> set cs. cmd_key c \<noteq> j \<Longrightarrow> run_tx now cs t j = t j"
proof (induction cs arbitrary: t)
  case Nil
  then show ?case by simp
next
  case (Cons c cs)
  then show ?case using run_cmd_frame [of now c t _ j] by (auto split: option.splits)
qed

lemma entry_tx:
  assumes "z \<noteq> h" "tx_ok now (entry_cmds us z h e @ cs) t"
    "\<forall>c \<in> set cs. \<exists>k ttl. c = Expire k ttl \<and> 0 < ttl"
  defines "t' \<equiv> run_tx now (entry_cmds us z h e @ cs) t"
  shows "zv (live now t' z) m = (if m = us (le_UserID e)
           then f64 (zv (live now t z) m + f64 (of_int (le_Score e))) else zv (live now t z) m)"
    and "hv (live now t' h) ''wins'' = hv (live now t h) ''wins'' + le_Wins e"
    and "hv (live now t' h) ''games'' = hv (live now t h) ''games'' + le_Games e"
    and "hv (live now t' h) ''correct'' = hv (live now t h) ''correct'' + le_CorrectTotal e"
    and "hv (live now t' h) ''questions'' = hv (live now t h) ''questions'' + le_QuestionTotal e"
proof -
  note a0 = assms(2) [unfolded entry_cmds_def append_Cons append_Nil]
  obtain t1 where r1: "run_cmd now (ZIncrBy z (f64 (of_int (le_Score e))) (us (le_UserID e))) t = Some t1"
    and a1: "tx_ok now (HIncrBy h ''wins'' (le_Wins e) # HIncrBy h ''games'' (le_Games e) #
      HIncrBy h ''correct'' (le_CorrectTotal e) # HIncrBy h ''questions'' (le_QuestionTotal e) #
      HSet h ''username'' (le_Username e) # cs) t1" and e1: "t' = run_tx now (HIncrBy h ''wins'' (le_Wins e) #
      HIncrBy h ''games'' (le_Games e) # HIncrBy h ''correct'' (le_CorrectTotal e) #
      HIncrBy h ''questions'' (le_QuestionTotal e) # HSet h ''username'' (le_Username e) # cs) t1"
    using tx_cons [OF a0] unfolding t'_def entry_cmds_def append_Cons append_Nil by blast
  obtain t2 where r2: "run_cmd now (HIncrBy h ''wins'' (le_Wins e)) t1 = Some t2" and a2: "tx_ok now
      (HIncrBy h ''games'' (le_Games e) # HIncrBy h ''correct'' (le_CorrectTotal e) #
      HIncrBy h ''questions'' (le_QuestionTotal e) # HSet h ''username'' (le_Username e) # cs) t2"
    and e2: "t' = run_tx now (HIncrBy h ''games'' (le_Games e) # HIncrBy h ''correct'' (le_CorrectTotal e) #
      HIncrBy h ''questions'' (le_QuestionTotal e) # HSet h ''username'' (le_Username e) # cs) t2"
    using tx_cons [OF a1] unfolding e1 by blast
  obtain t3 where r3: "run_cmd now (HIncrBy h ''games'' (le_Games e)) t2 = Some t3" and a3: "tx_ok now
      (HIncrBy h ''correct'' (le_CorrectTotal e) # HIncrBy h ''questions'' (le_QuestionTotal e) #
       HSet h ''username'' (le_Username e) # cs) t3"
    and e3: "t' = run_tx now (HIncrBy h ''correct'' (le_CorrectTotal e) #
      HIncrBy h ''questions'' (le_QuestionTotal e) # HSet h ''username'' (le_Username e) # cs) t3"
    using tx_cons [OF a2] unfolding e2 by blast
  obtain t4 where r4: "run_cmd now (HIncrBy h ''correct'' (le_CorrectTotal e)) t3 = Some t4" and a4: "tx_ok now
      (HIncrBy h ''questions'' (le_QuestionTotal e) # HSet h ''username'' (le_Username e) # cs) t4"
    and e4: "t' = run_tx now (HIncrBy h ''questions'' (le_QuestionTotal e) #
      HSet h ''username'' (le_Username e) # cs) t4"
    using tx_cons [OF a3] unfolding e3 by blast
  obtain t5 where r5: "run_cmd now (HIncrBy h ''questions'' (le_QuestionTotal e)) t4 = Some t5"
    and a5: "tx_ok now (HSet h ''username'' (le_Username e) # cs) t5"
    and e5: "t' = run_tx now (HSet h ''username'' (le_Username e) # cs) t5"
    using tx_cons [OF a4] unfolding e4 by blast
  obtain t6 where r6: "run_cmd now (HSet h ''username'' (le_Username e)) t5 = Some t6" and t': "t' = run_tx now cs t6"
    using tx_cons [OF a5] unfolding e5 by blast
  have cs: "live now t' j = live now t6 j" for j unfolding t' by (rule run_tx_Expire [OF assms(3)])
  have zk: "live now t6 z = live now t1 z"
    using run_cmd_frame_live [OF r2, of z] run_cmd_frame_live [OF r3, of z] run_cmd_frame_live [OF r4, of z]
      run_cmd_frame_live [OF r5, of z] run_cmd_frame_live [OF r6, of z] assms(1) by (simp add: cmd_key_def)
  have hk: "live now t1 h = live now t h"
    using run_cmd_frame_live [OF r1, of h] assms(1) by (simp add: cmd_key_def)
  show "zv (live now t' z) m = (if m = us (le_UserID e)
           then f64 (zv (live now t z) m + f64 (of_int (le_Score e))) else zv (live now t z) m)"
    unfolding cs zk using run_ZIncrBy [OF r1, of m] by simp
  show "hv (live now t' h) ''wins'' = hv (live now t h) ''wins'' + le_Wins e"
    "hv (live now t' h) ''games'' = hv (live now t h) ''games'' + le_Games e"
    "hv (live now t' h) ''correct'' = hv (live now t h) ''correct'' + le_CorrectTotal e"
    "hv (live now t' h) ''questions'' = hv (live now t h) ''questions'' + le_QuestionTotal e"
    unfolding cs
    by (simp_all add: run_HSet [OF r6] conjunct2 [OF run_HIncrBy [OF r5]] conjunct2 [OF run_HIncrBy [OF r4]]
        conjunct2 [OF run_HIncrBy [OF r3]] conjunct2 [OF run_HIncrBy [OF r2]] hk)
qed

lemma entry_cmds_keys: "c \<in> set (entry_cmds us z h e) \<Longrightarrow> cmd_key c \<in> {z, h}"
  by (auto simp: entry_cmds_def cmd_key_def)

subsection \<open>The abstract leaderboard\<close>

text \<open>
  The contract of the service: per window and player the sums of scores, wins, games, correct
  answers and questions. \<open>board\<close> reads them from the table when no key of the leaderboard has
  a deadline, which is the case when the entry TTL is 0, as in the application.
\<close>

type_synonym totals = "rat \<times> int \<times> int \<times> int \<times> int"

definition raw :: "table \<Rightarrow> string \<Rightarrow> doc option" where
  "raw t k = map_option fst (t k)"

definition board :: "LbService \<Rightarrow> (uuid \<Rightarrow> string) \<Rightarrow> table \<Rightarrow> string \<Rightarrow> uuid \<Rightarrow> totals" where
  "board s us t w u =
     (let h = raw t (metaKey s us w u)
      in (zv (raw t (leaderboardKey s w)) (us u), hv h ''wins'', hv h ''games'', hv h ''correct'', hv h ''questions''))"

definition add_result :: "totals \<Rightarrow> Entry \<Rightarrow> totals" where
  "add_result b e = (case b of (sc, w, g, c, q) \<Rightarrow>
     (f64 (sc + f64 (of_int (le_Score e))), w + le_Wins e, g + le_Games e, c + le_CorrectTotal e, q + le_QuestionTotal e))"

definition lb_keys :: "LbService \<Rightarrow> string set" where
  "lb_keys s = {k. prefix (lb_prefix s @ '':'') k}"

definition no_deadlines :: "LbService \<Rightarrow> table \<Rightarrow> bool" where
  "no_deadlines s t \<longleftrightarrow> (\<forall>k \<in> lb_keys s. \<forall>d dl. t k = Some (d, dl) \<longrightarrow> dl = None)"

definition plain :: "string \<Rightarrow> bool" where
  "plain w \<longleftrightarrow> CHR '':'' \<notin> set w"

lemma key_in [simp]: "leaderboardKey s w \<in> lb_keys s" "metaKey s us w u \<in> lb_keys s"
  by (simp_all add: lb_keys_def leaderboardKey_def metaKey_def)

lemma plain_default: "\<forall>w \<in> set defaultWindows. plain w" "distinct defaultWindows"
  by (simp_all add: defaultWindows_def window_defs plain_def)

lemma leaderboardKey_eq [key_simps]: "leaderboardKey s w = leaderboardKey s w' \<longleftrightarrow> w = w'"
  by (simp add: leaderboardKey_def)

lemma leaderboardKey_meta [key_simps]: "plain w \<Longrightarrow> leaderboardKey s w \<noteq> metaKey s us w' u"
  by (auto simp: leaderboardKey_def metaKey_def plain_def)

lemma live_raw: "no_deadlines s t \<Longrightarrow> k \<in> lb_keys s \<Longrightarrow> live now t k = raw t k"
  by (auto simp: no_deadlines_def live_def raw_def split: option.splits)

lemma metaKey_eq [key_simps]:
  assumes "uuid_text us" "plain w" "plain w'"
  shows "metaKey s us w u = metaKey s us w' v \<longleftrightarrow> w = w' \<and> u = v"
proof
  assume "metaKey s us w u = metaKey s us w' v"
  then have "w @ CHR '':'' # ''meta:'' @ us u = w' @ CHR '':'' # ''meta:'' @ us v" by (simp add: metaKey_def)
  from join_prefix_free [OF _ _ this] assms uuid_text.us_inject [OF assms(1)] show "w = w' \<and> u = v"
    by (auto simp: plain_def)
qed auto

lemma deadline_none: "no_deadlines s t \<Longrightarrow> k \<in> lb_keys s \<Longrightarrow> deadline now t k = None"
  by (auto simp: no_deadlines_def deadline_def live_def split: option.splits)

lemma run_cmd_no_deadlines:
  "no_deadlines s t \<Longrightarrow> run_cmd now c t = Some t' \<Longrightarrow> cmd_key c \<in> lb_keys s \<Longrightarrow> \<forall>k x. c \<noteq> Expire k x \<Longrightarrow>
   no_deadlines s t'"
  using deadline_none [of s t "cmd_key c" now]
  by (cases c) (auto simp: cmd_key_def no_deadlines_def split: option.splits if_splits)

lemma run_tx_no_deadlines:
  "no_deadlines s t \<Longrightarrow> \<forall>c \<in> set cs. cmd_key c \<in> lb_keys s \<and> (\<forall>k x. c \<noteq> Expire k x) \<Longrightarrow>
   no_deadlines s (run_tx now cs t)"
proof (induction cs arbitrary: t)
  case Nil
  then show ?case by simp
next
  case (Cons c cs)
  then show ?case
  proof (cases "run_cmd now c t")
    case (Some t1)
    have "no_deadlines s t1" by (rule run_cmd_no_deadlines [OF Cons.prems(1) Some]) (use Cons.prems in auto)
    with Cons Some show ?thesis by simp
  qed simp
qed

lemma entry_cmds_no_expire: "c \<in> set (entry_cmds us z h e) \<Longrightarrow> c \<noteq> Expire k x"
  by (auto simp: entry_cmds_def)

lemma board_update:
  assumes U: "uuid_text us" and nd: "no_deadlines s t" and w: "plain w"
    and ok: "tx_ok now (entry_cmds us (leaderboardKey s w) (metaKey s us w (le_UserID e)) e) t"
  defines "t' \<equiv> run_tx now (entry_cmds us (leaderboardKey s w) (metaKey s us w (le_UserID e)) e) t"
  shows "no_deadlines s t'"
    and "plain w' \<Longrightarrow> board s us t' w' u =
      (if w' = w \<and> u = le_UserID e then add_result (board s us t w u) e else board s us t w' u)"
proof -
  let ?z = "leaderboardKey s w" and ?h = "metaKey s us w (le_UserID e)"
  show nd': "no_deadlines s t'" unfolding t'_def
    by (rule run_tx_no_deadlines [OF nd]) (use entry_cmds_keys entry_cmds_no_expire key_in in fastforce)
  have ne: "?z \<noteq> ?h" using w by (rule leaderboardKey_meta)
  have tx: "tx_ok now (entry_cmds us ?z ?h e @ []) t" using ok by simp
  note eff = entry_tx [OF ne tx, simplified, folded t'_def]
  have lv: "live now t' k = raw t' k" "live now t k = raw t k" if "k \<in> lb_keys s" for k
    using live_raw [OF nd' that] live_raw [OF nd that] by blast+
  have frame: "raw t' k = raw t k" if "k \<noteq> ?z" "k \<noteq> ?h" for k
    unfolding raw_def t'_def using that by (subst run_tx_frame) (auto dest: entry_cmds_keys)
  note us_eq = uuid_text.us_eq [OF U]
  show "board s us t' w' u =
      (if w' = w \<and> u = le_UserID e then add_result (board s us t w u) e else board s us t w' u)" if "plain w'"
  proof (cases "w' = w")
    case True
    show ?thesis
    proof (cases "u = le_UserID e")
      case True
      with \<open>w' = w\<close> eff show ?thesis by (simp add: board_def add_result_def lv Let_def)
    next
      case False
      then have "metaKey s us w u \<noteq> ?h" by (simp add: metaKey_eq [OF U w w])
      with frame [of "metaKey s us w u"] leaderboardKey_meta [OF w, of s us w u] \<open>w' = w\<close> False eff(1) [of "us u"]
      show ?thesis by (simp add: board_def Let_def lv us_eq)
    qed
  next
    case False
    have "leaderboardKey s w' \<noteq> ?z" "leaderboardKey s w' \<noteq> ?h" "metaKey s us w' u \<noteq> ?z" "metaKey s us w' u \<noteq> ?h"
      using False w that leaderboardKey_meta [OF w, of s us w' u] leaderboardKey_meta [OF that, of s us w "le_UserID e"]
      by (auto simp: leaderboardKey_eq metaKey_eq [OF U that w])
    with False frame show ?thesis by (simp add: board_def)
  qed
qed

lemma entry_cmds_no_ttl: "entry_cmds us z h e @ (if 0 < ttl \<and> b then [Expire z ttl, Expire h ttl] else []) =
    entry_cmds us z h e" if "ttl \<le> 0"
  using that by simp

lemma updateWindow_board:
  assumes R: "redis_server rc tab clk" and U: "uuid_text us" and ttl: "lb_entryTTL s \<le> 0" and w: "plain w"
    and nd: "no_deadlines s (tab r)" and ok: "updateWindow s us rc w e r = (r', None)"
  shows "no_deadlines s (tab r')" and "plain w' \<Longrightarrow> board s us (tab r') w' u =
      (if w' = w \<and> u = le_UserID e then add_result (board s us (tab r) w u) e else board s us (tab r) w' u)"
proof -
  let ?cs = "entry_cmds us (leaderboardKey s w) (metaKey s us w (le_UserID e)) e"
  from ok ttl have "rc_TxExec rc r ?cs = (r', None)"
    by (simp add: updateWindow_def Let_def split: prod.splits option.splits)
  from redis_server.tx_ok [OF R this] have tx: "tx_ok (clk r') ?cs (tab r)" and t: "tab r' = run_tx (clk r') ?cs (tab r)"
    by (auto simp: becomes_def)
  show "no_deadlines s (tab r')" unfolding t by (rule board_update(1) [OF U nd w tx])
  show "board s us (tab r') w' u =
      (if w' = w \<and> u = le_UserID e then add_result (board s us (tab r) w u) e else board s us (tab r) w' u)"
    if "plain w'"
    unfolding t using board_update(2) [OF U nd w tx that] .
qed

lemma update_windows_board:
  assumes R: "redis_server rc tab clk" and U: "uuid_text us" and ttl: "lb_entryTTL s \<le> 0"
    and "distinct ws" "\<forall>w \<in> set ws. plain w" "no_deadlines s (tab r)" "update_windows s us rc e ws r = (r', None)"
  shows "no_deadlines s (tab r') \<and> (\<forall>w u. plain w \<longrightarrow> board s us (tab r') w u =
      (if w \<in> set ws \<and> u = le_UserID e then add_result (board s us (tab r) w u) e else board s us (tab r) w u))"
  using assms(4-)
proof (induction ws arbitrary: r)
  case Nil
  then show ?case by simp
next
  case (Cons w0 ws)
  then obtain r1 where u1: "updateWindow s us rc w0 e r = (r1, None)"
    and u2: "update_windows s us rc e ws r1 = (r', None)" by (auto split: prod.splits option.splits)
  have p: "plain w0" using Cons.prems(2) by simp
  note b1 = updateWindow_board [OF R U ttl p Cons.prems(3) u1]
  from Cons.IH [OF _ _ b1(1) u2] Cons.prems have IH: "no_deadlines s (tab r')"
    "\<And>w u. plain w \<Longrightarrow> board s us (tab r') w u = (if w \<in> set ws \<and> u = le_UserID e
       then add_result (board s us (tab r1) w u) e else board s us (tab r1) w u)" by auto
  show ?case using IH b1(2) Cons.prems(1) by auto
qed

lemma request_entry_sel [simp]:
  "le_UserID (request_entry q) = lr_UserID q" "le_Score (request_entry q) = lr_Score q"
  "le_Wins (request_entry q) = boolToInt (lr_Won q)" "le_Games (request_entry q) = 1"
  "le_CorrectTotal (request_entry q) = lr_CorrectCount q" "le_QuestionTotal (request_entry q) = lr_QuestionCount q"
  by (simp_all add: request_entry_def)

lemma RecordResult_board:
  assumes R: "redis_server rc tab clk" and U: "uuid_text us" and ttl: "lb_entryTTL s \<le> 0"
    and ws: "ws = (if lr_Windows q = [] then lb_windows s else lr_Windows q)" "distinct ws" "\<forall>w \<in> set ws. plain w"
    and nd: "no_deadlines s (tab r)" and e: "lr_Eligible q" and ok: "RecordResult s us rc q r = (r', None, p)"
  shows "no_deadlines s (tab r') \<and> (\<forall>w u. plain w \<longrightarrow> board s us (tab r') w u =
      (if w \<in> set ws \<and> u = lr_UserID q then add_result (board s us (tab r) w u) (request_entry q)
       else board s us (tab r) w u)) \<and> p = Some (lr_MatchID q, ws)"
proof -
  from ok e have "update_windows s us rc (request_entry q) ws r = (r', None)" "p = Some (lr_MatchID q, ws)"
    by (auto simp: RecordResult_def Let_def ws(1) split: prod.splits option.splits)
  with update_windows_board [OF R U ttl ws(2,3) nd] show ?thesis by simp
qed

subsection \<open>Lists read back\<close>

lemma sorted_fst: "sorted ps \<Longrightarrow> sorted (map fst ps)" for ps :: "(rat \<times> string) list"
  by (induction ps) (auto simp: less_eq_prod_def le_less)

lemma snd_swap: "snd = fst \<circ> (\<lambda>(m, s). (s, m))"
  by (simp add: fun_eq_iff)

lemma sorted_rev_zrev: "sorted (rev (map snd (zrev z)))"
proof -
  have "sorted (map (\<lambda>(m, s). (s, m)) (sort_key (\<lambda>(m, s). (s, m)) z))" by (rule sorted_sort_key)
  from sorted_fst [OF this] show ?thesis unfolding zrev_def snd_swap map_map [symmetric] rev_map rev_rev_ident .
qed

lemma read_entries_sorted:
  assumes "sorted (rev (map snd zs))" "read_entries rd zs r = (r', es)"
  shows "sorted (rev (map le_Score es)) \<and> length es \<le> length zs \<and>
    (\<forall>e \<in> set es. \<exists>z \<in> set zs. le_Score e = go_trunc (snd z))"
  using assms
proof (induction zs arbitrary: r es)
  case Nil
  then show ?case by simp
next
  case (Cons z zs)
  obtain m sc where z: "z = (m, sc)" by force
  from Cons.prems(1) z have below: "\<forall>y \<in> set zs. snd y \<le> sc" and srt: "sorted (rev (map snd zs))"
    by (auto simp: sorted_append)
  obtain r1 x where rd: "rd m r = (r1, x)" by force
  show ?case
  proof (cases x)
    case (Inl e)
    with Cons.prems(2) z rd have "read_entries rd zs r1 = (r', es)" by simp
    from Cons.IH [OF srt this] show ?thesis by auto
  next
    case (Inr meta)
    with Cons.prems(2) z rd obtain es' where es: "read_entries rd zs r1 = (r', es')"
      "es = meta\<lparr>le_Score := go_trunc sc\<rparr> # es'" by (auto split: prod.splits)
    note IH = Cons.IH [OF srt es(1)]
    have "le_Score e \<le> go_trunc sc" if e: "e \<in> set es'" for e
    proof -
      from IH e obtain y where "y \<in> set zs" "le_Score e = go_trunc (snd y)" by blast
      with below show ?thesis by (simp add: go_trunc_mono)
    qed
    with IH es(2) z show ?thesis by (auto simp: sorted_append)
  qed
qed

lemma zslice_prefix: "zslice 0 (n - 1) z = take (nat n) (zrev z)"
  by (simp add: zslice_def)

lemma sorted_rev_take: "sorted (rev xs) \<Longrightarrow> sorted (rev (take n xs))"
  by (metis append_take_drop_id rev_append sorted_append)

lemma clip_limit_range: "0 < lb_topN s \<Longrightarrow> 1 \<le> clip_limit s n \<and> clip_limit s n \<le> lb_topN s"
  by (auto simp: clip_limit_def)

text \<open>The loop around the records: the results of one request after the other, until one fails.\<close>

fun record_all ::
  "LbService \<Rightarrow> (uuid \<Rightarrow> string) \<Rightarrow> 'r redis_client \<Rightarrow> RecordRequest list \<Rightarrow> 'r \<Rightarrow> 'r \<times> err option" where
  "record_all s us rc [] r = (r, None)"
| "record_all s us rc (q # qs) r =
     (case RecordResult s us rc q r of (r, Some e, _) \<Rightarrow> (r, Some e) | (r, None, _) \<Rightarrow> record_all s us rc qs r)"

definition own_entries :: "uuid \<Rightarrow> RecordRequest list \<Rightarrow> Entry list" where
  "own_entries u qs = map request_entry (filter (\<lambda>q. lr_Eligible q \<and> lr_UserID q = u) qs)"

lemma record_all_board:
  assumes R: "redis_server rc tab clk" and U: "uuid_text us" and ttl: "lb_entryTTL s \<le> 0"
    and ws: "distinct (lb_windows s)" "\<forall>w \<in> set (lb_windows s). plain w"
    and "\<forall>q \<in> set qs. lr_Windows q = []" "no_deadlines s (tab r)" "record_all s us rc qs r = (r', None)"
    and w: "w \<in> set (lb_windows s)"
  shows "board s us (tab r') w u = foldl add_result (board s us (tab r) w u) (own_entries u qs)"
  using assms(6-8)
proof (induction qs arbitrary: r)
  case Nil
  then show ?case by (simp add: own_entries_def)
next
  case (Cons q qs)
  then obtain r1 p where q: "RecordResult s us rc q r = (r1, None, p)" and qs: "record_all s us rc qs r1 = (r', None)"
    by (auto split: prod.splits option.splits)
  show ?case
  proof (cases "lr_Eligible q")
    case True
    have lw: "lb_windows s = (if lr_Windows q = [] then lb_windows s else lr_Windows q)" using Cons.prems by simp
    from RecordResult_board [OF R U ttl lw ws Cons.prems(2) True q] w ws(2)
    have "no_deadlines s (tab r1)" "board s us (tab r1) w u = (if u = lr_UserID q
        then add_result (board s us (tab r) w u) (request_entry q) else board s us (tab r) w u)" by auto
    with Cons.IH [OF _ _ qs] Cons.prems True show ?thesis by (auto simp: own_entries_def)
  next
    case False
    with q have "r1 = r" by (simp add: RecordResult_def)
    with Cons.IH [OF _ _ qs] Cons.prems False show ?thesis by (simp add: own_entries_def)
  qed
qed

lemma app_service_windows:
  "lb_windows (NewLbService app_lb_options) = defaultWindows" "lb_entryTTL (NewLbService app_lb_options) = 0"
  "lb_topN (NewLbService app_lb_options) = 50" "lb_snapshotTopLim (NewLbService app_lb_options) = 100"
  by (simp_all add: NewLbService_def app_lb_options_def)

text \<open>A member's hash is read without changing the data.\<close>

lemma read_entries_data:
  assumes "\<And>m r r' x. rd m r = (r', x) \<Longrightarrow> tab r' = tab r" "read_entries rd zs r = (r', es)"
  shows "tab r' = tab r"
  using assms(2)
proof (induction zs arbitrary: r es)
  case (Cons z zs)
  then show ?case using assms(1) by (cases z) (fastforce split: prod.splits sum.splits)
qed simp

text \<open>What the loop makes of each member, in order: an entry with the member's score, or nothing when the
  read of its hash failed.\<close>

lemma read_entries_outs:
  assumes D: "\<forall>m r. tab (fst (rd m r)) = tab r" and "read_entries rd zs r = (r', es)"
  shows "\<exists>outs. es = List.map_filter (\<lambda>out. out) outs \<and> list_all2 (\<lambda>(m, x) out. \<exists>ra rb. tab ra = tab r \<and>
    (case out of None \<Rightarrow> \<exists>err. rd m ra = (rb, Inl err) | Some e \<Rightarrow> \<exists>meta. rd m ra = (rb, Inr meta) \<and> e = meta\<lparr>le_Score := go_trunc x\<rparr>)) zs outs"
  using assms(2)
proof (induction zs arbitrary: r es)
  case Nil
  then show ?case by (intro exI [of _ "[]"]) (simp add: map_filter_simps)
next
  case (Cons z zs)
  obtain m sc where z: "z = (m, sc)" by force
  obtain r1 x where rd: "rd m r = (r1, x)" by force
  obtain r2 es' where es: "read_entries rd zs r1 = (r2, es')" by force
  with Cons.prems z rd have "r2 = r'" by (auto split: sum.splits)
  with Cons.IH [of r1 es'] es obtain outs where outs: "es' = List.map_filter (\<lambda>out. out) outs" "list_all2 (\<lambda>(m, x) out. \<exists>ra rb. tab ra = tab r1 \<and>
    (case out of None \<Rightarrow> \<exists>err. rd m ra = (rb, Inl err) | Some e \<Rightarrow> \<exists>meta. rd m ra = (rb, Inr meta) \<and> e = meta\<lparr>le_Score := go_trunc x\<rparr>)) zs outs"
    by blast
  define out where "out = (case x of Inl err \<Rightarrow> None | Inr meta \<Rightarrow> Some (meta\<lparr>le_Score := go_trunc sc\<rparr>))"
  have "es = List.map_filter (\<lambda>out. out) (out # outs)"
    using Cons.prems z rd es outs(1) by (auto simp: out_def map_filter_simps split: sum.splits)
  moreover have "\<exists>ra rb. tab ra = tab r \<and> (case out of None \<Rightarrow> \<exists>err. rd m ra = (rb, Inl err)
      | Some e \<Rightarrow> \<exists>meta. rd m ra = (rb, Inr meta) \<and> e = meta\<lparr>le_Score := go_trunc sc\<rparr>)"
    using rd by (intro exI [of _ r] exI [of _ r1]) (auto simp: out_def split: sum.split)
  ultimately show ?case using outs(2) D [rule_format, of m r] rd z by (intro exI [of _ "out # outs"]) simp
qed

text \<open>An entry shows what the store holds for its player.\<close>

definition shows_player :: "LbService \<Rightarrow> (uuid \<Rightarrow> string) \<Rightarrow> table \<Rightarrow> string \<Rightarrow> uuid \<Rightarrow> rat \<Rightarrow> Entry \<Rightarrow> bool" where
  "shows_player s us t w u score e \<longleftrightarrow> (let h = raw t (metaKey s us w u) in
     le_UserID e = u \<and> le_Username e = hfield (the (hash_of h)) ''username'' \<and> le_Score e = go_trunc score \<and>
     le_Wins e = hv h ''wins'' \<and> le_Games e = hv h ''games'' \<and> le_CorrectTotal e = hv h ''correct'' \<and> le_QuestionTotal e = hv h ''questions'' \<and>
     le_Accuracy e = (if 0 < hv h ''questions'' then f64 (f64 (of_int (hv h ''correct'')) / f64 (of_int (hv h ''questions''))) else 0))"

lemma entry_of_meta_shows:
  "hash_of (raw t (metaKey s us w u)) = Some h \<Longrightarrow> shows_player s us t w u score ((entry_of_meta u h)\<lparr>le_Score := go_trunc score\<rparr>)"
  by (simp add: shows_player_def entry_of_meta_def hv_def hfield_def parseInt_def Let_def)

lemma sorted_rev_split:
  assumes "sorted (rev (map f zs))" "p \<in> set (drop n zs)" "q \<in> set (take n zs)"
  shows "f p \<le> f q"
proof -
  have "sorted (rev (map f (drop n zs)) @ rev (map f (take n zs)))"
    using assms(1) by (metis append_take_drop_id map_append rev_append)
  with assms(2,3) show ?thesis by (auto simp: sorted_append)
qed

lemma mset_zrev [simp]: "mset (zrev z) = mset z" "length (zrev z) = length z"
  by (simp_all add: zrev_def)

lemma mset_rest: "mset xs = mset z \<Longrightarrow> mset z - mset (take n xs) = mset (drop n xs)"
  by (metis add_diff_cancel_left' append_take_drop_id mset_append)

lemma Top_result:
  assumes R: "redis_server rc tab clk" and n: "0 < lb_topN s" and nd: "no_deadlines s (tab r)" and ok: "Top s us mp rc w n r = (r', Inr es)"
  shows "tab r' = tab r \<and> sorted (rev (map le_Score es)) \<and> (\<exists>z outs. zset_of (raw (tab r) (leaderboardKey s w)) = Some z \<and>
     es = List.map_filter (\<lambda>out. out) outs \<and> list_all2 (\<lambda>(m, x) out. case out of Some e \<Rightarrow> shows_player s us (tab r) w (mp m) x e
       | None \<Rightarrow> \<exists>ra rb err. tab ra = tab r \<and> rc_HGetAll rc ra (metaKey s us w (mp m)) = (rb, Inl err))
       (take (nat (clip_limit s n)) (zrev z)) outs)"
proof -
  obtain r1 zs where z: "rc_ZRevRange rc r (leaderboardKey s w) 0 (clip_limit s n - 1) = (r1, Inr zs)"
    and rd: "read_entries (readMeta s us mp rc w) zs r1 = (r', es)"
    using ok by (auto simp: Top_def split: prod.splits sum.splits)
  have lim: "1 \<le> clip_limit s n" using clip_limit_range [OF assms(2)] by blast
  from redis_server.zrev_ok [OF R z] lim obtain y where y: "zset_of (raw (tab r) (leaderboardKey s w)) = Some y"
    and zs: "zs = take (nat (clip_limit s n)) (zrev y)" by (auto simp: zslice_prefix live_raw [OF nd])
  have "sorted (rev (map snd zs))" unfolding zs take_map [symmetric] by (rule sorted_rev_take [OF sorted_rev_zrev])
  from read_entries_sorted [OF this rd] have srt: "sorted (rev (map le_Score es))" by blast
  have D: "readMeta s us mp rc w m ra = (rb, x) \<Longrightarrow> tab rb = tab ra" for m ra rb x
    by (auto simp: readMeta_def same_data_def split: prod.splits sum.splits dest!: redis_server.hgetall_data [OF R])
  have D': "\<forall>m ra. tab (fst (readMeta s us mp rc w m ra)) = tab ra" using D by (metis prod.collapse)
  have t1: "tab r1 = tab r" using redis_server.zrev_data [OF R z] by (simp add: same_data_def)
  have tr: "tab r' = tab r" using read_entries_data [where tab = tab, OF D rd] t1 by simp
  from read_entries_outs [where tab = tab, OF D' rd] obtain outs where o: "es = List.map_filter (\<lambda>out. out) outs"
    "list_all2 (\<lambda>(m, x) out. \<exists>ra rb. tab ra = tab r \<and> (case out of None \<Rightarrow> \<exists>err. readMeta s us mp rc w m ra = (rb, Inl err)
       | Some e \<Rightarrow> \<exists>meta. readMeta s us mp rc w m ra = (rb, Inr meta) \<and> e = meta\<lparr>le_Score := go_trunc x\<rparr>)) zs outs"
    unfolding t1 by blast
  have out: "case out of Some e \<Rightarrow> shows_player s us (tab r) w (mp m) x e
       | None \<Rightarrow> \<exists>ra rb err. tab ra = tab r \<and> rc_HGetAll rc ra (metaKey s us w (mp m)) = (rb, Inl err)"
    if ra: "tab ra = tab r" "case out of None \<Rightarrow> \<exists>err. readMeta s us mp rc w m ra = (rb, Inl err)
       | Some e \<Rightarrow> \<exists>meta. readMeta s us mp rc w m ra = (rb, Inr meta) \<and> e = meta\<lparr>le_Score := go_trunc x\<rparr>" for m x out ra rb
  proof -
    obtain rg g where g: "rc_HGetAll rc ra (metaKey s us w (mp m)) = (rg, g)" by force
    show ?thesis
    proof (cases g)
      case (Inl err)
      with ra g show ?thesis by (auto simp: readMeta_def split: option.splits)
    next
      case (Inr h)
      from redis_server.hgetall_ok [OF R g [unfolded Inr]] ra(1) have "hash_of (raw (tab r) (metaKey s us w (mp m))) = Some h"
        by (simp add: live_raw [OF nd])
      from entry_of_meta_shows [OF this, of x] ra(2) g Inr show ?thesis by (auto simp: readMeta_def split: option.splits)
    qed
  qed
  have "list_all2 (\<lambda>(m, x) out. case out of Some e \<Rightarrow> shows_player s us (tab r) w (mp m) x e
       | None \<Rightarrow> \<exists>ra rb err. tab ra = tab r \<and> rc_HGetAll rc ra (metaKey s us w (mp m)) = (rb, Inl err)) zs outs"
    by (rule list_all2_mono [OF o(2)]) (use out in blast)
  with tr srt o(1) y zs show ?thesis by blast
qed

lemma HIncrBy_ok:
  assumes "hash_of (live now t h) = Some g" "map_of g f = None" "\<bar>n\<bar> < 2 ^ 62"
  shows "\<exists>t1 g1. hash_of (live now t1 h) = Some g1 \<and> map_of g1 = (map_of g)(f \<mapsto> show_int n) \<and>
    (\<forall>cs. tx_ok now (HIncrBy h f n # cs) t = tx_ok now cs t1)"
proof -
  let ?g1 = "upd_assoc f (show_int n) g" and ?t1 = "t(h \<mapsto> (DHash (upd_assoc f (show_int n) g), deadline now t h))"
  have "hget_int g f = Some 0" using assms(2) by (simp add: hget_int_def)
  then have run: "run_cmd now (HIncrBy h f n) t = Some ?t1" using assms(1,3) by auto
  have "\<forall>cs. tx_ok now (HIncrBy h f n # cs) t = tx_ok now cs ?t1" by (simp only: tx_ok.simps run option.simps) simp
  moreover have "hash_of (live now ?t1 h) = Some ?g1" by (simp only: live_deadline hash_of_DHash)
  ultimately show ?thesis by (meson map_of_upd_assoc)
qed

lemma entry_cmds_ok:
  assumes z: "z \<noteq> h" and a: "live now t z = None" "live now t h = None"
    and b: "\<bar>le_Wins e\<bar> < 2 ^ 62" "\<bar>le_Games e\<bar> < 2 ^ 62" "\<bar>le_CorrectTotal e\<bar> < 2 ^ 62" "\<bar>le_QuestionTotal e\<bar> < 2 ^ 62"
  shows "tx_ok now (entry_cmds us z h e) t"
proof -
  define t0 where "t0 = t(z \<mapsto> (DZSet [(us (le_UserID e), f64 (f64 (of_int (le_Score e))))], deadline now t z))"
  have t0: "run_cmd now (ZIncrBy z (f64 (of_int (le_Score e))) (us (le_UserID e))) t = Some t0"
    using a by (simp add: zset_of_def t0_def zget_def)
  have "live now t0 h = live now t h" unfolding t0_def by (rule live_cong) (use z in simp)
  with a have h0: "hash_of (live now t0 h) = Some []" by (simp add: hash_of_def)
  from HIncrBy_ok [OF h0 _ b(1), of "''wins''"] obtain t1 g1 where 1: "hash_of (live now t1 h) = Some g1"
    "map_of g1 = [''wins'' \<mapsto> show_int (le_Wins e)]"
    "\<And>cs. tx_ok now (HIncrBy h ''wins'' (le_Wins e) # cs) t0 = tx_ok now cs t1" by auto
  from HIncrBy_ok [OF 1(1) _ b(2), of "''games''"] 1(2) obtain t2 g2 where 2: "hash_of (live now t2 h) = Some g2"
    "map_of g2 = [''wins'' \<mapsto> show_int (le_Wins e), ''games'' \<mapsto> show_int (le_Games e)]"
    "\<And>cs. tx_ok now (HIncrBy h ''games'' (le_Games e) # cs) t1 = tx_ok now cs t2" by auto
  from HIncrBy_ok [OF 2(1) _ b(3), of "''correct''"] 2(2) obtain t3 g3 where 3: "hash_of (live now t3 h) = Some g3"
    "map_of g3 ''questions'' = None"
    "\<And>cs. tx_ok now (HIncrBy h ''correct'' (le_CorrectTotal e) # cs) t2 = tx_ok now cs t3" by auto
  from HIncrBy_ok [OF 3(1) _ b(4), of "''questions''"] 3(2) obtain t4 g4 where 4: "hash_of (live now t4 h) = Some g4"
    "\<And>cs. tx_ok now (HIncrBy h ''questions'' (le_QuestionTotal e) # cs) t3 = tx_ok now cs t4" by auto
  have "tx_ok now [HSet h ''username'' (le_Username e)] t4" using 4(1) by simp
  then show ?thesis by (simp only: entry_cmds_def tx_ok.simps(2) [of now "ZIncrBy _ _ _"] t0 option.simps 1(3) 2(3) 3(3) 4(2))
qed

lemma mem_update_windows:
  assumes U: "uuid_text us" and ttl: "lb_entryTTL s \<le> 0"
    and "distinct ws" "\<forall>w \<in> set ws. plain w" "mem_faults r = []"
    and "\<forall>w \<in> set ws. mem_tab r (leaderboardKey s w) = None \<and> mem_tab r (metaKey s us w (le_UserID e)) = None"
    and b: "\<bar>le_Wins e\<bar> < 2 ^ 62" "\<bar>le_Games e\<bar> < 2 ^ 62" "\<bar>le_CorrectTotal e\<bar> < 2 ^ 62" "\<bar>le_QuestionTotal e\<bar> < 2 ^ 62"
  shows "\<exists>r'. update_windows s us mem_client e ws r = (r', None)"
  using assms(3-6)
proof (induction ws arbitrary: r)
  case (Cons w ws)
  let ?z = "leaderboardKey s w" and ?h = "metaKey s us w (le_UserID e)" and ?now = "mem_clk (mem_next r)"
  define r1 where "r1 = (mem_next r)\<lparr>mem_tab := run_tx ?now (entry_cmds us ?z ?h e) (mem_tab r)\<rparr>"
  have w: "plain w" using Cons.prems by simp
  have "tx_ok ?now (entry_cmds us ?z ?h e) (mem_tab r)"
    by (rule entry_cmds_ok) (use Cons.prems leaderboardKey_meta [OF w] b in \<open>auto simp: live_def\<close>)
  then have u1: "updateWindow s us mem_client w e r = (r1, None)"
    using ttl Cons.prems(3) by (simp add: updateWindow_def mem_client_def mem_write_def mem_fault_def r1_def Let_def)
  have fr: "mem_tab r1 k = mem_tab r k" if "k \<noteq> ?z" "k \<noteq> ?h" for k
    using that unfolding r1_def by (simp add: run_tx_frame entry_cmds_keys) (metis run_tx_frame entry_cmds_keys insertE singletonD)
  have "\<exists>r'. update_windows s us mem_client e ws r1 = (r', None)"
  proof (rule Cons.IH)
    show "mem_faults r1 = []" using Cons.prems by (simp add: r1_def mem_next_def)
    show "\<forall>w' \<in> set ws. mem_tab r1 (leaderboardKey s w') = None \<and> mem_tab r1 (metaKey s us w' (le_UserID e)) = None"
    proof
      fix w' assume w': "w' \<in> set ws"
      with Cons.prems have p: "plain w'" "w' \<noteq> w" by auto
      have "mem_tab r1 (leaderboardKey s w') = mem_tab r (leaderboardKey s w')"
        by (rule fr) (use p w leaderboardKey_eq leaderboardKey_meta [OF p(1)] in auto)
      moreover have "mem_tab r1 (metaKey s us w' (le_UserID e)) = mem_tab r (metaKey s us w' (le_UserID e))"
        by (rule fr) (use p w leaderboardKey_meta [OF w, of s us w' "le_UserID e"] in \<open>auto simp: metaKey_eq [OF U p(1) w]\<close>)
      ultimately show "mem_tab r1 (leaderboardKey s w') = None \<and> mem_tab r1 (metaKey s us w' (le_UserID e)) = None"
        using Cons.prems(4) w' by simp
    qed
  qed (use Cons.prems in auto)
  with u1 show ?case by simp
qed simp

definition ex_record :: RecordRequest where
  "ex_record = \<lparr>lr_UserID = 7, lr_Username = ''ada'', lr_Score = 450, lr_CorrectCount = 4, lr_QuestionCount = 5,
     lr_Won = True, lr_MatchID = 9, lr_Windows = [], lr_Eligible = True\<rparr>"

lemma ex_record_runs:
  "\<exists>r'. record_all (NewLbService app_lb_options) dec_us mem_client [ex_record] ex_mem = (r', None)"
proof -
  have "\<exists>r'. update_windows (NewLbService app_lb_options) dec_us mem_client (request_entry ex_record) defaultWindows ex_mem = (r', None)"
    by (rule mem_update_windows)
      (use dec.uuid_text_axioms plain_default in \<open>auto simp: app_service_windows ex_mem_def ex_record_def boolToInt_def\<close>)
  then show ?thesis by (auto simp: RecordResult_def ex_record_def app_service_windows)
qed

lemma ex_mem_no_deadlines: "no_deadlines s (mem_tab ex_mem)"
  by (simp add: no_deadlines_def ex_mem_def)



text \<open>In the service the application builds, the daily, weekly and monthly leaderboards hold the
  same totals as the all-time one after any run of results from an empty store, however much
  time passes between two of them: the periods never reset.\<close>

theorem periods_never_reset:
  assumes "redis_server rc tab clk" "uuid_text us" "\<forall>q \<in> set qs. lr_Windows q = []"
    and "\<forall>k \<in> lb_keys (NewLbService app_lb_options). tab r k = None"
    and "record_all (NewLbService app_lb_options) us rc qs r = (r', None)" "w \<in> set defaultWindows"
  shows "board (NewLbService app_lb_options) us (tab r') w u = board (NewLbService app_lb_options) us (tab r') WindowAllTime u"
proof -
  let ?s = "NewLbService app_lb_options"
  have nd: "no_deadlines ?s (tab r)" using assms(4) by (auto simp: no_deadlines_def)
  have "board ?s us (tab r') v u = foldl add_result (board ?s us (tab r) v u) (own_entries u qs)"
    if "v \<in> set defaultWindows" for v
    by (rule record_all_board [OF assms(1,2) _ _ _ assms(3) nd assms(5)]) (use plain_default that in \<open>auto simp: app_service_windows\<close>)
  moreover have "board ?s us (tab r) v u = (0, 0, 0, 0, 0)" for v
    using assms(4) by (simp add: board_def raw_def zv_def hv_def zset_of_def hash_of_def zget_def hfield_def parseInt_def)
  ultimately show ?thesis using assms(6) by (simp add: defaultWindows_def)
qed

theorem periods_never_reset_witness:
  "\<exists>r'. record_all (NewLbService app_lb_options) dec_us mem_client [ex_record] ex_mem = (r', None) \<and>
     board (NewLbService app_lb_options) dec_us (mem_tab r') WindowDaily 7 =
     board (NewLbService app_lb_options) dec_us (mem_tab r') WindowAllTime 7"
proof -
  obtain r' where r: "record_all (NewLbService app_lb_options) dec_us mem_client [ex_record] ex_mem = (r', None)"
    using ex_record_runs by blast
  from periods_never_reset [OF mem.redis_server_axioms dec.uuid_text_axioms _ _ r, of WindowDaily 7] r show ?thesis
    by (auto simp: ex_record_def ex_mem_def defaultWindows_def)
qed

text \<open>C27: A leaderboard that is read back is the ranking the store holds. Let \<open>n\<close> be the limit asked for, or \<open>topN\<close> when
  that is not between 1 and \<open>topN\<close> (so \<open>SnapshotTop\<close>, whose limit is 100, gets at most 50 in the
  application's service). The members of the window's sorted set with the \<open>n\<close> best scores, all members when there
  are fewer, give one entry each, in descending order of score; nobody left out has a better score. An entry
  has the member's identifier, its score cut to an integer, and the name, wins, games, numbers of answers and accuracy of the
  member's hash. Only a member whose hash could not be read is missing. Reading changes nothing in the
  store. The keys of the leaderboards have no deadlines, as in the application, where \<open>EntryTTL\<close> is 0.\<close>

theorem Top_is_ranked:
  assumes "redis_server rc tab clk" "0 < lb_topN s" "no_deadlines s (tab r)" "Top s us mp rc w limit r = (r', Inr es)"
  shows "tab r' = tab r \<and> sorted (rev (map le_Score es)) \<and>
    (\<exists>z best outs. zset_of (raw (tab r) (lb_prefix s @ '':'' @ w)) = Some z \<and>
      mset best \<subseteq># mset z \<and> length best = min (nat (if 0 < limit \<and> limit \<le> lb_topN s then limit else lb_topN s)) (length z) \<and>
      sorted (rev (map snd best)) \<and> (\<forall>p \<in># mset z - mset best. \<forall>q \<in> set best. snd p \<le> snd q) \<and>
      list_all2 (\<lambda>(m, score) out. case out of Some e \<Rightarrow> shows_player s us (tab r) w (mp m) score e
        | None \<Rightarrow> \<exists>ra rb err. tab ra = tab r \<and> rc_HGetAll rc ra (metaKey s us w (mp m)) = (rb, Inl err)) best outs \<and>
      es = List.map_filter (\<lambda>out. out) outs)"
proof -
  from Top_result [OF assms] obtain z outs where *: "tab r' = tab r" "sorted (rev (map le_Score es))"
    "zset_of (raw (tab r) (leaderboardKey s w)) = Some z" "es = List.map_filter (\<lambda>out. out) outs"
    "list_all2 (\<lambda>(m, x) out. case out of Some e \<Rightarrow> shows_player s us (tab r) w (mp m) x e
       | None \<Rightarrow> \<exists>ra rb err. tab ra = tab r \<and> rc_HGetAll rc ra (metaKey s us w (mp m)) = (rb, Inl err))
       (take (nat (clip_limit s limit)) (zrev z)) outs" by blast
  have n: "clip_limit s limit = (if 0 < limit \<and> limit \<le> lb_topN s then limit else lb_topN s)" by (auto simp: clip_limit_def)
  let ?best = "take (nat (clip_limit s limit)) (zrev z)"
  have "mset z - mset ?best = mset (drop (nat (clip_limit s limit)) (zrev z))" by (rule mset_rest) simp
  then have "\<forall>p \<in># mset z - mset ?best. \<forall>q \<in> set ?best. snd p \<le> snd q"
    using sorted_rev_split [OF sorted_rev_zrev] by fastforce
  moreover have "mset ?best \<subseteq># mset z" by (metis mset_zrev(1) append_take_drop_id mset_append mset_subset_eq_add_left)
  moreover have "sorted (rev (map snd ?best))" unfolding take_map [symmetric] by (rule sorted_rev_take [OF sorted_rev_zrev])
  ultimately show ?thesis using * unfolding n leaderboardKey_def by (intro conjI exI [of _ z] exI [of _ ?best] exI [of _ outs]) (auto simp: n)
qed

text \<open>A store with two players, the second of whom leads.\<close>

definition ex_ranked :: mem where
  "ex_ranked = ex_mem\<lparr>mem_tab := [''lb:daily'' \<mapsto> (DZSet [(''7'', 450), (''8'', 500)], None),
     ''lb:daily:meta:8'' \<mapsto> (DHash [(''username'', ''bob''), (''wins'', ''2''), (''games'', ''3''), (''correct'', ''4''), (''questions'', ''5'')], None)]\<rparr>"

theorem Top_is_ranked_witness:
  "\<exists>r' e. Top (NewLbService app_lb_options) dec_us (\<lambda>m. word_of_int (digits_val m)) mem_client ''daily'' 1 ex_ranked = (r', Inr [e]) \<and>
     mem_tab r' = mem_tab ex_ranked \<and> le_UserID e = 8 \<and> le_Score e = 500 \<and> le_Username e = ''bob'' \<and> le_Wins e = 2 \<and> le_Games e = 3"
proof -
  let ?s = "NewLbService app_lb_options" and ?mp = "\<lambda>m. word_of_int (digits_val m) :: uuid"
  let ?z = "[(''7'', 450), (''8'', 500)] :: (string \<times> rat) list"
  have num: "atoi ''2'' = Some 2" "atoi ''3'' = Some 3" by code_simp+
  have d8: "show_nat 8 = ''8''" by code_simp
  have k: "leaderboardKey ?s ''daily'' = ''lb:daily''" "metaKey ?s dec_us ''daily'' 8 = ''lb:daily:meta:8''" "lb_prefix ?s = ''lb''"
    by (simp_all add: leaderboardKey_def metaKey_def NewLbService_def app_lb_options_def dec_us_def d8)
  have mp: "?mp ''8'' = 8" by (simp add: digits_val_def digit_val_def)
  have n: "clip_limit ?s 1 = 1" "0 < lb_topN ?s" by (simp_all add: clip_limit_def app_service_windows)
  have z: "zrev ?z = [(''8'', 500), (''7'', 450)]" by (simp add: zrev_def less_eq_prod_def)
  obtain r' e where t: "Top ?s dec_us ?mp mem_client ''daily'' 1 ex_ranked = (r', Inr [e])"
    by (simp add: Top_def n k mp readMeta_def mem_client_def mem_read_def mem_fault_def mem_next_def ex_ranked_def ex_mem_def live_def
        zset_of_def hash_of_def typed_def zslice_def z Let_def)
  have nd: "no_deadlines ?s (mem_tab ex_ranked)" by (simp add: no_deadlines_def ex_ranked_def ex_mem_def)
  from Top_is_ranked [OF mem.redis_server_axioms n(2) nd t] obtain z best outs where
    b0: "mem_tab r' = mem_tab ex_ranked" "zset_of (raw (mem_tab ex_ranked) (lb_prefix ?s @ '':'' @ ''daily'')) = Some z"
    "mset best \<subseteq># mset z" "length best = min (nat (if 0 < (1::int) \<and> 1 \<le> lb_topN ?s then 1 else lb_topN ?s)) (length z)"
    "\<forall>p \<in># mset z - mset best. \<forall>q \<in> set best. snd p \<le> snd q" and o: "[e] = List.map_filter (\<lambda>out. out) outs"
    "list_all2 (\<lambda>(m, score) out. case out of Some e \<Rightarrow> shows_player ?s dec_us (mem_tab ex_ranked) ''daily'' (?mp m) score e
        | None \<Rightarrow> \<exists>ra rb err. mem_tab ra = mem_tab ex_ranked \<and> rc_HGetAll mem_client ra (metaKey ?s dec_us ''daily'' (?mp m)) = (rb, Inl err)) best outs"
    by (elim conjE exE) (rule that)
  have "z = ?z" using b0(2) by (simp add: k raw_def ex_ranked_def)
  with b0 have b: "mem_tab r' = mem_tab ex_ranked" "mset best \<subseteq># mset ?z" "length best = 1"
    "\<forall>p \<in># mset ?z - mset best. \<forall>q \<in> set best. snd p \<le> snd q"
    by (simp_all add: app_service_windows)
  from b(3) obtain p where p: "best = [p]" by (auto simp: length_Suc_conv)
  with b(2) have "p = (''7'', 450) \<or> p = (''8'', 500)" by auto
  with b(4) p have p8: "p = (''8'', 500)" by auto
  from o p have "outs = [Some e]" by (auto simp: list_all2_Cons1 map_filter_simps split: option.splits)
  with o(2) p p8 mp have "shows_player ?s dec_us (mem_tab ex_ranked) ''daily'' 8 500 e" by simp
  then have "le_UserID e = 8 \<and> le_Score e = 500 \<and> le_Username e = ''bob'' \<and> le_Wins e = 2 \<and> le_Games e = 3"
    by (simp add: shows_player_def k raw_def ex_ranked_def hv_def hfield_def parseInt_def num go_trunc_def Let_def)
  with t b(1) show ?thesis by blast
qed

end
