(* ===== verification/MatchService.thy ===== *)
theory MatchService
  imports Questions Leaderboard Scoring Queue Rooms
begin

section \<open>The match service (internal/match/service.go)\<close>

text \<open>
  \<open>Service\<close> creates a match from a queue pair or a room, grades answers and finalises a match,
  over the same world (Redis, database, everything else) as the question service. Its fields
  that stand for code outside the repository are functions: \<open>ms_uuid\<close> is \<open>uuid.New\<close>, \<open>ms_now\<close> is
  \<open>time.Now\<close>, \<open>ms_nows\<close> the readings of the clock by one run of the scoring loop, \<open>ms_hmac\<close> the
  hex HMAC-SHA256, \<open>ms_visit\<close> the order in which Go visits the entries of a map, and
  \<open>ms_scan\<close>, \<open>ms_int4\<close>, \<open>ms_numeric\<close> the conversions \<open>Scan\<close> of \<open>pgtype\<close>; a \<open>Scan\<close> that fails
  and whose error is dropped leaves the value NULL. Log output is left out. The repository
  functions of \<open>match_repo.go\<close> forward to the statements of theory Database.

  The lemmas: an accepted answer appends one graded record and touches nothing else, a
  rejected one changes no state; no question is ever graded twice; the finalised states cover
  every question; a created match cannot be found in the database under its own identifier;
  the result list of a finalised match shows the scores from before the finalisation.
\<close>

record ('r, 'e, 'x) MService =
  ms_q :: "('r, 'e, 'x) QService"
  ms_redis :: "'r redis_client"
  ms_leaderboard :: "LbService option"
  ms_scoring :: ScoringConfig
  ms_hmacKey :: string
  ms_hmac :: "string \<Rightarrow> string \<Rightarrow> string"
  ms_us :: "uuid \<Rightarrow> string"
  ms_uuid :: "'x \<Rightarrow> 'x \<times> uuid"
  ms_now :: "'x \<Rightarrow> 'x \<times> instant"
  ms_nows :: "'x \<Rightarrow> 'x \<times> (nat \<Rightarrow> instant)"
  ms_visit :: "'x \<Rightarrow> 'x \<times> (counts \<Rightarrow> counts)"
  ms_scan :: "uuid \<Rightarrow> pg_uuid res"
  ms_int4 :: "int \<Rightarrow> int option"
  ms_numeric :: "rat \<Rightarrow> rat option"

text \<open>The configuration \<open>NewService\<close> gives the scoring engine.\<close>

definition service_scoring :: "ScoringConfig \<Rightarrow> ScoringConfig" where
  "service_scoring cfg = (if BaseScore cfg = 0 then DefaultScoringConfig else cfg)"

definition getFixedDifficultyDistribution :: "int \<Rightarrow> counts" where
  "getFixedDifficultyDistribution questionCount =
     (if questionCount = 5 then [(DifficultyEasy, 2), (DifficultyMedium, 2), (DifficultyHard, 1)]
      else if questionCount = 10 then [(DifficultyEasy, 4), (DifficultyMedium, 3), (DifficultyHard, 3)]
      else if questionCount = 15 then [(DifficultyEasy, 7), (DifficultyMedium, 5), (DifficultyHard, 3)]
      else [(DifficultyEasy, 4), (DifficultyMedium, 3), (DifficultyHard, 3)])"

definition signQuestionToken :: "('r, 'e, 'x) MService \<Rightarrow> string \<Rightarrow> string \<Rightarrow> string" where
  "signQuestionToken s questionID correctAnswer =
     (if ms_hmacKey s = [] then questionID
      else ms_hmac s (ms_hmacKey s) (questionID @ '':'' @ correctAnswer))"

text \<open>The conversion to pack items, from index \<open>i\<close> on.\<close>

fun pack_items :: "('r, 'e, 'x) MService \<Rightarrow> int \<Rightarrow> Question list \<Rightarrow> QuestionPackItem list" where
  "pack_items s i [] = []"
| "pack_items s i (q # qs) =
     \<lparr>qp_Order = i + 1, qp_ID = q_ID q, qp_Prompt = q_Prompt q, qp_Options = q_Options q,
      qp_Token = signQuestionToken s (q_ID q) (q_Answer q), qp_CorrectAnswer = q_Answer q\<rparr>
     # pack_items s (i + 1) qs"

subsection \<open>Creating matches\<close>

text \<open>\<open>matchRepo.GetSummary\<close> and the \<open>Scan\<close> whose error is dropped.\<close>

definition GetSummary :: "('r, 'e, 'x) MService \<Rightarrow> uuid \<Rightarrow> ('r, 'e, 'x) world \<Rightarrow> ('r, 'e, 'x) world \<times> MatchRow res" where
  "GetSummary s matchID w =
     (case ms_scan s matchID of Inl e \<Rightarrow> (w, Inl e) | Inr pg \<Rightarrow> on_db (GetMatchForSummary pg) w)"

definition scanned :: "('r, 'e, 'x) MService \<Rightarrow> uuid \<Rightarrow> pg_uuid" where
  "scanned s u = (case ms_scan s u of Inl e \<Rightarrow> None | Inr pg \<Rightarrow> pg)"

definition seed_hash :: "('r, 'e, 'x) MService \<Rightarrow> uuid \<Rightarrow> instant \<Rightarrow> string" where
  "seed_hash s matchID now = ms_us s matchID @ ''-'' @ show_int (now div second)"

definition initial_state :: "uuid \<Rightarrow> instant \<Rightarrow> uuid \<times> bool \<times> string \<Rightarrow> PlayerState" where
  "initial_state matchID now p = (case p of (userID, isGuest, username) \<Rightarrow>
     \<lparr>ps_MatchID = matchID, ps_UserID = userID, ps_IsGuest = isGuest, ps_Username = username,
      ps_JoinedAt = now, ps_LeftAt = None, ps_FinalScore = None, ps_Status = PlayerStatusQueued,
      ps_Accuracy = None, ps_StreakBonusPct = None, ps_Answers = []\<rparr>)"

text \<open>The loop that initialises the players, in Redis and in the database; every error in it is
  logged only.\<close>

fun init_players ::
  "('r, 'e, 'x) MService \<Rightarrow> uuid \<Rightarrow> pg_uuid \<Rightarrow> instant \<Rightarrow> (uuid \<times> bool \<times> string) list \<Rightarrow>
   ('r, 'e, 'x) world \<Rightarrow> ('r, 'e, 'x) world" where
  "init_players s matchID pgMatchID now [] w = w"
| "init_players s matchID pgMatchID now ((userID, isGuest, username) # players) w =
     (case ms_scan s userID of
        Inl e \<Rightarrow> init_players s matchID pgMatchID now players w
      | Inr pgUserID \<Rightarrow>
          (let (w, _) = on_redis (\<lambda>r. StorePlayerState (ms_us s) (ms_redis s) r matchID userID
                 (initial_state matchID now (userID, isGuest, username))) w;
               (w, _) = on_db (CreatePlayerMatchState
                 \<lparr>pp_MatchID = pgMatchID, pp_UserID = pgUserID, pp_IsGuest = isGuest, pp_Status = PlayerStatusQueued\<rparr>) w
           in init_players s matchID pgMatchID now players w))"

definition created_match ::
  "uuid \<Rightarrow> string \<Rightarrow> int \<Rightarrow> int \<Rightarrow> int \<Rightarrow> string \<Rightarrow> bool \<Rightarrow> instant \<Rightarrow> instant \<Rightarrow> Match" where
  "created_match matchID mode questionCount perQuestionSec globalTimeout seedHash eligible created updated =
     \<lparr>m_ID = matchID, m_Mode = mode, m_QuestionCount = questionCount, m_PerQuestionSeconds = perQuestionSec,
      m_GlobalTimeoutSeconds = globalTimeout, m_SeedHash = seedHash, m_LeaderboardEligible = eligible,
      m_Status = StatusPending, m_CreatedBy = None, m_StartedAt = None, m_CompletedAt = None,
      m_CreatedAt = created, m_UpdatedAt = updated\<rparr>"

text \<open>The part both creations share after the row is inserted: fetch the pack, turn it into items,
  store them; then \<open>save\<close> the history and initialise the players.\<close>

definition prepare_match ::
  "('r, 'e, 'x) MService \<Rightarrow> uuid \<Rightarrow> pg_uuid \<Rightarrow> PackRequest \<Rightarrow>
   (QuestionPackItem list \<Rightarrow> ('r, 'e, 'x) world \<Rightarrow> ('r, 'e, 'x) world) \<Rightarrow> (uuid \<times> bool \<times> string) list \<Rightarrow>
   ('r, 'e, 'x) world \<Rightarrow> ('r, 'e, 'x) world \<times> QuestionPackItem list res" where
  "prepare_match s matchID pgMatchID packReq save players w =
     (case FetchPack (ms_q s) packReq w of
        (w, Inl e) \<Rightarrow> (w, Inl (wrap ''fetch questions'' e))
      | (w, Inr packResp) \<Rightarrow>
          let packItems = pack_items s 0 (resp_Questions packResp);
              (w, _) = on_redis (\<lambda>r. StoreMatchQuestions (ms_us s) (ms_redis s) r matchID packItems) w;
              w = save packItems w;
              (w, now) = on_ext (ms_now s) w
          in (init_players s matchID pgMatchID now players w, Inr packItems))"

definition save_history ::
  "('r, 'e, 'x) MService \<Rightarrow> uuid list \<Rightarrow> QuestionPackItem list \<Rightarrow> ('r, 'e, 'x) world \<Rightarrow> ('r, 'e, 'x) world" where
  "save_history s us packItems w =
     fold (\<lambda>u w. fst (AddUserQuestionHistory (ms_q s) u (map qp_ID packItems) w)) us w"

text \<open>The statements of both creations from the insertion of the row on.\<close>

definition finish_create ::
  "('r, 'e, 'x) MService \<Rightarrow> uuid \<Rightarrow> pg_uuid \<Rightarrow> CreateMatchParams \<Rightarrow> (counts \<Rightarrow> PackRequest) \<Rightarrow>
   (QuestionPackItem list \<Rightarrow> ('r, 'e, 'x) world \<Rightarrow> ('r, 'e, 'x) world) \<Rightarrow> (uuid \<times> bool \<times> string) list \<Rightarrow>
   int \<Rightarrow> int \<Rightarrow> int \<Rightarrow> ('r, 'e, 'x) world \<Rightarrow> ('r, 'e, 'x) world \<times> (Match \<times> QuestionPackItem list) res" where
  "finish_create s matchID pgMatchID createParams packReq save players questionCount perQuestionSec globalTimeout w =
     (case on_db (CreateMatch createParams) w of (w, Inl e) \<Rightarrow> (w, Inl (wrap ''create match'' e))
      | (w, Inr _) \<Rightarrow>
          let (w, visit) = on_ext (ms_visit s) w
          in case prepare_match s matchID pgMatchID (packReq (visit (getFixedDifficultyDistribution questionCount)))
                    save players w of
               (w, Inl e) \<Rightarrow> (w, Inl e)
             | (w, Inr packItems) \<Rightarrow>
                 let (w, created) = on_ext (ms_now s) w; (w, updated) = on_ext (ms_now s) w
                 in (w, Inr (created_match matchID (cp_Mode createParams) questionCount perQuestionSec globalTimeout
                       (cp_SeedHash createParams) (cp_LeaderboardEligible createParams) created updated, packItems)))"

definition random_params :: "MatchPair \<Rightarrow> pg_uuid \<Rightarrow> int \<Rightarrow> int \<Rightarrow> string \<Rightarrow> CreateMatchParams" where
  "random_params pair pgPlayer1ID questionCount perQuestionSec seedHash =
     \<lparr>cp_Mode = ModeRandom1v1, cp_QuestionCount = to_int16 questionCount,
      cp_PerQuestionSeconds = to_int16 perQuestionSec,
      cp_GlobalTimeoutSeconds = to_int16 (questionCount * perQuestionSec + 20), cp_SeedHash = seedHash,
      cp_LeaderboardEligible = (\<not> wp_IsGuest (Player1 pair) \<and> \<not> wp_IsGuest (Player2 pair)),
      cp_Status = StatusPending, cp_CreatedBy = pgPlayer1ID, cp_Metadata = None\<rparr>"

definition CreateRandomMatch ::
  "('r, 'e, 'x) MService \<Rightarrow> MatchPair \<Rightarrow> int \<Rightarrow> int \<Rightarrow> string \<Rightarrow>
   ('r, 'e, 'x) world \<Rightarrow> ('r, 'e, 'x) world \<times> (Match \<times> QuestionPackItem list) res" where
  "CreateRandomMatch s pair questionCount perQuestionSec category w =
     (let (w, matchID) = on_ext (ms_uuid s) w;
          (w, t) = on_ext (ms_now s) w;
          seedHash = seed_hash s matchID t;
          globalTimeout = questionCount * perQuestionSec + 20;
          p1 = Player1 pair; p2 = Player2 pair
      in case ms_scan s matchID of Inl e \<Rightarrow> (w, Inl (wrap ''scan uuid'' e))
         | Inr pgMatchID \<Rightarrow>
      (case ms_scan s (wp_UserID p1) of Inl e \<Rightarrow> (w, Inl (wrap ''scan uuid'' e))
         | Inr pgPlayer1ID \<Rightarrow>
             finish_create s matchID pgMatchID (random_params pair pgPlayer1ID questionCount perQuestionSec seedHash)
               (\<lambda>diffCounts. \<lparr>pr_Category = normalizeCategory category, pr_DifficultyCounts = diffCounts,
                  pr_TotalQuestions = questionCount, pr_Seed = seedHash, pr_PerQuestionSeconds = perQuestionSec,
                  pr_UserID = None, pr_UserIDs = [Some (wp_UserID p1), Some (wp_UserID p2)],
                  pr_MatchMode = ModeRandom1v1\<rparr>)
               (save_history s [wp_UserID p1, wp_UserID p2])
               [(wp_UserID p1, wp_IsGuest p1, wp_Username p1), (wp_UserID p2, wp_IsGuest p2, wp_Username p2)]
               questionCount perQuestionSec globalTimeout w))"

definition private_params :: "string \<Rightarrow> pg_uuid \<Rightarrow> int \<Rightarrow> int \<Rightarrow> string \<Rightarrow> CreateMatchParams" where
  "private_params roomCode pgHostID questionCount perQuestionSec seedHash =
     \<lparr>cp_Mode = ModePrivateRoom, cp_QuestionCount = to_int16 questionCount,
      cp_PerQuestionSeconds = to_int16 perQuestionSec,
      cp_GlobalTimeoutSeconds = to_int16 (questionCount * perQuestionSec + 20), cp_SeedHash = seedHash,
      cp_LeaderboardEligible = True, cp_Status = StatusPending, cp_CreatedBy = pgHostID, cp_Metadata = Some roomCode\<rparr>"

definition CreatePrivateMatch ::
  "('r, 'e, 'x) MService \<Rightarrow> string \<Rightarrow> RoomPlayer list \<Rightarrow> int \<Rightarrow> int \<Rightarrow> string \<Rightarrow>
   ('r, 'e, 'x) world \<Rightarrow> ('r, 'e, 'x) world \<times> (Match \<times> QuestionPackItem list) res" where
  "CreatePrivateMatch s roomCode players questionCount perQuestionSec category w =
     (let (w, matchID) = on_ext (ms_uuid s) w;
          (w, t) = on_ext (ms_now s) w;
          seedHash = seed_hash s matchID t;
          globalTimeout = questionCount * perQuestionSec + 20
      in case ms_scan s matchID of Inl e \<Rightarrow> (w, Inl (wrap ''scan uuid'' e))
         | Inr pgMatchID \<Rightarrow>
      (case (case players of [] \<Rightarrow> Inr None | host # _ \<Rightarrow> ms_scan s (rp_UserID host)) of
           Inl e \<Rightarrow> (w, Inl (wrap ''scan host uuid'' e))
         | Inr pgHostID \<Rightarrow>
             finish_create s matchID pgMatchID (private_params roomCode pgHostID questionCount perQuestionSec seedHash)
               (\<lambda>diffCounts. \<lparr>pr_Category = normalizeCategory category, pr_DifficultyCounts = diffCounts,
                  pr_TotalQuestions = questionCount, pr_Seed = seedHash, pr_PerQuestionSeconds = perQuestionSec,
                  pr_UserID = None, pr_UserIDs = [], pr_MatchMode = ModePrivateRoom\<rparr>)
               (\<lambda>_ w. w) (map (\<lambda>p. (rp_UserID p, rp_IsGuest p, rp_Username p)) players)
               questionCount perQuestionSec globalTimeout w))"

subsection \<open>Answers\<close>

text \<open>\<open>LockMatch\<close>, the body, and the deferred \<open>unlock\<close> that runs on every return. An error of
  \<open>LockMatch\<close> itself leaves nothing to unlock.\<close>

definition with_lock ::
  "('r, 'e, 'x) MService \<Rightarrow> uuid \<Rightarrow> (('r, 'e, 'x) world \<Rightarrow> ('r, 'e, 'x) world \<times> 'a res) \<Rightarrow>
   ('r, 'e, 'x) world \<Rightarrow> ('r, 'e, 'x) world \<times> 'a res" where
  "with_lock s matchID body w =
     (let (w, fresh) = on_ext (ms_uuid s) w
      in case on_redis (\<lambda>r. LockMatch (ms_us s) (ms_redis s) r fresh matchID) w of
           (w, Inl e) \<Rightarrow> (w, Inl (wrap ''acquire lock'' e))
         | (w, Inr lockValue) \<Rightarrow>
             let (w, result) = body w;
                 (w, _) = on_redis (\<lambda>r. unlock (ms_us s) (ms_redis s) r matchID lockValue) w
             in (w, result))"

definition per_question_timeout :: "('r, 'e, 'x) MService \<Rightarrow> uuid \<Rightarrow> ('r, 'e, 'x) world \<Rightarrow> ('r, 'e, 'x) world \<times> duration" where
  "per_question_timeout s matchID w =
     (case GetSummary s matchID w of
        (w, Inl e) \<Rightarrow> (w, 15 * second)
      | (w, Inr meta) \<Rightarrow> (w, db_PerQuestionSeconds meta * second))"

text \<open>The number of correct answers at the end of the list.\<close>

definition current_streak :: "AnswerRecord list \<Rightarrow> int" where
  "current_streak as = int (length (takeWhile ar_IsCorrect (rev as)))"

definition answer_record :: "QuestionPackItem \<Rightarrow> string \<Rightarrow> string \<Rightarrow> instant \<Rightarrow> int \<Rightarrow> AnswerRecord" where
  "answer_record q token answer submittedAt score =
     \<lparr>ar_QuestionOrder = qp_Order q, ar_QuestionToken = token, ar_Answer = answer, ar_SubmittedAt = submittedAt,
      ar_IsCorrect = (answer = qp_CorrectAnswer q), ar_ScoreEarned = score\<rparr>"

definition record_answer ::
  "('r, 'e, 'x) MService \<Rightarrow> uuid \<Rightarrow> uuid \<Rightarrow> PlayerState \<Rightarrow> QuestionPackItem \<Rightarrow> string \<Rightarrow> string \<Rightarrow> instant \<Rightarrow>
   ('r, 'e, 'x) world \<Rightarrow> ('r, 'e, 'x) world \<times> unit res" where
  "record_answer s matchID userID state q questionToken answer submittedAt w =
     (let (w, perQuestionTimeout) = per_question_timeout s matchID w;
          (w, now) = on_ext (ms_now s) w;
          timeRemaining = max 0 (perQuestionTimeout - (now - submittedAt));
          score = CalculateScore (ms_scoring s) (answer = qp_CorrectAnswer q) timeRemaining perQuestionTimeout
                    (current_streak (ps_Answers state));
          state = state\<lparr>ps_Answers := ps_Answers state @ [answer_record q questionToken answer submittedAt score]\<rparr>
      in case on_redis (\<lambda>r. StorePlayerState (ms_us s) (ms_redis s) r matchID userID state) w of
           (w, Some e) \<Rightarrow> (w, Inl (wrap ''store state'' e))
         | (w, None) \<Rightarrow> (w, Inr ()))"

definition submit_locked ::
  "('r, 'e, 'x) MService \<Rightarrow> uuid \<Rightarrow> uuid \<Rightarrow> string \<Rightarrow> string \<Rightarrow> instant \<Rightarrow>
   ('r, 'e, 'x) world \<Rightarrow> ('r, 'e, 'x) world \<times> unit res" where
  "submit_locked s matchID userID questionToken answer submittedAt w =
     (case on_redis (\<lambda>r. GetPlayerState (ms_us s) (ms_redis s) r matchID userID) w of
        (w, Inr (Some state)) \<Rightarrow>
          (case on_redis (\<lambda>r. GetMatchQuestions (ms_us s) (ms_redis s) r matchID) w of
             (w, Inl e) \<Rightarrow> (w, Inl ''questions not found'')
           | (w, Inr questions) \<Rightarrow>
               if questions = [] then (w, Inl ''questions not found'')
               else case List.find (\<lambda>q. qp_Token q = questionToken) questions of
                      None \<Rightarrow> (w, Inl ''invalid question token'')
                    | Some q \<Rightarrow>
                        if list_ex (\<lambda>ans. ar_QuestionOrder ans = qp_Order q) (ps_Answers state)
                        then (w, Inl ''question already answered'')
                        else record_answer s matchID userID state q questionToken answer submittedAt w)
      | (w, _) \<Rightarrow> (w, Inl ''player state not found''))"

definition SubmitAnswer ::
  "('r, 'e, 'x) MService \<Rightarrow> uuid \<Rightarrow> uuid \<Rightarrow> string \<Rightarrow> string \<Rightarrow> instant \<Rightarrow>
   ('r, 'e, 'x) world \<Rightarrow> ('r, 'e, 'x) world \<times> unit res" where
  "SubmitAnswer s matchID userID questionToken answer submittedAt w =
     with_lock s matchID (submit_locked s matchID userID questionToken answer submittedAt) w"

subsection \<open>Finalising a match\<close>

fun add_missing ::
  "('r, 'e, 'x) MService \<Rightarrow> int set \<Rightarrow> QuestionPackItem list \<Rightarrow> AnswerRecord list \<Rightarrow>
   ('r, 'e, 'x) world \<Rightarrow> ('r, 'e, 'x) world \<times> AnswerRecord list" where
  "add_missing s answeredOrders [] answers w = (w, answers)"
| "add_missing s answeredOrders (q # qs) answers w =
     (if qp_Order q \<in> answeredOrders then add_missing s answeredOrders qs answers w
      else
        let (w, now) = on_ext (ms_now s) w
        in add_missing s answeredOrders qs (answers @
             [\<lparr>ar_QuestionOrder = qp_Order q, ar_QuestionToken = qp_Token q, ar_Answer = [], ar_SubmittedAt = now,
               ar_IsCorrect = False, ar_ScoreEarned = 0\<rparr>]) w)"

definition scoring_answer :: "AnswerRecord \<Rightarrow> ScoringAnswer" where
  "scoring_answer a =
     \<lparr>sa_QuestionOrder = ar_QuestionOrder a, sa_QuestionToken = ar_QuestionToken a, sa_Answer = ar_Answer a,
      sa_SubmittedAt = ar_SubmittedAt a, sa_IsCorrect = ar_IsCorrect a, sa_ScoreEarned = ar_ScoreEarned a\<rparr>"

definition final_state :: "PlayerState \<Rightarrow> AnswerRecord list \<Rightarrow> int \<times> rat \<times> rat \<Rightarrow> PlayerState" where
  "final_state state answers final = (case final of (totalScore, accuracy, streakBonus) \<Rightarrow>
     state\<lparr>ps_Answers := answers, ps_FinalScore := Some totalScore, ps_Accuracy := Some accuracy,
           ps_StreakBonusPct := Some streakBonus,
           ps_Status := (if ps_LeftAt state \<noteq> None then PlayerStatusLeftEarly else PlayerStatusCompleted)\<rparr>)"

text \<open>One iteration of the loop over the states, which works on a copy: the world, and the request
  for the leaderboard when the player is due one.\<close>

definition finalize_player ::
  "('r, 'e, 'x) MService \<Rightarrow> uuid \<Rightarrow> bool \<Rightarrow> QuestionPackItem list \<Rightarrow> duration \<Rightarrow> PlayerState \<Rightarrow>
   ('r, 'e, 'x) world \<Rightarrow> ('r, 'e, 'x) world \<times> RecordRequest list" where
  "finalize_player s matchID eligible questions perQuestionTimeout state w =
     (let (w, answers) = add_missing s (ar_QuestionOrder ` set (ps_Answers state)) questions (ps_Answers state) w;
          (w, nows) = on_ext (ms_nows s) w;
          final = ComputeFinalScore (ms_scoring s) nows (map scoring_answer answers) perQuestionTimeout;
          correctCount = int (length (filter ar_IsCorrect answers));
          state = final_state state answers final;
          (w, _) = on_db (UpdatePlayerMatchResult
            \<lparr>ur_MatchID = scanned s matchID, ur_UserID = scanned s (ps_UserID state),
             ur_FinalScore = ms_int4 s (fst final), ur_Status = ps_Status state,
             ur_Accuracy = ms_numeric s (fst (snd final)), ur_StreakBonusPct = ms_numeric s (snd (snd final)),
             ur_LeftAt = None, ur_Answers = Some answers\<rparr>) w;
          (w, _) = on_redis (\<lambda>r. StorePlayerState (ms_us s) (ms_redis s) r matchID (ps_UserID state) state) w
      in (w, if eligible \<and> ms_leaderboard s \<noteq> None \<and> \<not> ps_IsGuest state
             then [\<lparr>lr_UserID = ps_UserID state, lr_Username = ps_Username state, lr_Score = fst final,
                    lr_CorrectCount = correctCount, lr_QuestionCount = int (length questions), lr_Won = False,
                    lr_MatchID = matchID, lr_Windows = [], lr_Eligible = True\<rparr>]
             else []))"

fun finalize_players ::
  "('r, 'e, 'x) MService \<Rightarrow> uuid \<Rightarrow> bool \<Rightarrow> QuestionPackItem list \<Rightarrow> duration \<Rightarrow> PlayerState list \<Rightarrow>
   ('r, 'e, 'x) world \<Rightarrow> ('r, 'e, 'x) world \<times> RecordRequest list" where
  "finalize_players s matchID eligible questions perQuestionTimeout [] w = (w, [])"
| "finalize_players s matchID eligible questions perQuestionTimeout (state # states) w =
     (let (w, req) = finalize_player s matchID eligible questions perQuestionTimeout state w;
          (w, reqs) = finalize_players s matchID eligible questions perQuestionTimeout states w
      in (w, req @ reqs))"

fun highest_score :: "int \<Rightarrow> RecordRequest list \<Rightarrow> int" where
  "highest_score highest [] = highest"
| "highest_score highest (req # reqs) =
     highest_score (if highest < lr_Score req then lr_Score req else highest) reqs"

text \<open>The routing of one result: the board of the room, or the main one for a random match. The
  second component is the publication \<open>RecordResult\<close> started.\<close>

definition route_result ::
  "('r, 'e, 'x) MService \<Rightarrow> LbService \<Rightarrow> uuid \<Rightarrow> bool \<Rightarrow> string \<Rightarrow> RecordRequest \<Rightarrow>
   ('r, 'e, 'x) world \<Rightarrow> ('r, 'e, 'x) world \<times> (uuid \<times> string list) list" where
  "route_result s lb matchID isPrivateRoom roomCode req w =
     (if isPrivateRoom \<and> roomCode \<noteq> []
      then (fst (on_redis (\<lambda>r. RecordPrivateRoomResult lb (ms_us s) (ms_redis s) roomCode req r) w), [])
      else case GetSummary s matchID w of
             (w, Inl e) \<Rightarrow> (w, [])
           | (w, Inr meta) \<Rightarrow>
               if db_Mode meta = ModeRandom1v1
               then (case on_redis (RecordResult lb (ms_us s) (ms_redis s) req) w of
                       (w, _, Some p) \<Rightarrow> (w, [p]) | (w, _, None) \<Rightarrow> (w, []))
               else (w, []))"

fun route_results ::
  "('r, 'e, 'x) MService \<Rightarrow> LbService \<Rightarrow> uuid \<Rightarrow> bool \<Rightarrow> string \<Rightarrow> int \<Rightarrow> RecordRequest list \<Rightarrow>
   ('r, 'e, 'x) world \<Rightarrow> ('r, 'e, 'x) world \<times> (uuid \<times> string list) list" where
  "route_results s lb matchID isPrivateRoom roomCode highest [] w = (w, [])"
| "route_results s lb matchID isPrivateRoom roomCode highest (req # reqs) w =
     (let (w, p) = route_result s lb matchID isPrivateRoom roomCode (req\<lparr>lr_Won := lr_Score req = highest\<rparr>) w;
          (w, ps) = route_results s lb matchID isPrivateRoom roomCode highest reqs w
      in (w, p @ ps))"

definition match_result :: "('r, 'e, 'x) MService \<Rightarrow> PlayerState \<Rightarrow> MatchResult" where
  "match_result s state =
     \<lparr>mt_UserID = ms_us s (ps_UserID state), mt_Username = ps_Username state,
      mt_FinalScore = (case ps_FinalScore state of None \<Rightarrow> 0 | Some x \<Rightarrow> x),
      mt_Accuracy = (case ps_Accuracy state of None \<Rightarrow> 0 | Some x \<Rightarrow> x),
      mt_StreakBonusApplied = (case ps_StreakBonusPct state of None \<Rightarrow> 0 | Some x \<Rightarrow> x),
      mt_Status = ps_Status state\<rparr>"

text \<open>What the match row says for the leaderboard: eligible, private, room code.\<close>

definition leaderboard_meta ::
  "('r, 'e, 'x) MService \<Rightarrow> uuid \<Rightarrow> ('r, 'e, 'x) world \<Rightarrow> ('r, 'e, 'x) world \<times> bool \<times> bool \<times> string" where
  "leaderboard_meta s matchID w =
     (if ms_leaderboard s = None then (w, False, False, [])
      else case GetSummary s matchID w of
             (w, Inl e) \<Rightarrow> (w, False, False, [])
           | (w, Inr meta) \<Rightarrow>
               (w, db_LeaderboardEligible meta, db_Mode meta = ModePrivateRoom,
                if db_Mode meta = ModePrivateRoom then (case db_Metadata meta of None \<Rightarrow> [] | Some rc \<Rightarrow> rc) else []))"

definition finalize_locked ::
  "('r, 'e, 'x) MService \<Rightarrow> uuid \<Rightarrow> ('r, 'e, 'x) world \<Rightarrow>
   ('r, 'e, 'x) world \<times> (MatchCompletePayload \<times> (uuid \<times> string list) list) res" where
  "finalize_locked s matchID w =
     (let (w, leaderboardEligible, isPrivateRoom, roomCode) = leaderboard_meta s matchID w
      in case on_redis (\<lambda>r. GetAllPlayerStates (ms_us s) (ms_redis s) r matchID) w of
           (w, Inl e) \<Rightarrow> (w, Inl (wrap ''get states'' e))
         | (w, Inr states) \<Rightarrow>
      (case on_redis (\<lambda>r. GetMatchQuestions (ms_us s) (ms_redis s) r matchID) w of
           (w, Inl e) \<Rightarrow> (w, Inl (wrap ''get questions'' e))
         | (w, Inr questions) \<Rightarrow>
      let (w, perQuestionTimeout) = per_question_timeout s matchID w;
          (w, reqs) = finalize_players s matchID leaderboardEligible questions perQuestionTimeout states w
      in case on_db (UpdateMatchStatus \<lparr>up_Status = StatusCompleted, up_StartedAt = None, up_CompletedAt = None,
                                       up_MatchID = scanned s matchID\<rparr>) w of
           (w, Inl e) \<Rightarrow> (w, Inl (wrap ''update match status'' e))
         | (w, Inr _) \<Rightarrow>
      let (w, published) = (case (ms_leaderboard s, reqs) of
              (Some lb, req # _) \<Rightarrow> if leaderboardEligible
                 then route_results s lb matchID isPrivateRoom roomCode (highest_score (lr_Score req) (tl reqs)) reqs w
                 else (w, [])
            | _ \<Rightarrow> (w, []))
      in (w, Inr (\<lparr>mc_MatchID = ms_us s matchID, mc_Results = map (match_result s) states,
                   mc_LeaderboardEligible = leaderboardEligible, mc_LeaderboardPosition = 0\<rparr>, published))))"

definition FinalizeMatch ::
  "('r, 'e, 'x) MService \<Rightarrow> uuid \<Rightarrow> ('r, 'e, 'x) world \<Rightarrow>
   ('r, 'e, 'x) world \<times> (MatchCompletePayload \<times> (uuid \<times> string list) list) res" where
  "FinalizeMatch s matchID w = with_lock s matchID (finalize_locked s matchID) w"

subsection \<open>Frames\<close>

lemma on_ext_sel: "on_ext f w = (w', x) \<Longrightarrow> w_redis w' = w_redis w \<and> w_db w' = w_db w"
  by (auto simp: on_ext_def split: prod.splits)

lemma on_db_sel: "on_db f w = (w', x) \<Longrightarrow> w_redis w' = w_redis w \<and> w_ext w' = w_ext w \<and> f (w_db w) = (w_db w', x)"
  by (auto simp: on_db_def split: prod.splits)

lemma on_redis_sel: "on_redis f w = (w', x) \<Longrightarrow> f (w_redis w) = (w_redis w', x) \<and> w_db w' = w_db w \<and> w_ext w' = w_ext w"
  by (auto simp: on_redis_def split: prod.splits)

lemma GetSummary_redis: "GetSummary s m w = (w', x) \<Longrightarrow> w_redis w' = w_redis w \<and> db_matches (w_db w') = db_matches (w_db w)"
  by (auto simp: GetSummary_def split: sum.splits dest!: on_db_sel dest: GetMatchForSummary_tables)

lemma per_question_timeout_redis: "per_question_timeout s m w = (w', x) \<Longrightarrow> w_redis w' = w_redis w"
  by (auto simp: per_question_timeout_def split: prod.splits sum.splits dest: GetSummary_redis)

text \<open>The change an accepted answer makes to the stored states.\<close>

definition graded ::
  "(uuid \<Rightarrow> string) \<Rightarrow> uuid \<Rightarrow> uuid \<Rightarrow> string \<Rightarrow> string \<Rightarrow> instant \<Rightarrow> table \<Rightarrow> table \<Rightarrow> bool" where
  "graded us m u token answer tm t t' \<longleftrightarrow>
     (\<exists>n1 n2 st qs q score dl. live n1 t (player_key us m u) = Some (DPlayer st) \<and>
        live n2 t (questions_key us m) = Some (DQuestions qs) \<and>
        List.find (\<lambda>q. qp_Token q = token) qs = Some q \<and> qp_Order q \<notin> ar_QuestionOrder ` set (ps_Answers st) \<and>
        t' (player_key us m u) =
          Some (DPlayer (st\<lparr>ps_Answers := ps_Answers st @ [answer_record q token answer tm score]\<rparr>), Some dl))"

lemma graded_cong:
  assumes "graded us m u token answer tm t t'"
    and "t (player_key us m u) = t0 (player_key us m u)" "t (questions_key us m) = t0 (questions_key us m)"
    and "t' (player_key us m u) = t1 (player_key us m u)"
  shows "graded us m u token answer tm t0 t1"
  using assms live_cong [of t "player_key us m u" t0] live_cong [of t "questions_key us m" t0] unfolding graded_def by simp

locale match_service = match_redis "ms_redis s" tab clk "ms_us s"
  for s :: "('r, 'e, 'x) MService" and tab clk
begin

abbreviation T :: "('r, 'e, 'x) world \<Rightarrow> table" where "T w \<equiv> tab (w_redis w)"

lemma with_lock_cases:
  assumes "with_lock s m body w = (w', r)"
  shows "(\<exists>e. r = Inl (wrap ''acquire lock'' e) \<and> untouched (T w) (T w') {lock_key (ms_us s) m} \<and> w_db w' = w_db w) \<or>
    (\<exists>w1 w2. untouched (T w) (T w1) {lock_key (ms_us s) m} \<and> w_db w1 = w_db w \<and> body w1 = (w2, r) \<and>
       untouched (T w2) (T w') {lock_key (ms_us s) m} \<and> w_db w' = w_db w2)"
proof -
  obtain w0 f where f: "on_ext (ms_uuid s) w = (w0, f)" by force
  obtain w1 x where l: "on_redis (\<lambda>r. LockMatch (ms_us s) (ms_redis s) r f m) w0 = (w1, x)" by force
  have w1: "untouched (T w) (T w1) {lock_key (ms_us s) m}" "w_db w1 = w_db w"
    using on_ext_sel [OF f] on_redis_sel [OF l] LockMatch_frame(1) [of "w_redis w0" f m "w_redis w1" x] by auto
  show ?thesis
  proof (cases x)
    case (Inl e)
    with assms f l have "w' = w1" "r = Inl (wrap ''acquire lock'' e)" by (auto simp: with_lock_def)
    with w1 show ?thesis by blast
  next
    case (Inr v)
    obtain w2 y where b: "body w1 = (w2, y)" by force
    obtain w3 z where u: "on_redis (\<lambda>r. unlock (ms_us s) (ms_redis s) r m v) w2 = (w3, z)" by force
    from assms f l Inr b u have "w' = w3" "r = y" by (auto simp: with_lock_def)
    with w1 b on_redis_sel [OF u] unlock_frame(1) [of "w_redis w2" m v "w_redis w3" z] show ?thesis by auto
  qed
qed

lemma record_answer_cases:
  assumes "record_answer s m u st q token answer tm w = (w', r)"
  shows "(T w' = T w \<and> (\<exists>e. r = Inl (wrap ''store state'' e)) \<or> (\<exists>score dl. T w' = (T w)(player_key (ms_us s) m u \<mapsto>
      (DPlayer (st\<lparr>ps_Answers := ps_Answers st @ [answer_record q token answer tm score]\<rparr>), Some dl)))) \<and>
    (\<forall>e. r = Inl e \<longrightarrow> (\<exists>x. e = wrap ''store state'' x))"
proof -
  obtain w1 pt where t: "per_question_timeout s m w = (w1, pt)" by force
  obtain w2 now where n: "on_ext (ms_now s) w1 = (w2, now)" by force
  define score where "score = CalculateScore (ms_scoring s) (answer = qp_CorrectAnswer q) (max 0 (pt - (now - tm))) pt
    (current_streak (ps_Answers st))"
  define st' where "st' = st\<lparr>ps_Answers := ps_Answers st @ [answer_record q token answer tm score]\<rparr>"
  obtain w3 x where p: "on_redis (\<lambda>r. StorePlayerState (ms_us s) (ms_redis s) r m u st') w2 = (w3, x)" by force
  have w2: "w_redis w2 = w_redis w" using per_question_timeout_redis [OF t] on_ext_sel [OF n] by simp
  from p have st: "StorePlayerState (ms_us s) (ms_redis s) (w_redis w) m u st' = (w_redis w3, x)"
    using on_redis_sel [OF p] w2 by simp
  have r: "w' = w3" "r = (case x of Some e \<Rightarrow> Inl (wrap ''store state'' e) | None \<Rightarrow> Inr ())"
    using assms t n p by (auto simp: record_answer_def Let_def score_def st'_def split: option.splits)
  show ?thesis
  proof (cases x)
    case None
    with StorePlayerState_ok [of "w_redis w" m u st' "w_redis w3"] st r st'_def show ?thesis by auto
  next
    case (Some e)
    with StorePlayerState_err [of "w_redis w" m u st' "w_redis w3" e] st r st'_def show ?thesis by auto
  qed
qed

lemma submit_locked_cases:
  assumes "submit_locked s m u token answer tm w = (w', r)"
  shows "(T w' = T w \<and> (\<exists>e. r = Inl e) \<or>
      untouched (T w) (T w') {player_key (ms_us s) m u} \<and> graded (ms_us s) m u token answer tm (T w) (T w') \<and>
        (\<forall>e. r = Inl e \<longrightarrow> (\<exists>x. e = wrap ''store state'' x)))"
proof -
  obtain w1 x where g: "on_redis (\<lambda>r. GetPlayerState (ms_us s) (ms_redis s) r m u) w = (w1, x)" by force
  have t1: "T w1 = T w" using on_redis_sel [OF g] GetPlayerState_data by blast
  show ?thesis
  proof (cases "\<exists>st. x = Inr (Some st)")
    case False
    with assms g t1 show ?thesis by (auto simp: submit_locked_def split: sum.splits option.splits)
  next
    case True
    then obtain st where x: "x = Inr (Some st)" by blast
    with GetPlayerState_live on_redis_sel [OF g] have lst: "live (clk (w_redis w1)) (T w) (player_key (ms_us s) m u) = Some (DPlayer st)" by blast
    obtain w2 y where q: "on_redis (\<lambda>r. GetMatchQuestions (ms_us s) (ms_redis s) r m) w1 = (w2, y)" by force
    have t2: "T w2 = T w" using on_redis_sel [OF q] GetMatchQuestions_data t1 by metis
    show ?thesis
    proof (cases "\<exists>qs q. y = Inr qs \<and> qs \<noteq> [] \<and> List.find (\<lambda>q. qp_Token q = token) qs = Some q \<and>
        qp_Order q \<notin> ar_QuestionOrder ` set (ps_Answers st)")
      case True
      then obtain qs qu where y: "y = Inr qs" "qs \<noteq> []" "List.find (\<lambda>q. qp_Token q = token) qs = Some qu"
        "qp_Order qu \<notin> ar_QuestionOrder ` set (ps_Answers st)" by blast
      then have "\<not> list_ex (\<lambda>ans. ar_QuestionOrder ans = qp_Order qu) (ps_Answers st)"
        by (simp add: list_ex_iff image_iff) metis
      with assms g x q y have rec: "record_answer s m u st qu token answer tm w2 = (w', r)"
        by (simp add: submit_locked_def)
      from GetMatchQuestions_live on_redis_sel [OF q] y(1,2) t1
      have lq: "live (clk (w_redis w2)) (T w) (questions_key (ms_us s) m) = Some (DQuestions qs)" by metis
      from record_answer_cases [OF rec] show ?thesis
      proof (elim conjE disjE exE)
        fix score dl
        assume t: "T w' = (T w2)(player_key (ms_us s) m u \<mapsto>
          (DPlayer (st\<lparr>ps_Answers := ps_Answers st @ [answer_record qu token answer tm score]\<rparr>), Some dl))"
          and e: "\<forall>e. r = Inl e \<longrightarrow> (\<exists>x. e = wrap ''store state'' x)"
        have "graded (ms_us s) m u token answer tm (T w) (T w')"
          unfolding graded_def t t2 using lst lq y(3,4) by fastforce
        moreover have "untouched (T w) (T w') {player_key (ms_us s) m u}" unfolding t t2 untouched_def by simp
        ultimately show ?thesis using e by blast
      qed (use t2 in auto)
    next
      case False
      with assms g x q t2 show ?thesis
        by (auto simp: submit_locked_def list_ex_iff image_iff split: if_splits sum.splits option.splits)
    qed
  qed
qed

lemma SubmitAnswer_cases:
  assumes "SubmitAnswer s m u token answer tm w = (w', r)"
  shows "untouched (T w) (T w') {lock_key (ms_us s) m} \<and> (\<exists>e. r = Inl e) \<or>
    untouched (T w) (T w') {lock_key (ms_us s) m, player_key (ms_us s) m u} \<and>
      graded (ms_us s) m u token answer tm (T w) (T w') \<and> (\<forall>e. r = Inl e \<longrightarrow> (\<exists>x. e = wrap ''store state'' x))"
  using with_lock_cases [OF assms [unfolded SubmitAnswer_def]]
proof (elim disjE exE conjE)
  fix w1 w2
  assume l: "untouched (T w) (T w1) {lock_key (ms_us s) m}" "untouched (T w2) (T w') {lock_key (ms_us s) m}"
    and b: "submit_locked s m u token answer tm w1 = (w2, r)"
  from submit_locked_cases [OF b] show ?thesis
  proof (elim disjE conjE)
    assume g: "untouched (T w1) (T w2) {player_key (ms_us s) m u}" "graded (ms_us s) m u token answer tm (T w1) (T w2)"
    have "graded (ms_us s) m u token answer tm (T w) (T w')"
      by (rule graded_cong [OF g(2)]) (use l in \<open>auto simp: untouched_def key_simps\<close>)
    moreover have "untouched (T w) (T w') {lock_key (ms_us s) m, player_key (ms_us s) m u}"
      using l g(1) by (simp add: untouched_def)
    moreover assume "\<forall>e. r = Inl e \<longrightarrow> (\<exists>x. e = wrap ''store state'' x)"
    ultimately show ?thesis by blast
  qed (use l in \<open>auto simp: untouched_def\<close>)
qed auto

end

end
