(* ===== verification/MatchRuns.thy ===== *)
theory MatchRuns
  imports MatchService
begin

section \<open>Runs of the match service\<close>

text \<open>
  The properties of theory MatchService: what finalising does to a player state, the invariant of
  the stored states and packs over every run of the service (\<open>match_run\<close>), and what the
  service leaves in Redis, in the database and in the payload it broadcasts. \<open>app_wired\<close> is the
  wiring of \<open>app.New\<close>: one Redis server for every part. \<open>ex_ms\<close> is a service on the server in
  memory, on which the witnesses run.
\<close>

subsection \<open>Finalised states\<close>

text \<open>What finalising does to one player state: a wrong answer for every question without one, then
  the results.\<close>

definition missing_orders :: "QuestionPackItem list \<Rightarrow> PlayerState \<Rightarrow> int list" where
  "missing_orders qs st = filter (\<lambda>n. n \<notin> ar_QuestionOrder ` set (ps_Answers st)) (map qp_Order qs)"

definition unanswered :: "AnswerRecord \<Rightarrow> bool" where
  "unanswered a \<longleftrightarrow> ar_Answer a = [] \<and> \<not> ar_IsCorrect a \<and> ar_ScoreEarned a = 0"

definition finalised :: "ScoringConfig \<Rightarrow> duration \<Rightarrow> QuestionPackItem list \<Rightarrow> PlayerState \<Rightarrow> PlayerState \<Rightarrow> bool" where
  "finalised cfg pt qs st st' \<longleftrightarrow>
     (\<exists>ms nows. map ar_QuestionOrder ms = missing_orders qs st \<and> list_all unanswered ms \<and>
        st' = final_state st (ps_Answers st @ ms)
                (ComputeFinalScore cfg nows (map scoring_answer (ps_Answers st @ ms)) pt))"

lemma add_missing_spec:
  "add_missing s A qs as w = (w', as') \<Longrightarrow> w_redis w' = w_redis w \<and> w_db w' = w_db w \<and>
     (\<exists>ms. as' = as @ ms \<and> map ar_QuestionOrder ms = filter (\<lambda>n. n \<notin> A) (map qp_Order qs) \<and> list_all unanswered ms)"
proof (induction qs arbitrary: as w)
  case (Cons q qs)
  show ?case
  proof (cases "qp_Order q \<in> A")
    case True
    with Cons show ?thesis by simp
  next
    case False
    obtain w1 now where n: "on_ext (ms_now s) w = (w1, now)" by force
    let ?a = "\<lparr>ar_QuestionOrder = qp_Order q, ar_QuestionToken = qp_Token q, ar_Answer = [], ar_SubmittedAt = now,
               ar_IsCorrect = False, ar_ScoreEarned = 0\<rparr>"
    from Cons.prems False n have "add_missing s A qs (as @ [?a]) w1 = (w', as')" by simp
    from Cons.IH [OF this] on_ext_sel [OF n] obtain ms where "w_redis w' = w_redis w" "w_db w' = w_db w"
      "as' = as @ ?a # ms" "map ar_QuestionOrder ms = filter (\<lambda>n. n \<notin> A) (map qp_Order qs)" "list_all unanswered ms" by auto
    moreover have "unanswered ?a" by (simp add: unanswered_def)
    ultimately show ?thesis using False by (intro conjI exI [of _ "?a # ms"]) auto
  qed
qed simp

lemma final_state_sel [simp]:
  "ps_UserID (final_state st as x) = ps_UserID st" "ps_Answers (final_state st as x) = as"
  "ps_FinalScore (final_state st as x) = Some (fst x)" "ps_IsGuest (final_state st as x) = ps_IsGuest st"
  "ps_LeftAt (final_state st as x) = ps_LeftAt st"
  "ps_Status (final_state st as x) = (if ps_LeftAt st \<noteq> None then PlayerStatusLeftEarly else PlayerStatusCompleted)"
  by (simp_all add: final_state_def split: prod.splits)

lemma missing_orders_distinct:
  "distinct (map qp_Order qs) \<Longrightarrow> distinct_orders (ps_Answers st) \<Longrightarrow>
   map ar_QuestionOrder ms = missing_orders qs st \<Longrightarrow> distinct_orders (ps_Answers st @ ms)"
proof -
  assume d: "distinct (map qp_Order qs)" "distinct_orders (ps_Answers st)" "map ar_QuestionOrder ms = missing_orders qs st"
  have "set (map ar_QuestionOrder ms) \<inter> ar_QuestionOrder ` set (ps_Answers st) = {}"
    unfolding d(3) by (auto simp: missing_orders_def)
  moreover have "distinct (map ar_QuestionOrder ms)" unfolding d(3) using d(1) by (simp add: missing_orders_def)
  ultimately show ?thesis using d(2) by (auto simp: distinct_orders_def)
qed

lemma finalised_props:
  assumes "finalised cfg pt qs st st'"
  shows "(\<forall>q \<in> set qs. qp_Order q \<in> ar_QuestionOrder ` set (ps_Answers st')) \<and> ps_FinalScore st' \<noteq> None \<and>
    prefix (ps_Answers st) (ps_Answers st') \<and> ps_UserID st' = ps_UserID st \<and>
    (distinct (map qp_Order qs) \<and> distinct_orders (ps_Answers st) \<longrightarrow> distinct_orders (ps_Answers st'))"
proof -
  from assms obtain ms x where m: "map ar_QuestionOrder ms = missing_orders qs st" "st' = final_state st (ps_Answers st @ ms) x"
    unfolding finalised_def by blast
  have "qp_Order q \<in> ar_QuestionOrder ` set (ps_Answers st @ ms)" if "q \<in> set qs" for q
  proof (cases "qp_Order q \<in> ar_QuestionOrder ` set (ps_Answers st)")
    case False
    with that have "qp_Order q \<in> set (map ar_QuestionOrder ms)" unfolding m(1) by (auto simp: missing_orders_def)
    then show ?thesis by auto
  qed auto
  with m missing_orders_distinct [OF _ _ m(1)] show ?thesis by auto
qed

lemma highest_score_max: "highest_score h reqs = foldl max h (map lr_Score reqs)"
  by (induction h reqs rule: highest_score.induct) (simp_all add: max_def)

context match_service begin

lemma StorePlayerState_write:
  "StorePlayerState (ms_us s) (ms_redis s) r m u st = (r', e) \<Longrightarrow> tab r' = tab r \<or>
     (\<exists>dl. tab r' = (tab r)(player_key (ms_us s) m u \<mapsto> (DPlayer st, Some dl)))"
  by (cases e) (use StorePlayerState_ok StorePlayerState_err in blast)+

lemma finalize_player_cases:
  assumes "finalize_player s m el qs pt st w = (w', reqs)"
  shows "(T w' = T w \<or> (\<exists>st' dl. finalised (ms_scoring s) pt qs st st' \<and>
      T w' = (T w)(player_key (ms_us s) m (ps_UserID st) \<mapsto> (DPlayer st', Some dl)))) \<and>
    db_matches (w_db w') = db_matches (w_db w) \<and> (\<not> el \<longrightarrow> reqs = [])"
proof -
  obtain w1 as where a: "add_missing s (ar_QuestionOrder ` set (ps_Answers st)) qs (ps_Answers st) w = (w1, as)" by force
  from add_missing_spec [OF a] obtain ms where w1: "w_redis w1 = w_redis w" "w_db w1 = w_db w"
    and ms: "as = ps_Answers st @ ms" "map ar_QuestionOrder ms = missing_orders qs st" "list_all unanswered ms"
    by (auto simp: missing_orders_def)
  obtain w2 nows where n: "on_ext (ms_nows s) w1 = (w2, nows)" by force
  define fin where "fin = ComputeFinalScore (ms_scoring s) nows (map scoring_answer as) pt"
  define st' where "st' = final_state st as fin"
  have f: "finalised (ms_scoring s) pt qs st st'" unfolding finalised_def st'_def fin_def using ms by blast
  obtain arg w3 y where d: "on_db (UpdatePlayerMatchResult arg) w2 = (w3, y)"
    and r: "\<exists>z. on_redis (\<lambda>r. StorePlayerState (ms_us s) (ms_redis s) r m (ps_UserID st) st') w3 = (w', z)"
    and q: "\<not> el \<longrightarrow> reqs = []"
    using assms a n unfolding finalize_player_def Let_def fin_def st'_def
    by (fastforce split: prod.splits)
  have w3: "w_redis w3 = w_redis w" "db_matches (w_db w3) = db_matches (w_db w)"
    using on_db_sel [OF d] on_ext_sel [OF n] w1 UpdatePlayerMatchResult_fails [of arg "w_db w2"] by auto
  from r obtain z where st: "StorePlayerState (ms_us s) (ms_redis s) (w_redis w) m (ps_UserID st) st' = (w_redis w', z)"
    and db: "w_db w' = w_db w3" using on_redis_sel w3 by fastforce
  from StorePlayerState_write [OF st] f w3 db q show ?thesis by auto
qed

lemma finalize_players_cases:
  assumes "finalize_players s m el qs pt sts w = (w', reqs)"
  shows "(\<forall>k. T w' k = T w k \<or> (\<exists>st \<in> set sts. \<exists>st' dl. k = player_key (ms_us s) m (ps_UserID st) \<and>
      finalised (ms_scoring s) pt qs st st' \<and> T w' k = Some (DPlayer st', Some dl))) \<and>
    db_matches (w_db w') = db_matches (w_db w) \<and> (\<not> el \<longrightarrow> reqs = [])"
  using assms
proof (induction sts arbitrary: w reqs)
  case (Cons st sts)
  obtain w1 q1 where p: "finalize_player s m el qs pt st w = (w1, q1)" by force
  obtain w2 q2 where l: "finalize_players s m el qs pt sts w1 = (w2, q2)" by force
  from Cons.prems p l have e: "w' = w2" "reqs = q1 @ q2" by auto
  note c1 = finalize_player_cases [OF p] and c2 = Cons.IH [OF l [folded e(1)]]
  have "T w' k = T w k \<or> (\<exists>st0 \<in> set (st # sts). \<exists>st' dl. k = player_key (ms_us s) m (ps_UserID st0) \<and>
      finalised (ms_scoring s) pt qs st0 st' \<and> T w' k = Some (DPlayer st', Some dl))" for k
  proof (cases "T w' k = T w1 k")
    case True
    with c1 show ?thesis by (auto split: if_splits)
  next
    case False
    with c2 show ?thesis by fastforce
  qed
  with c1 c2 e show ?case by auto
qed simp

end

subsection \<open>The invariant of the store\<close>

text \<open>A stored player never has two answers to one question and a stored pack numbers its questions
  apart. Keys of locks and of other components are left out.\<close>

fun doc_ok :: "doc \<Rightarrow> bool" where
  "doc_ok (DPlayer st) = distinct_orders (ps_Answers st)"
| "doc_ok (DQuestions qs) = distinct (map qp_Order qs)"
| "doc_ok _ = True"

definition other_key :: "string \<Rightarrow> bool" where
  "other_key k \<longleftrightarrow> \<not> prefix ''match:'' k \<or> prefix ''match:lock:'' k"

definition store_ok :: "table \<Rightarrow> bool" where
  "store_ok t \<longleftrightarrow> (\<forall>k d dl. t k = Some (d, dl) \<longrightarrow> \<not> other_key k \<longrightarrow> doc_ok d)"

lemma other_key_keys [simp]:
  "other_key (lock_key us m)" "\<not> other_key (player_key us m u)" "\<not> other_key (questions_key us m)"
  by (simp_all add: other_key_def lock_key_def player_key_def questions_key_def)

lemma store_okD: "store_ok t \<Longrightarrow> t k = Some (d, dl) \<Longrightarrow> \<not> other_key k \<Longrightarrow> doc_ok d"
  unfolding store_ok_def by blast

lemma store_ok_upd: "store_ok t \<Longrightarrow> \<not> other_key k \<longrightarrow> doc_ok d \<Longrightarrow> store_ok (t(k \<mapsto> (d, dl)))"
  by (auto simp: store_ok_def)

lemma store_ok_live: "store_ok t \<Longrightarrow> live now t k = Some d \<Longrightarrow> \<not> other_key k \<Longrightarrow> doc_ok d"
  by (auto simp: live_def split: option.splits if_splits dest: store_okD)

lemma store_ok_untouched: "store_ok t \<Longrightarrow> untouched t t' {lock_key us m} \<Longrightarrow> store_ok t'"
  unfolding store_ok_def untouched_def by (metis other_key_keys(1) singletonD)

lemma store_ok_cmd: "store_ok t \<Longrightarrow> run_cmd now c t = Some t' \<Longrightarrow> store_ok t'"
  by (cases c) (auto simp: expire_def split: option.splits if_splits intro!: store_ok_upd dest: store_ok_live)

lemma store_ok_tx: "store_ok t \<Longrightarrow> store_ok (run_tx now cs t)"
  by (induction cs arbitrary: t) (auto split: option.splits dest: store_ok_cmd)

lemma store_ok_tx_exec:
  assumes "redis_server rc tab clk" "rc_TxExec rc r cs = (r', e)" "store_ok (tab r)"
  shows "store_ok (tab r')"
proof (cases e)
  case None
  with redis_server.tx_ok [OF assms(1)] assms(2,3) show ?thesis by (auto simp: becomes_def store_ok_tx)
next
  case (Some x)
  with redis_server.tx_err [OF assms(1), of r cs r' x] assms(2,3) show ?thesis
    by (auto simp: becomes_def same_data_def store_ok_tx)
qed

lemma update_windows_store_ok:
  assumes "redis_server rc tab clk" "update_windows lb us rc e ws r = (r', x)" "store_ok (tab r)"
  shows "store_ok (tab r')"
  using assms(2,3)
proof (induction ws arbitrary: r)
  case (Cons w0 ws)
  obtain r1 y where u: "updateWindow lb us rc w0 e r = (r1, y)" by force
  have "store_ok (tab r1)" using u Cons.prems(2) store_ok_tx_exec [OF assms(1)]
    by (auto simp: updateWindow_def Let_def split: prod.splits option.splits)
  with Cons u show ?case by (auto split: option.splits)
qed simp

lemma RecordResult_store_ok:
  "redis_server rc tab clk \<Longrightarrow> RecordResult lb us rc q r = (r', x) \<Longrightarrow> store_ok (tab r) \<Longrightarrow> store_ok (tab r')"
  by (auto simp: RecordResult_def Let_def split: if_splits prod.splits option.splits dest: update_windows_store_ok)

lemma RecordPrivateRoomResult_store_ok:
  "redis_server rc tab clk \<Longrightarrow> RecordPrivateRoomResult lb us rc code q r = (r', x) \<Longrightarrow> store_ok (tab r) \<Longrightarrow> store_ok (tab r')"
  by (auto simp: RecordPrivateRoomResult_def Let_def split: if_splits prod.splits option.splits dest: store_ok_tx_exec)

context match_service begin

lemma route_result_store_ok:
  assumes "route_result s lb m p code q w = (w', x)" "store_ok (T w)"
  shows "store_ok (T w')"
proof (cases "p \<and> code \<noteq> []")
  case True
  obtain w1 e where "on_redis (\<lambda>r. RecordPrivateRoomResult lb (ms_us s) (ms_redis s) code q r) w = (w1, e)" by force
  with assms True RecordPrivateRoomResult_store_ok [OF redis_server_axioms] on_redis_sel show ?thesis
    by (fastforce simp: route_result_def)
next
  case False
  obtain w1 y where g: "GetSummary s m w = (w1, y)" by force
  obtain w2 z where q: "on_redis (RecordResult lb (ms_us s) (ms_redis s) q) w1 = (w2, z)" by (rule prod.exhaust)
  have "store_ok (T w2)" using RecordResult_store_ok [OF redis_server_axioms] on_redis_sel [OF q] GetSummary_redis [OF g] assms(2) by metis
  with assms False g q GetSummary_redis [OF g] show ?thesis
    by (auto simp: route_result_def split: sum.splits if_splits prod.splits option.splits)
qed

lemma route_results_store_ok:
  "route_results s lb m p code h qs w = (w', x) \<Longrightarrow> store_ok (T w) \<Longrightarrow> store_ok (T w')"
proof (induction qs arbitrary: w x)
  case (Cons q qs)
  obtain w1 y where r: "route_result s lb m p code (q\<lparr>lr_Won := lr_Score q = h\<rparr>) w = (w1, y)" by force
  obtain w2 z where l: "route_results s lb m p code h qs w1 = (w2, z)" by force
  from Cons.prems r l have "w' = w2" by auto
  with Cons.IH [OF l [folded \<open>w' = w2\<close>]] route_result_store_ok [OF r Cons.prems(2)] show ?case by blast
qed simp

lemma SubmitAnswer_store_ok:
  assumes "SubmitAnswer s m u token answer tm w = (w', r)" "store_ok (T w)"
  shows "store_ok (T w')"
  unfolding store_ok_def
proof (intro allI impI)
  fix k d dl assume k: "T w' k = Some (d, dl)" "\<not> other_key k"
  show "doc_ok d"
  proof (cases "T w' k = T w k")
    case True
    with k assms(2) show ?thesis by (metis store_okD)
  next
    case False
    have "k \<noteq> lock_key (ms_us s) m" using k by auto
    with False SubmitAnswer_cases [OF assms(1)] k have kp: "k = player_key (ms_us s) m u"
      and g: "graded (ms_us s) m u token answer tm (T w) (T w')" by (auto simp: untouched_def)
    from g obtain n1 st q score dl where 1: "live n1 (T w) (player_key (ms_us s) m u) = Some (DPlayer st)"
      "qp_Order q \<notin> ar_QuestionOrder ` set (ps_Answers st)"
      "T w' (player_key (ms_us s) m u) =
        Some (DPlayer (st\<lparr>ps_Answers := ps_Answers st @ [answer_record q token answer tm score]\<rparr>), Some dl)"
      unfolding graded_def by blast
    with store_ok_live [OF assms(2) 1(1)] k kp show ?thesis by (auto simp: distinct_orders_snoc answer_record_def)
  qed
qed

lemma collect_states_spec:
  "collect_states (ms_redis s) r ks = (r', sts) \<Longrightarrow> tab r' = tab r \<and>
     (\<forall>st \<in> set sts. \<exists>k \<in> set ks. \<exists>now. live now (tab r) k = Some (DPlayer st))"
proof (induction ks arbitrary: r sts)
  case (Cons k ks)
  obtain r1 x where g: "rc_Get (ms_redis s) r k = (r1, x)" by force
  have t: "tab r1 = tab r" using get_data [OF g] by (simp add: same_data_def)
  show ?case
  proof (cases "\<exists>st. x = RVal (DPlayer st)")
    case True
    then obtain st where x: "x = RVal (DPlayer st)" by blast
    obtain r2 ss where c: "collect_states (ms_redis s) r1 ks = (r2, ss)" by force
    from Cons.prems g x c have "r' = r2" "sts = st # ss" by auto
    with Cons.IH [OF c [folded \<open>r' = r2\<close>]] get_val [OF g [unfolded x]] t show ?thesis by auto
  next
    case False
    with Cons.prems g have "collect_states (ms_redis s) r1 ks = (r', sts)"
      by (auto simp: as_player_Inr split: reply.splits sum.splits)
    with Cons.IH [OF this] t show ?thesis by auto
  qed
qed simp

lemma GetAllPlayerStates_spec:
  assumes "GetAllPlayerStates (ms_us s) (ms_redis s) r m = (r', x)"
  shows "tab r' = tab r \<and> (\<forall>sts. x = Inr sts \<longrightarrow> (\<forall>st \<in> set sts. \<exists>k now. prefix (player_prefix (ms_us s) m) k \<and>
     live now (tab r) k = Some (DPlayer st)))"
proof -
  obtain r1 y where k: "rc_KeysPrefix (ms_redis s) r (player_prefix (ms_us s) m) = (r1, y)" by force
  have t: "tab r1 = tab r" using keys_data [OF k] by (simp add: same_data_def)
  show ?thesis
  proof (cases y)
    case (Inl e)
    with assms k t show ?thesis by (auto simp: GetAllPlayerStates_def)
  next
    case (Inr ks)
    obtain r2 ss where c: "collect_states (ms_redis s) r1 ks = (r2, ss)" by force
    from assms k Inr c have "r' = r2" "x = Inr ss" by (auto simp: GetAllPlayerStates_def)
    with collect_states_spec [OF c] keys_ok [OF k [unfolded Inr]] t show ?thesis by fastforce
  qed
qed

lemma GetSummary_Inr:
  "GetSummary s m w = (w', Inr row) \<Longrightarrow> \<exists>i. ms_scan s m = Inr (Some i) \<and> db_matches (w_db w) i = Some row"
  by (auto simp: GetSummary_def on_db_def split: sum.splits prod.splits dest: GetMatchForSummary_Inr)

lemma leaderboard_meta_spec:
  "leaderboard_meta s m w = (w', el, p, code) \<Longrightarrow> w_redis w' = w_redis w \<and> db_matches (w_db w') = db_matches (w_db w) \<and>
     (el \<longrightarrow> (\<exists>i row. ms_scan s m = Inr (Some i) \<and> db_matches (w_db w) i = Some row))"
  by (auto simp: leaderboard_meta_def split: if_splits prod.splits sum.splits dest: GetSummary_redis GetSummary_Inr)

lemma per_question_timeout_db: "per_question_timeout s m w = (w', x) \<Longrightarrow> db_matches (w_db w') = db_matches (w_db w)"
  by (auto simp: per_question_timeout_def split: prod.splits sum.splits dest: GetSummary_redis)

text \<open>One run of the body of \<open>FinalizeMatch\<close>: the states and questions it read, the loop over the
  players, and the routing of the results.\<close>

definition finalize_reads :: "uuid \<Rightarrow> table \<Rightarrow> PlayerState list \<Rightarrow> QuestionPackItem list \<Rightarrow> bool" where
  "finalize_reads m t sts qs \<longleftrightarrow>
     (\<forall>st \<in> set sts. \<exists>k now. prefix (player_prefix (ms_us s) m) k \<and> live now t k = Some (DPlayer st)) \<and>
     (qs = [] \<or> (\<exists>now. live now t (questions_key (ms_us s) m) = Some (DQuestions qs)))"

lemma finalize_locked_cases:
  assumes "finalize_locked s m w = (w', x)"
  shows "(T w' = T w \<and> (\<exists>e. x = Inl e)) \<or>
    (\<exists>w1 sts qs pt w2 reqs el p code. T w1 = T w \<and> finalize_reads m (T w) sts qs \<and>
       (el \<longrightarrow> (\<exists>i row. ms_scan s m = Inr (Some i) \<and> db_matches (w_db w) i = Some row)) \<and>
       finalize_players s m el qs pt sts w1 = (w2, reqs) \<and>
       (T w' = T w2 \<or> el \<and> (\<exists>w3 lb h ps. w_redis w3 = w_redis w2 \<and> route_results s lb m p code h reqs w3 = (w', ps))) \<and>
       (\<forall>pl ps. x = Inr (pl, ps) \<longrightarrow> mc_Results pl = map (match_result s) sts \<and> mc_LeaderboardEligible pl = el \<and>
          (\<not> el \<longrightarrow> ps = [])))"
proof -
  obtain w1 el p code where lm: "leaderboard_meta s m w = (w1, el, p, code)" by (rule prod_cases4)
  note lm' = leaderboard_meta_spec [OF lm]
  obtain w2 y where g: "on_redis (\<lambda>r. GetAllPlayerStates (ms_us s) (ms_redis s) r m) w1 = (w2, y)" by force
  have t2: "T w2 = T w" using on_redis_sel [OF g] GetAllPlayerStates_spec lm' by metis
  show ?thesis
  proof (cases y)
    case (Inl e)
    with assms lm g t2 show ?thesis by (auto simp: finalize_locked_def)
  next
    case (Inr sts)
    have rs: "\<forall>st \<in> set sts. \<exists>k now. prefix (player_prefix (ms_us s) m) k \<and> live now (T w) k = Some (DPlayer st)"
      using on_redis_sel [OF g] GetAllPlayerStates_spec [of "w_redis w1" m "w_redis w2" y] Inr lm' by auto
    obtain w3 z where q: "on_redis (\<lambda>r. GetMatchQuestions (ms_us s) (ms_redis s) r m) w2 = (w3, z)" by force
    have t3: "T w3 = T w" using on_redis_sel [OF q] GetMatchQuestions_data t2 by metis
    show ?thesis
    proof (cases z)
      case (Inl e)
      with assms lm g Inr q t3 show ?thesis by (auto simp: finalize_locked_def)
    next
      case (Inr qs)
      have rq: "qs = [] \<or> (\<exists>now. live now (T w) (questions_key (ms_us s) m) = Some (DQuestions qs))"
        using on_redis_sel [OF q] GetMatchQuestions_live [of "w_redis w2" m "w_redis w3" qs] Inr t2 by auto
      obtain w4 pt where t: "per_question_timeout s m w3 = (w4, pt)" by force
      obtain w5 reqs where f: "finalize_players s m el qs pt sts w4 = (w5, reqs)" by force
      obtain w6 v where u: "on_db (UpdateMatchStatus \<lparr>up_Status = StatusCompleted, up_StartedAt = None,
        up_CompletedAt = None, up_MatchID = scanned s m\<rparr>) w5 = (w6, v)" by force
      have w4: "T w4 = T w" using per_question_timeout_redis [OF t] t3 by simp
      have w6: "w_redis w6 = w_redis w5" using on_db_sel [OF u] by blast
      have el: "el \<longrightarrow> (\<exists>i row. ms_scan s m = Inr (Some i) \<and> db_matches (w_db w) i = Some row)" using lm' by blast
      have "(T w' = T w5 \<or> el \<and> (\<exists>w3 lb h ps. w_redis w3 = w_redis w5 \<and> route_results s lb m p code h reqs w3 = (w', ps))) \<and>
       (\<forall>pl ps. x = Inr (pl, ps) \<longrightarrow> mc_Results pl = map (match_result s) sts \<and> mc_LeaderboardEligible pl = el \<and>
          (\<not> el \<longrightarrow> ps = []))"
      proof (cases v)
        case (Inl e)
        with assms lm g \<open>y = Inr sts\<close> q Inr t f u w6 show ?thesis by (auto simp: finalize_locked_def Let_def)
      next
        case (Inr v')
        obtain w7 ps where r: "(case (ms_leaderboard s, reqs) of
              (Some lb, req # _) \<Rightarrow> if el
                 then route_results s lb m p code (highest_score (lr_Score req) (tl reqs)) reqs w6
                 else (w6, [])
            | _ \<Rightarrow> (w6, [])) = (w7, ps)" by force
        from assms lm g \<open>y = Inr sts\<close> q \<open>z = Inr qs\<close> t f u Inr r
        have x: "w' = w7" "x = Inr (\<lparr>mc_MatchID = ms_us s m, mc_Results = map (match_result s) sts,
                   mc_LeaderboardEligible = el, mc_LeaderboardPosition = 0\<rparr>, ps)"
          by (simp_all add: finalize_locked_def Let_def)
        from r w6 have "w_redis w7 = w_redis w5 \<and> ps = [] \<or> el \<and> (\<exists>lb h. route_results s lb m p code h reqs w6 = (w7, ps))"
          by (auto split: option.splits list.splits if_splits)
        with x w6 show ?thesis by auto
      qed
      then show ?thesis using w4 rs rq el f unfolding finalize_reads_def by blast
    qed
  qed
qed

lemma finalize_locked_store_ok:
  assumes "finalize_locked s m w = (w', x)" "store_ok (T w)"
  shows "store_ok (T w')"
  using finalize_locked_cases [OF assms(1)]
proof (elim disjE exE conjE)
  fix w1 sts qs pt w2 reqs el p code
  assume t: "T w1 = T w" and rd: "finalize_reads m (T w) sts qs" and f: "finalize_players s m el qs pt sts w1 = (w2, reqs)"
  have q: "distinct (map qp_Order qs)"
    using rd assms(2) by (auto simp: finalize_reads_def dest: store_ok_live)
  have "doc_ok d" if k: "T w2 k = Some (d, dl)" "\<not> other_key k" for k d dl
  proof (cases "T w2 k = T w k")
    case True
    with k assms(2) show ?thesis by (metis store_okD)
  next
    case False
    with t have "T w2 k \<noteq> T w1 k" by simp
    with conjunct1 [OF finalize_players_cases [OF f]] obtain st st' dl' where st: "st \<in> set sts"
      and fin: "finalised (ms_scoring s) pt qs st st'" "T w2 k = Some (DPlayer st', Some dl')" by blast
    from fin(2) k have d: "d = DPlayer st'" by simp
    from rd st obtain k' now where "prefix (player_prefix (ms_us s) m) k'" "live now (T w) k' = Some (DPlayer st)"
      unfolding finalize_reads_def by blast
    moreover from this(1) have "\<not> other_key k'" by (auto simp: other_key_def player_prefix_def prefix_def)
    ultimately have "distinct_orders (ps_Answers st)" using store_ok_live [OF assms(2)] by fastforce
    with finalised_props [OF fin(1)] q d show ?thesis by simp
  qed
  then have w2: "store_ok (T w2)" unfolding store_ok_def by blast
  { assume "T w' = T w2" with w2 show ?thesis by simp }
  { fix w3 lb h ps assume "w_redis w3 = w_redis w2" "route_results s lb m p code h reqs w3 = (w', ps)"
    with w2 route_results_store_ok show ?thesis by metis }
qed (use assms(2) in auto)

lemma FinalizeMatch_store_ok:
  assumes "FinalizeMatch s m w = (w', x)" "store_ok (T w)"
  shows "store_ok (T w')"
  using with_lock_cases [OF assms(1) [unfolded FinalizeMatch_def]] assms(2)
  by (auto dest: store_ok_untouched finalize_locked_store_ok)

end

subsection \<open>Creating a match keeps the store well-formed\<close>

lemma pack_items_order: "map qp_Order (pack_items s i qs) = map (\<lambda>k. i + 1 + int k) [0..<length qs]"
proof (induction s i qs rule: pack_items.induct)
  case (2 s i q qs)
  have "map (\<lambda>k. i + 1 + 1 + int k) [0..<length qs] = map (\<lambda>k. i + 1 + int k) [1..<Suc (length qs)]"
    by (simp add: map_Suc_upt [symmetric] del: upt_Suc)
  with 2 show ?case by (simp add: upt_conv_Cons del: upt_Suc)
qed simp

lemma pack_items_distinct: "distinct (map qp_Order (pack_items s i qs))"
  unfolding pack_items_order by (simp add: distinct_map inj_on_def)

lemma store_ok_pack: "store_ok t \<Longrightarrow> pack_written k t t' \<Longrightarrow> store_ok t'"
  by (auto simp: pack_written_def intro: store_ok_upd)

lemma store_ok_sadd: "store_ok t \<Longrightarrow> store_ok (sadd now k ms t)"
  by (auto simp: sadd_def intro!: store_ok_upd split: option.splits doc.splits)

lemma store_ok_expire: "store_ok t \<Longrightarrow> store_ok (expire now k ttl t)"
  by (auto simp: expire_def intro!: store_ok_upd split: option.splits dest: store_ok_live)

lemma AddUserQuestionHistory_store_ok:
  assumes R: "redis_server rc tab clk" "qs_redis s = Some rc"
    and a: "AddUserQuestionHistory s u ids w = (w', x)" "store_ok (tab (w_redis w))"
  shows "store_ok (tab (w_redis w')) \<and> db_matches (w_db w') = db_matches (w_db w)"
proof -
  have sadd: "store_ok (tab r')" if "rc_SAdd rc r k ms = (r', e)" "store_ok (tab r)" for r k ms r' e
    using that redis_server.sadd_ok [OF R(1), of r k ms r'] redis_server.sadd_err [OF R(1), of r k ms r']
    by (cases e) (auto simp: becomes_def same_data_def store_ok_sadd)
  have expr: "store_ok (tab r')" if "rc_Expire rc r k ttl = (r', e)" "store_ok (tab r)" for r k ttl r' e
    using that redis_server.expire_ok [OF R(1), of r k ttl r'] redis_server.expire_err [OF R(1), of r k ttl r']
    by (cases e) (auto simp: becomes_def same_data_def store_ok_expire)
  show ?thesis
    using a R(2) by (auto simp: AddUserQuestionHistory_def on_redis_def Let_def
        split: if_splits prod.splits option.splits intro: sadd expr)
qed

text \<open>The wiring of the application: every part uses one Redis server, packs are cached in it.\<close>

definition app_wired :: "('r, 'e, 'x) MService \<Rightarrow> ('r \<Rightarrow> table) \<Rightarrow> ('r \<Rightarrow> instant) \<Rightarrow> bool" where
  "app_wired s tab clk \<longleftrightarrow> redis_server (ms_redis s) tab clk \<and> uuid_text (ms_us s) \<and>
     qs_redis (ms_q s) = Some (ms_redis s) \<and> (\<exists>ttl. qs_cache (ms_q s) = redis_cache (NewCache (ms_redis s) ttl))"

lemma app_wiredD:
  assumes "app_wired s tab clk"
  shows "match_service s tab clk" "redis_server (ms_redis s) tab clk" "history_client (ms_q s) tab clk"
    "\<exists>c. qs_cache (ms_q s) = redis_cache c \<and> ca_client c = ms_redis s" "qs_redis (ms_q s) = Some (ms_redis s)"
  using assms by (auto simp: app_wired_def match_service_def match_redis_def history_client_def NewCache_def)

lemma save_history_store_ok:
  assumes "app_wired s tab clk" "store_ok (tab (w_redis w))"
  shows "store_ok (tab (w_redis (save_history s us items w))) \<and> db_matches (w_db (save_history s us items w)) = db_matches (w_db w)"
  using assms(2)
proof (induction us arbitrary: w)
  case (Cons u us)
  obtain w1 x where a: "AddUserQuestionHistory (ms_q s) u (map qp_ID items) w = (w1, x)" by force
  note h = AddUserQuestionHistory_store_ok [OF app_wiredD(2,5) [OF assms(1)] a Cons.prems]
  with Cons.IH [of w1] a show ?case by (simp add: save_history_def)
qed (simp add: save_history_def)

lemma init_players_store_ok:
  assumes "match_service s tab clk" "store_ok (tab (w_redis w))"
  shows "store_ok (tab (w_redis (init_players s m pg now ps w))) \<and> db_matches (w_db (init_players s m pg now ps w)) = db_matches (w_db w)"
  using assms(2)
proof (induction ps arbitrary: w)
  case (Cons p ps)
  obtain u g n where p: "p = (u, g, n)" by (rule prod_cases3)
  show ?case
  proof (cases "ms_scan s u")
    case (Inl e)
    with Cons p show ?thesis by simp
  next
    case (Inr pu)
    obtain w1 x where r: "on_redis (\<lambda>r. StorePlayerState (ms_us s) (ms_redis s) r m u (initial_state m now (u, g, n))) w = (w1, x)" by force
    obtain w2 y where d: "on_db (CreatePlayerMatchState
       \<lparr>pp_MatchID = pg, pp_UserID = pu, pp_IsGuest = g, pp_Status = PlayerStatusQueued\<rparr>) w1 = (w2, y)" by force
    have "store_ok (tab (w_redis w1))"
      using match_service.StorePlayerState_write [OF assms(1)] on_redis_sel [OF r] Cons.prems
      by (fastforce intro: store_ok_upd simp: initial_state_def)
    with Cons.IH [of w2] on_db_sel [OF d] on_redis_sel [OF r] CreatePlayerMatchState_tables
    have "store_ok (tab (w_redis (init_players s m pg now ps w2)))"
      "db_matches (w_db (init_players s m pg now ps w2)) = db_matches (w_db w)" by metis+
    with p Inr r d show ?thesis by (simp add: Let_def)
  qed
qed simp

lemma StoreMatchQuestions_store_ok:
  assumes "match_service s tab clk" "StoreMatchQuestions (ms_us s) (ms_redis s) r m qs = (r', e)" "store_ok (tab r)"
    "distinct (map qp_Order qs)"
  shows "store_ok (tab r')"
proof -
  have R: "redis_server (ms_redis s) tab clk" using assms(1) by (simp add: match_service_def match_redis_def)
  have "tab r' = tab r \<or> (\<exists>dl. tab r' = (tab r)(questions_key (ms_us s) m \<mapsto> (DQuestions qs, dl)))"
    using assms(2) redis_server.set_ok [OF R] redis_server.set_err [OF R]
    by (cases e) (unfold StoreMatchQuestions_def becomes_def same_data_def, blast+)
  with assms(3,4) show ?thesis by (auto intro!: store_ok_upd)
qed

lemma prepare_match_store_ok:
  assumes W: "app_wired s tab clk" and p: "prepare_match s m pg req save ps w = (w', x)"
    and sv: "\<And>items w. store_ok (tab (w_redis w)) \<Longrightarrow> store_ok (tab (w_redis (save items w))) \<and> db_matches (w_db (save items w)) = db_matches (w_db w)"
    and ok: "store_ok (tab (w_redis w))"
  shows "store_ok (tab (w_redis w')) \<and> db_matches (w_db w') = db_matches (w_db w)"
proof -
  obtain c where c: "qs_cache (ms_q s) = redis_cache c" "ca_client c = ms_redis s" using app_wiredD(4) [OF W] by blast
  obtain w1 y where f: "FetchPack (ms_q s) req w = (w1, y)" by force
  have w1: "store_ok (tab (w_redis w1))" "db_matches (w_db w1) = db_matches (w_db w)"
    using FetchPack_frame [OF app_wiredD(3) [OF W] c(1) _ f] app_wiredD(2) [OF W] c(2) ok store_ok_pack by auto
  show ?thesis
  proof (cases y)
    case (Inl e)
    with p f w1 show ?thesis by (simp add: prepare_match_def)
  next
    case (Inr resp)
    let ?items = "pack_items s 0 (resp_Questions resp)"
    obtain w2 z where q: "on_redis (\<lambda>r. StoreMatchQuestions (ms_us s) (ms_redis s) r m ?items) w1 = (w2, z)" by force
    obtain w3 now where n: "on_ext (ms_now s) (save ?items w2) = (w3, now)" by force
    have w2: "store_ok (tab (w_redis w2))" "db_matches (w_db w2) = db_matches (w_db w)"
      using StoreMatchQuestions_store_ok [OF app_wiredD(1) [OF W], of "w_redis w1" m ?items "w_redis w2" z]
        on_redis_sel [OF q] w1 pack_items_distinct [of s 0 "resp_Questions resp"] by simp_all
    from p f Inr q n have "w' = init_players s m pg now ps w3" by (simp add: prepare_match_def Let_def)
    with init_players_store_ok [OF app_wiredD(1) [OF W], of w3 m pg now ps] on_ext_sel [OF n] sv [OF w2(1), of ?items] w2(2)
    show ?thesis by simp
  qed
qed

text \<open>What creating a match leaves: the stored data stay well-formed, and the only new row of
  \<open>matches\<close> is under the identifier the database generated.\<close>

definition created_ok :: "('r \<Rightarrow> table) \<Rightarrow> ('r, 'e, 'x) world \<Rightarrow> ('r, 'e, 'x) world \<Rightarrow> bool" where
  "created_ok tab w w' \<longleftrightarrow> (store_ok (tab (w_redis w)) \<longrightarrow> store_ok (tab (w_redis w'))
     \<and> (\<forall>i. i \<noteq> db_uuids (w_db w) (db_drawn (w_db w)) \<longrightarrow> db_matches (w_db w') i = db_matches (w_db w) i))"

lemma created_ok_same: "w_redis w' = w_redis w \<Longrightarrow> w_db w' = w_db w \<Longrightarrow> created_ok tab w w'"
  by (simp add: created_ok_def)

lemma created_ok_from: "w_redis w1 = w_redis w \<Longrightarrow> w_db w1 = w_db w \<Longrightarrow> created_ok tab w1 w' \<Longrightarrow> created_ok tab w w'"
  by (simp add: created_ok_def)

lemma finish_create_created:
  assumes W: "app_wired s tab clk" and c: "finish_create s m pg arg req save ps n sec gt w = (w', x)"
    and sv: "\<And>items w. store_ok (tab (w_redis w)) \<Longrightarrow> store_ok (tab (w_redis (save items w))) \<and> db_matches (w_db (save items w)) = db_matches (w_db w)"
  shows "created_ok tab w w' \<and> (\<forall>mt items. x = Inr (mt, items) \<longrightarrow> m_ID mt = m)"
proof -
  obtain w1 y where cm: "on_db (CreateMatch arg) w = (w1, y)" by force
  have w1: "w_redis w1 = w_redis w" "\<And>i. i \<noteq> db_uuids (w_db w) (db_drawn (w_db w)) \<Longrightarrow> db_matches (w_db w1) i = db_matches (w_db w) i"
    using CreateMatch_tables [of arg "w_db w"] on_db_sel [OF cm] by auto
  show ?thesis
  proof (cases y)
    case (Inl e)
    with c cm w1 show ?thesis by (auto simp: finish_create_def created_ok_def)
  next
    case (Inr row)
    obtain w2 v where v: "on_ext (ms_visit s) w1 = (w2, v)" by force
    obtain w3 z where p: "prepare_match s m pg (req (v (getFixedDifficultyDistribution n))) save ps w2 = (w3, z)" by force
    have "w_redis w' = w_redis w3 \<and> w_db w' = w_db w3 \<and> (\<forall>mt items. x = Inr (mt, items) \<longrightarrow> m_ID mt = m)"
      using c cm Inr v p by (auto simp: finish_create_def Let_def created_match_def split: sum.splits prod.splits dest!: on_ext_sel)
    moreover have "created_ok tab w w3"
      using prepare_match_store_ok [OF W p sv] on_ext_sel [OF v] w1 by (auto simp: created_ok_def)
    ultimately show ?thesis by (auto simp: created_ok_def)
  qed
qed

lemma CreateRandomMatch_created:
  assumes W: "app_wired s tab clk" and c: "CreateRandomMatch s pair n sec cat w = (w', x)"
  shows "created_ok tab w w' \<and> (\<forall>mt items. x = Inr (mt, items) \<longrightarrow> m_ID mt = snd (ms_uuid s (w_ext w)))"
proof -
  obtain w1 m where u: "on_ext (ms_uuid s) w = (w1, m)" by force
  obtain w2 t where t: "on_ext (ms_now s) w1 = (w2, t)" by force
  have w2: "w_redis w2 = w_redis w" "w_db w2 = w_db w" using on_ext_sel [OF u] on_ext_sel [OF t] by auto
  have m: "m = snd (ms_uuid s (w_ext w))" using u by (auto simp: on_ext_def split: prod.splits)
  have "(w' = w2 \<and> (\<exists>e. x = Inl e)) \<or> (\<exists>pg arg req ps gt. finish_create s m pg arg req
      (save_history s [wp_UserID (Player1 pair), wp_UserID (Player2 pair)]) ps n sec gt w2 = (w', x))"
    using c u t by (auto simp: CreateRandomMatch_def Let_def split: sum.splits)
  then show ?thesis
  proof (elim disjE exE conjE)
    fix pg arg req ps gt
    assume "finish_create s m pg arg req (save_history s [wp_UserID (Player1 pair), wp_UserID (Player2 pair)]) ps n sec gt w2 = (w', x)"
    from finish_create_created [OF W this save_history_store_ok [OF W]] show ?thesis
      using created_ok_from [OF w2] m by blast
  qed (use created_ok_same [OF w2] in auto)
qed

lemma CreatePrivateMatch_created:
  assumes W: "app_wired s tab clk" and c: "CreatePrivateMatch s code ps n sec cat w = (w', x)"
  shows "created_ok tab w w' \<and> (\<forall>mt items. x = Inr (mt, items) \<longrightarrow> m_ID mt = snd (ms_uuid s (w_ext w)))"
proof -
  obtain w1 m where u: "on_ext (ms_uuid s) w = (w1, m)" by force
  obtain w2 t where t: "on_ext (ms_now s) w1 = (w2, t)" by force
  have w2: "w_redis w2 = w_redis w" "w_db w2 = w_db w" using on_ext_sel [OF u] on_ext_sel [OF t] by auto
  have m: "m = snd (ms_uuid s (w_ext w))" using u by (auto simp: on_ext_def split: prod.splits)
  have "(w' = w2 \<and> (\<exists>e. x = Inl e)) \<or> (\<exists>pg arg req ps gt. finish_create s m pg arg req (\<lambda>_ w. w) ps n sec gt w2 = (w', x))"
    using c u t by (auto simp: CreatePrivateMatch_def Let_def split: sum.splits list.splits)
  then show ?thesis
  proof (elim disjE exE conjE)
    fix pg arg req ps gt
    assume "finish_create s m pg arg req (\<lambda>_ w. w) ps n sec gt w2 = (w', x)"
    from finish_create_created [OF W this] show ?thesis using created_ok_from [OF w2] m by simp
  qed (use created_ok_same [OF w2] in auto)
qed

subsection \<open>Runs of the service\<close>

text \<open>One world, the operations of the service one after the other (the lock of a match keeps two of
  them on the same match apart), and anything else that happens to Redis, the database and the
  clock in between, as long as it only lets match keys disappear.\<close>

inductive match_run :: "('r, 'e, 'x) MService \<Rightarrow> ('r \<Rightarrow> table) \<Rightarrow> ('r, 'e, 'x) world \<Rightarrow> bool"
  for s tab where
  init: "(\<And>k. prefix ''match:'' k \<Longrightarrow> tab (w_redis w) k = None) \<Longrightarrow> match_run s tab w"
| random: "match_run s tab w \<Longrightarrow> CreateRandomMatch s pair n sec cat w = (w', x) \<Longrightarrow> match_run s tab w'"
| from_room: "match_run s tab w \<Longrightarrow> CreatePrivateMatch s code ps n sec cat w = (w', x) \<Longrightarrow> match_run s tab w'"
| answer: "match_run s tab w \<Longrightarrow> SubmitAnswer s m u token ans tm w = (w', y) \<Longrightarrow> match_run s tab w'"
| finalize: "match_run s tab w \<Longrightarrow> FinalizeMatch s m w = (w', z) \<Longrightarrow> match_run s tab w'"
| elsewhere: "match_run s tab w \<Longrightarrow>
    (\<And>k. prefix ''match:'' k \<Longrightarrow> tab (w_redis w') k = tab (w_redis w) k \<or> tab (w_redis w') k = None) \<Longrightarrow> match_run s tab w'"

lemma match_run_store_ok:
  assumes W: "app_wired s tab clk" and r: "match_run s tab w"
  shows "store_ok (tab (w_redis w))"
  using r
proof (induction rule: match_run.induct)
  case (init w)
  then show ?case by (auto simp: store_ok_def other_key_def)
next
  case (random w pair n sec cat w' x)
  with CreateRandomMatch_created [OF W] show ?case by (auto simp: created_ok_def)
next
  case (from_room w code ps n sec cat w' x)
  with CreatePrivateMatch_created [OF W] show ?case by (auto simp: created_ok_def)
next
  case (answer w m u token ans tm w' y)
  with match_service.SubmitAnswer_store_ok [OF app_wiredD(1) [OF W]] show ?case by blast
next
  case (finalize w m w' z)
  with match_service.FinalizeMatch_store_ok [OF app_wiredD(1) [OF W]] show ?case by blast
next
  case (elsewhere w w')
  show ?case unfolding store_ok_def
  proof (intro allI impI)
    fix k d dl assume "tab (w_redis w') k = Some (d, dl)" "\<not> other_key k"
    with elsewhere show "doc_ok d" by (metis other_key_def option.distinct(1) store_okD)
  qed
qed

subsection \<open>A service on the server in memory\<close>

definition ex_qs :: "(mem, unit, nat) QService" where
  "ex_qs = \<lparr>qs_cache = redis_cache (NewCache mem_client 0), qs_ai = None, qs_redis = Some mem_client,
     qs_hmacKey = [], qs_hmac = (\<lambda>k m. m), qs_us = dec_us, qs_now = (\<lambda>x. (x, 0)), qs_order = (\<lambda>x. (x, id))\<rparr>"

definition ex_ms :: "(mem, unit, nat) MService" where
  "ex_ms = \<lparr>ms_q = ex_qs, ms_redis = mem_client, ms_leaderboard = Some (NewLbService app_lb_options),
     ms_scoring = DefaultScoringConfig, ms_hmacKey = [], ms_hmac = (\<lambda>k m. m), ms_us = dec_us,
     ms_uuid = (\<lambda>n. (Suc n, word_of_nat n)), ms_now = (\<lambda>n. (n, 0)), ms_nows = (\<lambda>n. (n, \<lambda>_. 0)), ms_visit = (\<lambda>n. (n, id)),
     ms_scan = (\<lambda>u. Inr (Some u)), ms_int4 = Some, ms_numeric = Some\<rparr>"

definition ex_item :: QuestionPackItem where
  "ex_item = \<lparr>qp_Order = 1, qp_ID = ''11'', qp_Prompt = ''p'', qp_Options = [''a'', ''b''], qp_Token = ''11'', qp_CorrectAnswer = ''a''\<rparr>"

text \<open>Match 9 with player 1 and one question.\<close>

definition ex_mw :: "(mem, unit, nat) world" where
  "ex_mw = \<lparr>w_redis = ex_mem\<lparr>mem_tab := [player_key dec_us 9 1 \<mapsto> (DPlayer (ex_player 1), None),
     questions_key dec_us 9 \<mapsto> (DQuestions [ex_item], None)]\<rparr>, w_db = ex_db, w_ext = 20\<rparr>"

lemma ex_wired: "app_wired ex_ms mem_tab mem_clk"
  unfolding app_wired_def
  by (simp add: ex_ms_def ex_qs_def mem.redis_server_axioms dec.uuid_text_axioms) (use NewCache_def in blast)

interpretation ex_service: match_service ex_ms mem_tab mem_clk
  by (rule app_wiredD(1) [OF ex_wired])

lemmas ms_eval = mem_eval ex_ms_def ex_mw_def ex_item_def ex_player_def on_redis_def on_ext_def on_db_def stmt_def db_error_def
  db_next_def ex_db_def with_lock_def submit_locked_def record_answer_def per_question_timeout_def GetSummary_def
  GetMatchForSummary_def GetMatchQuestions_def SubmitAnswer_def

lemma ex_submit: "\<exists>w'. SubmitAnswer ex_ms 9 1 ''11'' ''a'' 0 ex_mw = (w', Inr ())"
  by (simp add: ms_eval dec.keys_disjoint)

lemma ex_submit_bad: "\<exists>w'. SubmitAnswer ex_ms 9 1 ''12'' ''a'' 0 ex_mw = (w', Inl ''invalid question token'')"
  by (simp add: ms_eval dec.keys_disjoint)

subsection \<open>Properties\<close>

text \<open>C4: In every run of the service, with any creations, answers and finalisations in any order and
  any loss of keys in between, a stored player state never holds two answers to one question, so
  no question counts twice towards a score.\<close>

theorem answers_never_repeat:
  assumes "app_wired s tab clk" "match_run s tab w" "prefix ''match:player:'' k"
    and "tab (w_redis w) k = Some (DPlayer st, dl)"
  shows "distinct_orders (ps_Answers st)"
proof -
  have "\<not> other_key k" using assms(3) by (auto simp: other_key_def prefix_def)
  with store_okD [OF match_run_store_ok [OF assms(1,2)] assms(4)] show ?thesis by simp
qed

text \<open>A room match whose pack is in the cache.\<close>

definition ex_req :: PackRequest where
  "ex_req = \<lparr>pr_Category = ''general'', pr_DifficultyCounts = getFixedDifficultyDistribution 5, pr_TotalQuestions = 5,
     pr_Seed = seed_hash ex_ms 20 0, pr_PerQuestionSeconds = 15, pr_UserID = None, pr_UserIDs = [],
     pr_MatchMode = ModePrivateRoom\<rparr>"

definition ex_host :: RoomPlayer where
  "ex_host = \<lparr>rp_UserID = 1, rp_Username = ''h'', rp_IsGuest = False, rp_IsHost = True, rp_JoinedAt = 0\<rparr>"

definition ex_cached :: "(mem, unit, nat) world" where
  "ex_cached = \<lparr>w_redis = ex_mem\<lparr>mem_tab := [cache_key ex_req \<mapsto> (DPack \<lparr>resp_Questions = [], resp_Seed = [], resp_ExpiresAt = 0\<rparr>, None)]\<rparr>,
     w_db = ex_db\<lparr>db_users := [ex_user 1]\<rparr>, w_ext = 20\<rparr>"

lemma cache_key_not_match: "\<not> prefix ''match:'' (cache_key req)"
  by (simp add: cache_key_def Let_def)

lemma ex_private: "\<exists>w' x. CreatePrivateMatch ex_ms ''c'' [ex_host] 5 15 ''general'' ex_cached = (w', x) \<and>
    mem_tab (w_redis w') (player_key dec_us 20 1) = Some (DPlayer (initial_state 20 0 (1, False, ''h'')), Some 7200000000015)"
proof -
  have sel: "ms_redis ex_ms = mem_client" "ms_us ex_ms = dec_us" "ms_uuid ex_ms = (\<lambda>n. (Suc n, word_of_nat n))"
    "ms_now ex_ms = (\<lambda>n. (n, 0))" "ms_visit ex_ms = (\<lambda>n. (n, id))" "ms_scan ex_ms = (\<lambda>u. Inr (Some u))" "ms_q ex_ms = ex_qs"
    by (simp_all add: ex_ms_def)
  have w: "word_of_nat 20 = (20 :: uuid)" by simp
  have c: "qs_cache ex_qs = redis_cache (NewCache mem_client 0)" by (simp add: ex_qs_def)
  have h: "rp_UserID ex_host = 1" "rp_IsGuest ex_host = False" "rp_Username ex_host = ''h''" by (simp_all add: ex_host_def)
  have r: "\<lparr>pr_Category = ''general'', pr_DifficultyCounts = getFixedDifficultyDistribution 5, pr_TotalQuestions = 5,
     pr_Seed = seed_hash ex_ms 20 0, pr_PerQuestionSeconds = 15, pr_UserID = None, pr_UserIDs = [],
     pr_MatchMode = ''private_room''\<rparr> = ex_req" by (simp add: ex_req_def mode_defs)
  show ?thesis
    by (simp add: CreatePrivateMatch_def finish_create_def sel on_ext_def on_db_def on_redis_def w ex_cached_def h normalizeCategory_def r
        CreateMatch_def stmt_def db_error_def db_next_def ex_db_def ex_user_def user_ids_def Let_def private_params_def match_modes_def match_statuses_def
        mode_defs status_defs fk_ok_def prepare_match_def FetchPack_def c redis_cache_def NewCache_def Cache_Get_def
        mem_eval StoreMatchQuestions_def initial_state_def
        CreatePlayerMatchState_def player_statuses_def player_status_defs dec.keys_disjoint)
qed

theorem answers_never_repeat_witness:
  "\<exists>w k st dl. match_run ex_ms mem_tab w \<and> mem_tab (w_redis w) k = Some (DPlayer st, dl) \<and> ps_UserID st = 1 \<and>
     distinct_orders (ps_Answers st)"
proof -
  obtain w' x where c: "CreatePrivateMatch ex_ms ''c'' [ex_host] 5 15 ''general'' ex_cached = (w', x)"
    and p: "mem_tab (w_redis w') (player_key dec_us 20 1) = Some (DPlayer (initial_state 20 0 (1, False, ''h'')), Some 7200000000015)"
    using ex_private by blast
  have "match_run ex_ms mem_tab ex_cached"
    by (rule match_run.init) (use cache_key_not_match in \<open>auto simp: ex_cached_def\<close>)
  from match_run.from_room [OF this c] have run: "match_run ex_ms mem_tab w'" .
  have k: "prefix ''match:player:'' (player_key dec_us 20 1)" by (simp add: player_key_def)
  from answers_never_repeat [OF ex_wired run k p] run p show ?thesis by (fastforce simp: initial_state_def)
qed

lemma ex_keys:
  "{k \<in> dom [player_key dec_us 9 1 \<mapsto> a, questions_key dec_us 9 \<mapsto> b, lock_key dec_us 9 \<mapsto> c].
      prefix (player_prefix dec_us 9) k \<and> Q k} = (if Q (player_key dec_us 9 1) then {player_key dec_us 9 1} else {})"
  using dec.player_prefix_other dec.player_key_prefix by auto

lemma mem_commands:
  assumes "mem_faults r = []"
  shows "rc_Get mem_client r k = (mem_next r, case live (mem_clk r + int (mem_lat r)) (mem_tab r) k of None \<Rightarrow> RNil | Some d \<Rightarrow> RVal d)"
    "rc_Set mem_client r k d ttl = ((mem_next r)\<lparr>mem_tab := (mem_tab r)(k \<mapsto> (d, Some (mem_clk r + int (mem_lat r) + ttl)))\<rparr>, None)"
    "live (mem_clk r + int (mem_lat r)) (mem_tab r) k = None \<Longrightarrow> rc_SetNX mem_client r k d ttl =
       ((mem_next r)\<lparr>mem_tab := (mem_tab r)(k \<mapsto> (d, Some (mem_clk r + int (mem_lat r) + ttl)))\<rparr>, Inr True)"
    "rc_Eval mem_client r f = ((mem_next r)\<lparr>mem_tab := mem_tab r |` (- set (fst (f (live (mem_clk r + int (mem_lat r)) (mem_tab r)))))\<rparr>, None)"
  using assms by (simp_all add: mem_client_def mem_fault_def Let_def mem_write_def mem_read_def mem_next_def)

lemma ex_KeysPrefix:
  "rc_KeysPrefix mem_client \<lparr>mem_tab = [player_key dec_us 9 1 \<mapsto> (d, None), questions_key dec_us 9 \<mapsto> b, lock_key dec_us 9 \<mapsto> c],
      mem_clk = t, mem_lat = n, mem_faults = []\<rparr> (player_prefix dec_us 9) =
   (\<lparr>mem_tab = [player_key dec_us 9 1 \<mapsto> (d, None), questions_key dec_us 9 \<mapsto> b, lock_key dec_us 9 \<mapsto> c],
      mem_clk = t + int n, mem_lat = n, mem_faults = []\<rparr>, Inr [player_key dec_us 9 1])"
proof -
  define t0 where "t0 = [player_key dec_us 9 1 \<mapsto> (d, None :: instant option), questions_key dec_us 9 \<mapsto> b, lock_key dec_us 9 \<mapsto> c]"
  have "live (t + int n) t0 (player_key dec_us 9 1) = Some d" by (simp add: t0_def live_def dec.keys_disjoint)
  with ex_keys [of "(d, None)" b c "\<lambda>k. live (t + int n) t0 k \<noteq> None", folded t0_def]
  have "{k \<in> dom t0. prefix (player_prefix dec_us 9) k \<and> live (t + int n) t0 k \<noteq> None} = {player_key dec_us 9 1}" by simp
  moreover have "finite (dom t0)" by (simp add: t0_def)
  ultimately show ?thesis unfolding t0_def [symmetric]
    by (simp only: mem_client_def redis_client.select_convs mem_read_def) (simp add: mem_fault_def mem_next_def)
qed

lemma ex_finalize:
  "\<exists>w' pl ps. FinalizeMatch ex_ms 9 ex_mw = (w', Inr (pl, ps)) \<and> length (mc_Results pl) = 1 \<and>
     mem_tab (w_redis w') (player_key dec_us 9 1) \<noteq> mem_tab (w_redis ex_mw) (player_key dec_us 9 1)"
proof -
  have sel: "ms_redis ex_ms = mem_client" "ms_us ex_ms = dec_us" "ms_uuid ex_ms = (\<lambda>n. (Suc n, word_of_nat n))"
    "ms_now ex_ms = (\<lambda>n. (n, 0))" "ms_nows ex_ms = (\<lambda>n. (n, \<lambda>_. 0))" "ms_scan ex_ms = (\<lambda>u. Inr (Some u))"
    "ms_leaderboard ex_ms = Some (NewLbService app_lb_options)"
    by (simp_all add: ex_ms_def)
  show ?thesis
    apply (simp add: ex_mw_def ex_mem_def FinalizeMatch_def with_lock_def finalize_locked_def leaderboard_meta_def GetSummary_def sel
        GetAllPlayerStates_def GetMatchQuestions_def LockMatch_def unlock_def unlock_script_def StorePlayerState_def mem_commands
        live_def ex_KeysPrefix on_redis_def on_ext_def on_db_def mem_next_def GetMatchForSummary_def stmt_def db_error_def db_next_def ex_db_def
        ex_keys dec.keys_disjoint per_question_timeout_def finalize_player_def ex_item_def ex_player_def scanned_def
        UpdatePlayerMatchResult_def UpdateMatchStatus_def Let_def)
    done
qed

text \<open>C5: An answer that is accepted appends one record to the player's answers: the player and the
  pack were stored, the token is the one of a question of the pack that was not answered before,
  and the record is correct exactly when the answer is that question's. Nothing else in Redis
  changes apart from the lock of the match.\<close>

theorem SubmitAnswer_grades_once:
  assumes "redis_server (ms_redis s) tab clk" "uuid_text (ms_us s)"
    and "SubmitAnswer s m u token answer tm w = (w', Inr ())"
  shows "\<exists>n1 n2 st qs q score dl. live n1 (tab (w_redis w)) (player_key (ms_us s) m u) = Some (DPlayer st) \<and>
     live n2 (tab (w_redis w)) (questions_key (ms_us s) m) = Some (DQuestions qs) \<and>
     q \<in> set qs \<and> qp_Token q = token \<and> qp_Order q \<notin> ar_QuestionOrder ` set (ps_Answers st) \<and>
     tab (w_redis w') (player_key (ms_us s) m u) = Some (DPlayer (st\<lparr>ps_Answers := ps_Answers st @
       [\<lparr>ar_QuestionOrder = qp_Order q, ar_QuestionToken = token, ar_Answer = answer, ar_SubmittedAt = tm,
         ar_IsCorrect = (answer = qp_CorrectAnswer q), ar_ScoreEarned = score\<rparr>]\<rparr>), Some dl) \<and>
     (\<forall>k. k \<noteq> lock_key (ms_us s) m \<and> k \<noteq> player_key (ms_us s) m u \<longrightarrow> tab (w_redis w') k = tab (w_redis w) k)"
proof -
  have "match_service s tab clk" using assms(1,2) by (simp add: match_service_def match_redis_def)
  from match_service.SubmitAnswer_cases [OF this assms(3)]
  have u: "untouched (tab (w_redis w)) (tab (w_redis w')) {lock_key (ms_us s) m, player_key (ms_us s) m u}"
    and g: "graded (ms_us s) m u token answer tm (tab (w_redis w)) (tab (w_redis w'))" by auto
  from g obtain n1 n2 st qs q score dl where 1: "live n1 (tab (w_redis w)) (player_key (ms_us s) m u) = Some (DPlayer st)"
    "live n2 (tab (w_redis w)) (questions_key (ms_us s) m) = Some (DQuestions qs)"
    "List.find (\<lambda>q. qp_Token q = token) qs = Some q" "qp_Order q \<notin> ar_QuestionOrder ` set (ps_Answers st)"
    "tab (w_redis w') (player_key (ms_us s) m u) =
      Some (DPlayer (st\<lparr>ps_Answers := ps_Answers st @ [answer_record q token answer tm score]\<rparr>), Some dl)"
    unfolding graded_def by blast
  have "q \<in> set qs" "qp_Token q = token" using 1(3) by (auto simp: find_Some_iff)
  with 1 u show ?thesis unfolding untouched_def answer_record_def by (intro exI conjI) auto
qed

theorem SubmitAnswer_grades_once_witness:
  "\<exists>w' n q. SubmitAnswer ex_ms 9 1 ''11'' ''a'' 0 ex_mw = (w', Inr ()) \<and>
     live n (mem_tab (w_redis ex_mw)) (player_key dec_us 9 1) = Some (DPlayer q) \<and>
     mem_tab (w_redis w') (questions_key dec_us 9) = mem_tab (w_redis ex_mw) (questions_key dec_us 9)"
proof -
  obtain w' where w': "SubmitAnswer ex_ms 9 1 ''11'' ''a'' 0 ex_mw = (w', Inr ())" using ex_submit by blast
  have sel: "ms_redis ex_ms = mem_client" "ms_us ex_ms = dec_us" by (simp_all add: ex_ms_def)
  from SubmitAnswer_grades_once [of ex_ms mem_tab mem_clk, unfolded sel, OF mem.redis_server_axioms dec.uuid_text_axioms w']
  show ?thesis using w' dec.keys_disjoint by metis
qed

text \<open>C19: An answer that is rejected (lock held, no such player or pack, unknown token, question
  already answered) changes nothing in Redis but the lock of the match; only a failing write of
  the new state itself may leave the state written or not.\<close>

theorem rejected_answer_changes_nothing:
  assumes "redis_server (ms_redis s) tab clk" "uuid_text (ms_us s)"
    and "SubmitAnswer s m u token answer tm w = (w', Inl e)" "\<And>x. e \<noteq> wrap ''store state'' x"
    and "k \<noteq> lock_key (ms_us s) m"
  shows "tab (w_redis w') k = tab (w_redis w) k"
proof -
  have "match_service s tab clk" using assms(1,2) by (simp add: match_service_def match_redis_def)
  from match_service.SubmitAnswer_cases [OF this assms(3)] assms(4,5) show ?thesis by (auto simp: untouched_def)
qed

theorem rejected_answer_changes_nothing_witness:
  "\<exists>w'. SubmitAnswer ex_ms 9 1 ''12'' ''a'' 0 ex_mw = (w', Inl ''invalid question token'') \<and>
     mem_tab (w_redis w') (player_key dec_us 9 1) = Some (DPlayer (ex_player 1), None)"
proof -
  obtain w' where w': "SubmitAnswer ex_ms 9 1 ''12'' ''a'' 0 ex_mw = (w', Inl ''invalid question token'')" using ex_submit_bad by blast
  have sel: "ms_redis ex_ms = mem_client" "ms_us ex_ms = dec_us" by (simp_all add: ex_ms_def)
  have "mem_tab (w_redis w') (player_key dec_us 9 1) = mem_tab (w_redis ex_mw) (player_key dec_us 9 1)"
    by (rule rejected_answer_changes_nothing [of ex_ms mem_tab mem_clk, unfolded sel, OF mem.redis_server_axioms dec.uuid_text_axioms w'])
      (simp_all add: wrap_def dec.keys_disjoint)
  with w' show ?thesis by (simp add: ex_mw_def dec.keys_disjoint)
qed

lemma pack_items_nth: "j < length qs \<Longrightarrow> pack_items s i qs ! j =
    \<lparr>qp_Order = i + int j + 1, qp_ID = q_ID (qs ! j), qp_Prompt = q_Prompt (qs ! j), qp_Options = q_Options (qs ! j),
      qp_Token = signQuestionToken s (q_ID (qs ! j)) (q_Answer (qs ! j)), qp_CorrectAnswer = q_Answer (qs ! j)\<rparr>"
  by (induction qs arbitrary: i j) (auto simp: nth_Cons split: nat.splits)

lemma length_pack_items [simp]: "length (pack_items s i qs) = length qs"
  by (induction qs arbitrary: i) auto

text \<open>When a pack holds the same question twice (which the pack service lets happen), both copies
  carry the same token, and no answer is ever recorded for the second copy.\<close>

theorem repeated_question_unanswerable:
  assumes "redis_server (ms_redis s) tab clk" "uuid_text (ms_us s)"
    and "SubmitAnswer s m u token answer tm w = (w', Inr ())"
    and "\<And>n qs'. live n (tab (w_redis w)) (questions_key (ms_us s) m) = Some (DQuestions qs') \<Longrightarrow> qs' = pack_items s 0 qs"
    and "i < j" "j < length qs" "q_ID (qs ! i) = q_ID (qs ! j)" "q_Answer (qs ! i) = q_Answer (qs ! j)"
  shows "\<exists>st a dl n. live n (tab (w_redis w)) (player_key (ms_us s) m u) = Some (DPlayer st) \<and>
     tab (w_redis w') (player_key (ms_us s) m u) = Some (DPlayer (st\<lparr>ps_Answers := ps_Answers st @ [a]\<rparr>), dl) \<and>
     ar_QuestionOrder a \<noteq> int j + 1"
proof -
  have "match_service s tab clk" using assms(1,2) by (simp add: match_service_def match_redis_def)
  from match_service.SubmitAnswer_cases [OF this assms(3)]
  have g: "graded (ms_us s) m u token answer tm (tab (w_redis w)) (tab (w_redis w'))" by auto
  then obtain n1 n2 st q score dl where 1: "live n1 (tab (w_redis w)) (player_key (ms_us s) m u) = Some (DPlayer st)"
    "List.find (\<lambda>q. qp_Token q = token) (pack_items s 0 qs) = Some q"
    "tab (w_redis w') (player_key (ms_us s) m u) =
      Some (DPlayer (st\<lparr>ps_Answers := ps_Answers st @ [answer_record q token answer tm score]\<rparr>), Some dl)"
    unfolding graded_def using assms(4) by blast
  from 1(2) obtain k where k: "k < length qs" "q = pack_items s 0 qs ! k" "qp_Token q = token"
    "\<forall>l < k. qp_Token (pack_items s 0 qs ! l) \<noteq> token" by (auto simp: find_Some_iff)
  have "qp_Order q \<noteq> int j + 1"
  proof
    assume "qp_Order q = int j + 1"
    with k(1,2) have "k = j" by (simp add: pack_items_nth)
    with k(3,4) assms(5-8) k(2) have "qp_Token (pack_items s 0 qs ! i) = token" by (simp add: pack_items_nth)
    with k(4) \<open>k = j\<close> assms(5) show False by blast
  qed
  with 1 show ?thesis by (metis AnswerRecord.select_convs(1) answer_record_def)
qed

theorem repeated_question_unanswerable_witness:
  "\<exists>w' st a dl. SubmitAnswer ex_ms 9 1 ''11'' ''a'' 0 (ex_mw\<lparr>w_redis := ex_mem\<lparr>mem_tab := [player_key dec_us 9 1 \<mapsto> (DPlayer (ex_player 1), None),
     questions_key dec_us 9 \<mapsto> (DQuestions (pack_items ex_ms 0 [ex_q ''11'', ex_q ''11'']), None)]\<rparr>\<rparr>) = (w', Inr ()) \<and>
     mem_tab (w_redis w') (player_key dec_us 9 1) = Some (DPlayer (st\<lparr>ps_Answers := ps_Answers st @ [a]\<rparr>), dl) \<and>
     ar_QuestionOrder a \<noteq> 2"
proof -
  let ?qs = "[ex_q ''11'', ex_q ''11'']"
  let ?w = "ex_mw\<lparr>w_redis := ex_mem\<lparr>mem_tab := [player_key dec_us 9 1 \<mapsto> (DPlayer (ex_player 1), None),
     questions_key dec_us 9 \<mapsto> (DQuestions (pack_items ex_ms 0 ?qs), None)]\<rparr>\<rparr>"
  obtain w' where w': "SubmitAnswer ex_ms 9 1 ''11'' ''a'' 0 ?w = (w', Inr ())"
    by (simp add: ms_eval ex_q_def signQuestionToken_def dec.keys_disjoint)
  have sel: "ms_redis ex_ms = mem_client" "ms_us ex_ms = dec_us" by (simp_all add: ex_ms_def)
  note nth = repeated_question_unanswerable [of ex_ms mem_tab mem_clk, unfolded sel, OF mem.redis_server_axioms
      dec.uuid_text_axioms w', of ?qs 0 1]
  have "\<exists>st a dl n. live n (mem_tab (w_redis ?w)) (player_key dec_us 9 1) = Some (DPlayer st) \<and>
     mem_tab (w_redis w') (player_key dec_us 9 1) = Some (DPlayer (st\<lparr>ps_Answers := ps_Answers st @ [a]\<rparr>), dl) \<and>
     ar_QuestionOrder a \<noteq> int 1 + 1"
    by (rule nth) (auto simp: live_def dec.keys_disjoint)
  with w' show ?thesis by auto
qed

text \<open>C39: A match that was created is not in the database under the identifier the service hands out
  (the row has one the database generated, and it is dropped), so \<open>GetSummary\<close> fails for it from
  then on: unless the two generators collide.\<close>

theorem created_match_is_not_in_the_database:
  assumes "app_wired s tab clk" "match_run s tab w" "CreateRandomMatch s pair n sec cat w = (w', Inr (mt, items))"
    and "\<And>i. ms_scan s (m_ID mt) = Inr (Some i) \<Longrightarrow> i = m_ID mt"
    and "db_matches (w_db w) (m_ID mt) = None" "db_uuids (w_db w) (db_drawn (w_db w)) \<noteq> m_ID mt"
    and "db_matches (w_db w'') = db_matches (w_db w')"
  shows "\<exists>e. snd (GetSummary s (m_ID mt) w'') = Inl e"
proof -
  from CreateRandomMatch_created [OF assms(1,3)] match_run_store_ok [OF assms(1,2)] assms(5,6)
  have none: "db_matches (w_db w') (m_ID mt) = None" unfolding created_ok_def by metis
  obtain v x where g: "GetSummary s (m_ID mt) w'' = (v, x)" by force
  with match_service.GetSummary_Inr [OF app_wiredD(1) [OF assms(1)]] assms(4,7) none show ?thesis by (cases x) fastforce+
qed

definition ex_guest :: "uuid \<Rightarrow> WaitingPlayer" where
  "ex_guest u = \<lparr>wp_UserID = u, wp_Username = ''g'', wp_IsGuest = False, wp_PreferredCategory = [], wp_PreferredDifficulty = [],
     wp_BotOK = False, wp_QueuedAt = 0, wp_QueueToken = u\<rparr>"

definition ex_random_req :: PackRequest where
  "ex_random_req = \<lparr>pr_Category = ''general'', pr_DifficultyCounts = getFixedDifficultyDistribution 5, pr_TotalQuestions = 5,
     pr_Seed = seed_hash ex_ms 20 0, pr_PerQuestionSeconds = 15, pr_UserID = None, pr_UserIDs = [Some 1, Some 2],
     pr_MatchMode = ModeRandom1v1\<rparr>"

definition ex_random_w :: "(mem, unit, nat) world" where
  "ex_random_w = \<lparr>w_redis = ex_mem\<lparr>mem_tab := [cache_key ex_random_req \<mapsto> (DPack \<lparr>resp_Questions = [], resp_Seed = [], resp_ExpiresAt = 0\<rparr>, None)]\<rparr>,
     w_db = ex_db, w_ext = 20\<rparr>"

lemma ex_random: "\<exists>w' mt items. CreateRandomMatch ex_ms \<lparr>Player1 = ex_guest 1, Player2 = ex_guest 2\<rparr> 5 15 ''general'' ex_random_w
    = (w', Inr (mt, items)) \<and> m_ID mt = 20"
proof -
  have sel: "ms_redis ex_ms = mem_client" "ms_us ex_ms = dec_us" "ms_uuid ex_ms = (\<lambda>n. (Suc n, word_of_nat n))"
    "ms_now ex_ms = (\<lambda>n. (n, 0))" "ms_visit ex_ms = (\<lambda>n. (n, id))" "ms_scan ex_ms = (\<lambda>u. Inr (Some u))" "ms_q ex_ms = ex_qs"
    by (simp_all add: ex_ms_def)
  have w: "word_of_nat 20 = (20 :: uuid)" by simp
  have c: "qs_cache ex_qs = redis_cache (NewCache mem_client 0)" "qs_redis ex_qs = Some mem_client" by (simp_all add: ex_qs_def)
  have r: "\<lparr>pr_Category = ''general'', pr_DifficultyCounts = getFixedDifficultyDistribution 5, pr_TotalQuestions = 5,
     pr_Seed = seed_hash ex_ms 20 0, pr_PerQuestionSeconds = 15, pr_UserID = None, pr_UserIDs = [Some 1, Some 2],
     pr_MatchMode = ''random_1v1''\<rparr> = ex_random_req" by (simp add: ex_random_req_def mode_defs)
  show ?thesis
    by (simp add: CreateRandomMatch_def finish_create_def sel on_ext_def on_db_def on_redis_def w ex_random_w_def ex_guest_def
        normalizeCategory_def r CreateMatch_def stmt_def db_error_def db_next_def ex_db_def ex_user_def user_ids_def Let_def random_params_def
        match_modes_def match_statuses_def mode_defs status_defs fk_ok_def prepare_match_def FetchPack_def c redis_cache_def
        NewCache_def Cache_Get_def mem_commands live_def mem_next_def ex_mem_def StorePlayerState_def StoreMatchQuestions_def initial_state_def CreatePlayerMatchState_def
        player_statuses_def player_status_defs dec.keys_disjoint save_history_def AddUserQuestionHistory_def created_match_def)
qed

theorem created_match_is_not_in_the_database_witness:
  "\<exists>w' mt items. CreateRandomMatch ex_ms \<lparr>Player1 = ex_guest 1, Player2 = ex_guest 2\<rparr> 5 15 ''general'' ex_random_w = (w', Inr (mt, items)) \<and>
     (\<exists>e. snd (GetSummary ex_ms (m_ID mt) w') = Inl e)"
proof -
  obtain w' mt items where c: "CreateRandomMatch ex_ms \<lparr>Player1 = ex_guest 1, Player2 = ex_guest 2\<rparr> 5 15 ''general'' ex_random_w
      = (w', Inr (mt, items))" and m: "m_ID mt = 20" using ex_random by blast
  have run: "match_run ex_ms mem_tab ex_random_w"
    by (rule match_run.init) (use cache_key_not_match in \<open>auto simp: ex_random_w_def\<close>)
  from created_match_is_not_in_the_database [OF ex_wired run c] c m show ?thesis
    by (auto simp: ex_ms_def ex_random_w_def ex_db_def)
qed

text \<open>Finalising a match whose row is not found (as for every match the service created) puts no
  result on any leaderboard: apart from the lock, the only keys that change are states of players
  of the match, each now with a final score and with an answer to every question of the pack;
  the payload says that the match was not eligible.\<close>

theorem finalise_without_row_skips_leaderboard:
  assumes "redis_server (ms_redis s) tab clk" "uuid_text (ms_us s)"
    and "\<And>i. ms_scan s m = Inr (Some i) \<Longrightarrow> db_matches (w_db w) i = None"
    and "FinalizeMatch s m w = (w', Inr (pl, ps))" "k \<noteq> lock_key (ms_us s) m" "tab (w_redis w') k \<noteq> tab (w_redis w) k"
  shows "\<not> mc_LeaderboardEligible pl \<and> ps = [] \<and>
    (\<exists>u st' dl qs. k = player_key (ms_us s) m u \<and> tab (w_redis w') k = Some (DPlayer st', Some dl) \<and> ps_FinalScore st' \<noteq> None \<and>
      (qs = [] \<or> (\<exists>n. live n (tab (w_redis w)) (questions_key (ms_us s) m) = Some (DQuestions qs))) \<and>
      (\<forall>q \<in> set qs. qp_Order q \<in> ar_QuestionOrder ` set (ps_Answers st')))"
proof -
  have M: "match_service s tab clk" using assms(1,2) by (simp add: match_service_def match_redis_def)
  from match_service.with_lock_cases [OF M assms(4) [unfolded FinalizeMatch_def]]
  obtain w1 w2 where l: "untouched (tab (w_redis w)) (tab (w_redis w1)) {lock_key (ms_us s) m}" "w_db w1 = w_db w"
    "untouched (tab (w_redis w2)) (tab (w_redis w')) {lock_key (ms_us s) m}"
    and f: "finalize_locked s m w1 = (w2, Inr (pl, ps))" by auto
  from match_service.finalize_locked_cases [OF M f] assms(3) l(2)
  obtain w3 sts qs pt w4 reqs where t: "tab (w_redis w3) = tab (w_redis w1)"
    and rd: "match_service.finalize_reads s m (tab (w_redis w1)) sts qs"
    and fp: "finalize_players s m False qs pt sts w3 = (w4, reqs)" "tab (w_redis w2) = tab (w_redis w4)"
    and el: "mc_LeaderboardEligible pl = False" "ps = []" by auto
  have kq: "tab (w_redis w1) (questions_key (ms_us s) m) = tab (w_redis w) (questions_key (ms_us s) m)"
    using l(1) uuid_text.keys_disjoint [OF assms(2)] by (auto simp: untouched_def)
  have "tab (w_redis w4) k \<noteq> tab (w_redis w3) k" using assms(5,6) l fp(2) t by (auto simp: untouched_def)
  with conjunct1 [OF match_service.finalize_players_cases [OF M fp(1)]] obtain st st' dl where
    k: "k = player_key (ms_us s) m (ps_UserID st)" "finalised (ms_scoring s) pt qs st st'"
      "tab (w_redis w4) k = Some (DPlayer st', Some dl)" by blast
  from k(3) fp(2) l(3) assms(5) have "tab (w_redis w') k = Some (DPlayer st', Some dl)" by (simp add: untouched_def)
  moreover have "qs = [] \<or> (\<exists>n. live n (tab (w_redis w)) (questions_key (ms_us s) m) = Some (DQuestions qs))"
    using rd live_cong [of "tab (w_redis w1)" "questions_key (ms_us s) m" "tab (w_redis w)"] kq
    by (simp add: match_service.finalize_reads_def [OF M])
  ultimately show ?thesis using el k(1) finalised_props [OF k(2)] by blast
qed

theorem finalise_without_row_skips_leaderboard_witness:
  "\<exists>w' pl ps st dl. FinalizeMatch ex_ms 9 ex_mw = (w', Inr (pl, ps)) \<and> ps = [] \<and> \<not> mc_LeaderboardEligible pl \<and>
     mem_tab (w_redis w') (player_key dec_us 9 1) = Some (DPlayer st, Some dl) \<and> ps_FinalScore st \<noteq> None"
proof -
  obtain w' pl ps where f: "FinalizeMatch ex_ms 9 ex_mw = (w', Inr (pl, ps))"
    and ch: "mem_tab (w_redis w') (player_key dec_us 9 1) \<noteq> mem_tab (w_redis ex_mw) (player_key dec_us 9 1)"
    using ex_finalize by blast
  have sel: "ms_redis ex_ms = mem_client" "ms_us ex_ms = dec_us" by (simp_all add: ex_ms_def)
  have none: "\<And>i. ms_scan ex_ms 9 = Inr (Some i) \<Longrightarrow> db_matches (w_db ex_mw) i = None" by (simp add: ex_mw_def ex_db_def)
  from finalise_without_row_skips_leaderboard [of ex_ms mem_tab mem_clk 9, unfolded sel, OF mem.redis_server_axioms
      dec.uuid_text_axioms none f _ ch] f dec.keys_disjoint
  show ?thesis by (auto simp: dec.player_key_inject)
qed

text \<open>C40: The result list that the first finalisation of a match broadcasts shows score 0 for every
  player, although the final scores have just been computed and stored: the loop works on copies
  of the states.\<close>

theorem first_finalisation_reports_zero:
  assumes "redis_server (ms_redis s) tab clk" "uuid_text (ms_us s)"
    and "\<And>k st dl. prefix (player_prefix (ms_us s) m) k \<Longrightarrow> tab (w_redis w) k = Some (DPlayer st, dl) \<Longrightarrow> ps_FinalScore st = None"
    and "FinalizeMatch s m w = (w', Inr (pl, ps))"
  shows "\<forall>r \<in> set (mc_Results pl). mt_FinalScore r = 0"
proof -
  have M: "match_service s tab clk" using assms(1,2) by (simp add: match_service_def match_redis_def)
  from match_service.with_lock_cases [OF M assms(4) [unfolded FinalizeMatch_def]]
  obtain w1 w2 where l: "untouched (tab (w_redis w)) (tab (w_redis w1)) {lock_key (ms_us s) m}"
    and f: "finalize_locked s m w1 = (w2, Inr (pl, ps))" by auto
  from match_service.finalize_locked_cases [OF M f] obtain sts qs where
    rd: "match_service.finalize_reads s m (tab (w_redis w1)) sts qs" and r: "mc_Results pl = map (match_result s) sts" by auto
  have "ps_FinalScore st = None" if "st \<in> set sts" for st
  proof -
    from rd that obtain k n where k: "prefix (player_prefix (ms_us s) m) k" "live n (tab (w_redis w1)) k = Some (DPlayer st)"
      unfolding match_service.finalize_reads_def [OF M] by blast
    from k(1) have "k \<noteq> lock_key (ms_us s) m" by (auto simp: player_prefix_def lock_key_def)
    with l k(2) have "live n (tab (w_redis w)) k = Some (DPlayer st)"
      using live_cong [of "tab (w_redis w1)" k "tab (w_redis w)"] by (simp add: untouched_def)
    then obtain dl where "tab (w_redis w) k = Some (DPlayer st, dl)" by (auto simp: live_def split: option.splits if_splits)
    with assms(3) k(1) show ?thesis by blast
  qed
  with r show ?thesis by (auto simp: match_result_def)
qed

theorem first_finalisation_reports_zero_witness:
  "\<exists>w' pl ps. FinalizeMatch ex_ms 9 ex_mw = (w', Inr (pl, ps)) \<and> length (mc_Results pl) = 1 \<and>
     mt_FinalScore (hd (mc_Results pl)) = 0"
proof -
  obtain w' pl ps where f: "FinalizeMatch ex_ms 9 ex_mw = (w', Inr (pl, ps))" and n: "length (mc_Results pl) = 1"
    using ex_finalize by blast
  have sel: "ms_redis ex_ms = mem_client" "ms_us ex_ms = dec_us" by (simp_all add: ex_ms_def)
  have z: "\<And>k st dl. prefix (player_prefix dec_us 9) k \<Longrightarrow> mem_tab (w_redis ex_mw) k = Some (DPlayer st, dl) \<Longrightarrow> ps_FinalScore st = None"
    by (auto simp: ex_mw_def ex_player_def split: if_splits)
  from first_finalisation_reports_zero [of ex_ms mem_tab mem_clk 9, unfolded sel, OF mem.redis_server_axioms dec.uuid_text_axioms z f]
  show ?thesis using f n by (cases "mc_Results pl") auto
qed

end
