(* ===== verification/Hub.thy ===== *)
theory Hub
  imports Messages
begin

section \<open>The WebSocket hub (pkg/http/ws/hub.go)\<close>

text \<open>
  \<open>Hub\<close> maps users to connections and matches to the users that joined them. A connection is a
  pointer: its state (send queue, closed flag, what the write pump has written) is kept under the
  pointer. The users of a match are a Go slice: \<open>LeaveMatch\<close> shifts the elements of the backing
  array in place while \<open>BroadcastToMatch\<close> reads the slice it copied without the lock, so the
  model keeps the arrays: \<open>hub_matches\<close> gives the array and the length of a slice. Every method
  that holds the mutex is one step; \<open>grow\<close> is the capacity \<open>append\<close> gives a new array, which
  the language leaves open. The websocket itself (\<open>ReadJSON\<close>, \<open>WriteJSON\<close>, deadlines) is
  outside: whether a write succeeds is an argument. A send on a connection without a registered
  user is an \<open>Error\<close>, kept as its message.

  The lemmas: the arrays implement plain membership lists; queues stay within their 256 places,
  deliver in order and accept nothing after \<open>Close\<close>; a broadcast that runs beside a \<open>LeaveMatch\<close>
  can miss a member; the clean-up of a replaced connection closes its successor.
\<close>

definition ErrConnectionNotFound :: err where "ErrConnectionNotFound = ''User connection not found''"
definition ErrConnectionClosed :: err where "ErrConnectionClosed = ''Connection is closed''"
definition ErrSendQueueFull :: err where "ErrSendQueueFull = ''Send queue is full''"

subsection \<open>Connections\<close>

record Connection =
  cn_sendCh :: "Message list"
  cn_closed :: bool
  cn_written :: "Message list"
  cn_writing :: bool

definition send_capacity :: nat where "send_capacity = 256"

definition NewConnection :: Connection where
  "NewConnection = \<lparr>cn_sendCh = [], cn_closed = False, cn_written = [], cn_writing = True\<rparr>"

definition Conn_Send :: "Message \<Rightarrow> Connection \<Rightarrow> Connection \<times> err option" where
  "Conn_Send msg c =
     (if cn_closed c then (c, Some ErrConnectionClosed)
      else if length (cn_sendCh c) < send_capacity then (c\<lparr>cn_sendCh := cn_sendCh c @ [msg]\<rparr>, None)
      else (c, Some ErrSendQueueFull))"

definition Conn_Close :: "Connection \<Rightarrow> Connection" where
  "Conn_Close c = (if cn_closed c then c else c\<lparr>cn_closed := True\<rparr>)"

text \<open>One turn of the loop of \<open>WritePump\<close>; \<open>ok\<close> is the outcome of \<open>WriteJSON\<close>. An empty queue of an
  open connection blocks.\<close>

definition WritePump_step :: "bool \<Rightarrow> Connection \<Rightarrow> Connection" where
  "WritePump_step ok c =
     (if \<not> cn_writing c then c
      else case cn_sendCh c of
             [] \<Rightarrow> if cn_closed c then c\<lparr>cn_writing := False\<rparr> else c
           | msg # rest \<Rightarrow>
               if ok then c\<lparr>cn_sendCh := rest, cn_written := cn_written c @ [msg]\<rparr>
               else c\<lparr>cn_sendCh := rest, cn_writing := False\<rparr>)"

subsection \<open>The hub\<close>

record Hub =
  hub_connections :: "uuid \<rightharpoonup> nat"
  hub_matches :: "uuid \<rightharpoonup> nat \<times> nat"
  hub_conn :: "nat \<Rightarrow> Connection"
  hub_array :: "nat \<Rightarrow> uuid list"
  hub_next :: nat

definition NewHub :: Hub where
  "NewHub = \<lparr>hub_connections = Map.empty, hub_matches = Map.empty, hub_conn = (\<lambda>_. NewConnection),
     hub_array = (\<lambda>_. []), hub_next = 0\<rparr>"

definition on_conn :: "nat \<Rightarrow> (Connection \<Rightarrow> Connection) \<Rightarrow> Hub \<Rightarrow> Hub" where
  "on_conn c f h = h\<lparr>hub_conn := (hub_conn h)(c := f (hub_conn h c))\<rparr>"

definition RegisterConnection :: "uuid \<Rightarrow> nat \<Rightarrow> Hub \<Rightarrow> Hub" where
  "RegisterConnection userID conn h =
     (let h = (case hub_connections h userID of None \<Rightarrow> h | Some old \<Rightarrow> on_conn old Conn_Close h)
      in h\<lparr>hub_connections := (hub_connections h)(userID \<mapsto> conn)\<rparr>)"

text \<open>The slice of a match, as the loops read it; a missing key is the nil slice.\<close>

definition users_of :: "Hub \<Rightarrow> uuid \<Rightarrow> uuid list" where
  "users_of h matchID = (case hub_matches h matchID of None \<Rightarrow> [] | Some (arr, n) \<Rightarrow> take n (hub_array h arr))"

fun index_of :: "uuid \<Rightarrow> uuid list \<Rightarrow> nat option" where
  "index_of u [] = None"
| "index_of u (v # vs) = (if v = u then Some 0 else map_option Suc (index_of u vs))"

text \<open>\<open>append(users[:i], users[i+1:]...)\<close>: the elements behind \<open>i\<close> move down in place; the array
  keeps its last element.\<close>

definition shift_down :: "nat \<Rightarrow> nat \<Rightarrow> uuid list \<Rightarrow> uuid list" where
  "shift_down i n xs = take i xs @ drop (i + 1) (take n xs) @ drop (n - 1) xs"

definition remove_user :: "uuid \<Rightarrow> uuid \<Rightarrow> Hub \<Rightarrow> Hub" where
  "remove_user matchID userID h =
     (case hub_matches h matchID of
        None \<Rightarrow> h
      | Some (arr, n) \<Rightarrow>
          (case index_of userID (users_of h matchID) of
             None \<Rightarrow> h
           | Some i \<Rightarrow> h\<lparr>hub_array := (hub_array h)(arr := shift_down i n (hub_array h arr)),
                         hub_matches := (hub_matches h)(matchID \<mapsto> (arr, n - 1))\<rparr>))"

text \<open>\<open>order\<close> is the order of the iteration over the map of matches.\<close>

definition UnregisterConnection :: "uuid list \<Rightarrow> uuid \<Rightarrow> Hub \<Rightarrow> Hub" where
  "UnregisterConnection order userID h =
     (let h = (case hub_connections h userID of
                 None \<Rightarrow> h
               | Some conn \<Rightarrow> (on_conn conn Conn_Close h)\<lparr>hub_connections := (hub_connections h)(userID := None)\<rparr>)
      in fold (\<lambda>matchID h. remove_user matchID userID h) order h)"

text \<open>\<open>append(users, userID)\<close>: in place when the array has room, otherwise into a new array.\<close>

definition append_user :: "(nat \<Rightarrow> nat) \<Rightarrow> uuid \<Rightarrow> uuid \<Rightarrow> Hub \<Rightarrow> Hub" where
  "append_user grow matchID userID h =
     (case hub_matches h matchID of
        Some (arr, n) \<Rightarrow>
          if n < length (hub_array h arr)
          then h\<lparr>hub_array := (hub_array h)(arr := (hub_array h arr)[n := userID]),
                 hub_matches := (hub_matches h)(matchID \<mapsto> (arr, n + 1))\<rparr>
          else h\<lparr>hub_array := (hub_array h)(hub_next h := take n (hub_array h arr) @ [userID] @
                   replicate (grow (n + 1) - (n + 1)) uuid_Nil),
                 hub_matches := (hub_matches h)(matchID \<mapsto> (hub_next h, n + 1)), hub_next := hub_next h + 1\<rparr>
      | None \<Rightarrow>
          h\<lparr>hub_array := (hub_array h)(hub_next h := [userID] @ replicate (grow 1 - 1) uuid_Nil),
            hub_matches := (hub_matches h)(matchID \<mapsto> (hub_next h, 1)), hub_next := hub_next h + 1\<rparr>)"

definition JoinMatch :: "(nat \<Rightarrow> nat) \<Rightarrow> uuid \<Rightarrow> uuid \<Rightarrow> Hub \<Rightarrow> Hub" where
  "JoinMatch grow matchID userID h =
     (if userID \<in> set (users_of h matchID) then h else append_user grow matchID userID h)"

definition LeaveMatch :: "uuid \<Rightarrow> uuid \<Rightarrow> Hub \<Rightarrow> Hub" where
  "LeaveMatch matchID userID h = remove_user matchID userID h"

definition SendToUser :: "uuid \<Rightarrow> Message \<Rightarrow> Hub \<Rightarrow> Hub \<times> err option" where
  "SendToUser userID msg h =
     (case hub_connections h userID of
        None \<Rightarrow> (h, Some ErrConnectionNotFound)
      | Some conn \<Rightarrow> (let (c, e) = Conn_Send msg (hub_conn h conn) in (on_conn conn (\<lambda>_. c) h, e)))"

fun send_all :: "uuid list \<Rightarrow> Message \<Rightarrow> Hub \<Rightarrow> Hub \<times> err list" where
  "send_all [] msg h = (h, [])"
| "send_all (u # us) msg h =
     (let (h, e) = SendToUser u msg h; (h, es) = send_all us msg h
      in (h, (case e of None \<Rightarrow> es | Some x \<Rightarrow> x # es)))"

definition first_error :: "err list \<Rightarrow> err option" where
  "first_error es = (case es of [] \<Rightarrow> None | e # _ \<Rightarrow> Some e)"

text \<open>Without another goroutine in between; the interleaved version is below.\<close>

definition BroadcastToMatch :: "uuid \<Rightarrow> Message \<Rightarrow> Hub \<Rightarrow> Hub \<times> err option" where
  "BroadcastToMatch matchID msg h = (let (h, es) = send_all (users_of h matchID) msg h in (h, first_error es))"

definition BroadcastAll :: "uuid list \<Rightarrow> Message \<Rightarrow> Hub \<Rightarrow> Hub \<times> err option" where
  "BroadcastAll order msg h = (let (h, es) = send_all order msg h in (h, first_error es))"

definition GetConnection :: "uuid \<Rightarrow> Hub \<Rightarrow> nat option" where
  "GetConnection userID h = hub_connections h userID"

text \<open>A broadcast in its single steps: the slice header it copied under the read lock, the position
  of its loop, and the read of one element from the array as it is then.\<close>

record Broadcast =
  bc_array :: nat
  bc_len :: nat
  bc_pos :: nat

definition broadcast_start :: "uuid \<Rightarrow> Hub \<Rightarrow> Broadcast" where
  "broadcast_start matchID h =
     (case hub_matches h matchID of
        None \<Rightarrow> \<lparr>bc_array = 0, bc_len = 0, bc_pos = 0\<rparr>
      | Some (arr, n) \<Rightarrow> \<lparr>bc_array = arr, bc_len = n, bc_pos = 0\<rparr>)"

definition broadcast_step :: "Message \<Rightarrow> Broadcast \<Rightarrow> Hub \<Rightarrow> Broadcast \<times> Hub" where
  "broadcast_step msg b h =
     (if bc_pos b < bc_len b
      then (b\<lparr>bc_pos := bc_pos b + 1\<rparr>, fst (SendToUser (hub_array h (bc_array b) ! bc_pos b) msg h))
      else (b, h))"

subsection \<open>Slices as membership lists\<close>

lemma index_of_Some:
  "index_of u vs = Some i \<Longrightarrow> i < length vs \<and> vs ! i = u \<and> take i vs @ drop (Suc i) vs = remove1 u vs"
  by (induction u vs arbitrary: i rule: index_of.induct) (auto split: if_splits)

lemma index_of_None: "index_of u vs = None \<longleftrightarrow> u \<notin> set vs"
  by (induction u vs rule: index_of.induct) auto

lemma shift_down_props:
  assumes "i < n" "n \<le> length xs"
  shows "length (shift_down i n xs) = length xs" "take (n - 1) (shift_down i n xs) = take i (take n xs) @ drop (Suc i) (take n xs)"
proof -
  have A: "length (take i xs @ drop (i + 1) (take n xs)) = n - 1" using assms by simp
  show "length (shift_down i n xs) = length xs" using assms by (simp add: shift_down_def)
  have "take (n - 1) (shift_down i n xs) = take i xs @ drop (i + 1) (take n xs)"
    unfolding shift_down_def append_assoc [symmetric] using A by (metis append_eq_conv_conj)
  then show "take (n - 1) (shift_down i n xs) = take i (take n xs) @ drop (Suc i) (take n xs)"
    using assms by (simp add: min_def)
qed

definition hub_ok :: "Hub \<Rightarrow> bool" where
  "hub_ok h \<longleftrightarrow>
     (\<forall>m a n. hub_matches h m = Some (a, n) \<longrightarrow> a < hub_next h \<and> n \<le> length (hub_array h a)) \<and>
     (\<forall>m m' a n n'. hub_matches h m = Some (a, n) \<longrightarrow> hub_matches h m' = Some (a, n') \<longrightarrow> m = m') \<and>
     (\<forall>m. distinct (users_of h m))"

lemma hub_okD:
  assumes "hub_ok h" "hub_matches h m = Some (a, n)"
  shows "a < hub_next h" "n \<le> length (hub_array h a)" "hub_matches h m' = Some (a, n') \<Longrightarrow> m = m'"
  using assms unfolding hub_ok_def by blast+

lemma hub_ok_distinct: "hub_ok h \<Longrightarrow> distinct (users_of h m)"
  by (simp add: hub_ok_def)

text \<open>A step that gives match \<open>m\<close> the slice \<open>(a, n)\<close>, whose array no other match uses.\<close>

lemma set_slice:
  assumes h: "hub_ok h" and new: "\<And>m'. m' \<noteq> m \<Longrightarrow> (\<forall>n'. hub_matches h m' \<noteq> Some (a, n'))"
    and h': "hub_matches h' = (hub_matches h)(m \<mapsto> (a, n))" "hub_array h' = (hub_array h)(a := xs)"
    and b: "hub_next h \<le> hub_next h'" "a < hub_next h'" "n \<le> length xs" "distinct (take n xs)"
  shows "users_of h' m' = (if m' = m then take n xs else users_of h m') \<and> hub_ok h'"
proof -
  have us: "users_of h' k = (if k = m then take n xs else users_of h k)" for k
    using new [of k] h' by (auto simp: users_of_def split: option.splits)
  have "hub_ok h'" unfolding hub_ok_def
  proof (intro conjI allI impI)
    fix k a' n' assume k: "hub_matches h' k = Some (a', n')"
    show "a' < hub_next h'" using k h' b hub_okD(1) [OF h, of k a' n'] by (auto split: if_splits)
    show "n' \<le> length (hub_array h' a')"
      using k h' b new [of k] hub_okD(2) [OF h, of k a' n'] by (auto split: if_splits)
    fix k' n2 assume "hub_matches h' k' = Some (a', n2)"
    with k h' new [of k] new [of k'] hub_okD(3) [OF h, of k a' n' k' n2] show "k = k'" by (auto split: if_splits)
  next
    show "distinct (users_of h' k)" for k using us [of k] b(4) hub_ok_distinct [OF h, of k] by simp
  qed
  with us show ?thesis by blast
qed

lemma remove_user_spec:
  assumes "hub_ok h"
  shows "users_of (remove_user m u h) m' = (if m' = m then remove1 u (users_of h m') else users_of h m') \<and>
    hub_ok (remove_user m u h)"
proof (cases "hub_matches h m")
  case None
  with assms show ?thesis by (simp add: remove_user_def users_of_def)
next
  case (Some s)
  obtain a n where s: "hub_matches h m = Some (a, n)" using Some by (cases s) simp
  have us: "users_of h m = take n (hub_array h a)" using s by (simp add: users_of_def)
  note ok = hub_okD [OF assms s]
  show ?thesis
  proof (cases "index_of u (users_of h m)")
    case None
    then have "u \<notin> set (users_of h m)" by (simp add: index_of_None)
    with None s assms show ?thesis by (simp add: remove_user_def remove1_idem)
  next
    case (Some i)
    note i = index_of_Some [OF Some]
    have n: "i < n" "n \<le> length (hub_array h a)" using i us ok(2) by auto
    note sd = shift_down_props [OF n]
    have tk: "take (n - 1) (shift_down i n (hub_array h a)) = remove1 u (users_of h m)" using sd(2) i us n(1) by (simp add: min_def)
    let ?xs = "shift_down i n (hub_array h a)"
    define h1 where "h1 = h\<lparr>hub_array := (hub_array h)(a := ?xs), hub_matches := (hub_matches h)(m \<mapsto> (a, n - 1))\<rparr>"
    have r: "remove_user m u h = h1" using s Some by (simp add: remove_user_def h1_def)
    have "users_of h1 m' = (if m' = m then take (n - 1) ?xs else users_of h m') \<and> hub_ok h1"
    proof (rule set_slice [OF assms])
      show "\<forall>n'. hub_matches h k \<noteq> Some (a, n')" if "k \<noteq> m" for k using ok(3) that by blast
      show "distinct (take (n - 1) ?xs)" unfolding tk using hub_ok_distinct [OF assms] by (simp add: distinct_remove1)
      show "n - 1 \<le> length ?xs" using sd(1) n by simp
    qed (use ok(1) in \<open>simp_all add: h1_def\<close>)
    then show ?thesis unfolding r tk by simp
  qed
qed

lemma append_user_spec:
  assumes h: "hub_ok h" and u: "u \<notin> set (users_of h m)"
  shows "users_of (append_user grow m u h) m' = (if m' = m then users_of h m' @ [u] else users_of h m') \<and>
    hub_ok (append_user grow m u h)"
proof -
  have fresh: "hub_matches h k \<noteq> Some (hub_next h, n')" for k n' using hub_okD(1) [OF h] by blast
  show ?thesis
  proof (cases "hub_matches h m")
    case None
    let ?xs = "[u] @ replicate (grow 1 - 1) uuid_Nil"
    define h1 where "h1 = h\<lparr>hub_array := (hub_array h)(hub_next h := ?xs),
      hub_matches := (hub_matches h)(m \<mapsto> (hub_next h, 1)), hub_next := hub_next h + 1\<rparr>"
    have ap: "append_user grow m u h = h1" using None by (simp add: append_user_def h1_def)
    have "users_of h1 m' = (if m' = m then take 1 ?xs else users_of h m') \<and> hub_ok h1"
    proof (rule set_slice [OF h])
      show "\<forall>n'. hub_matches h k \<noteq> Some (hub_next h, n')" for k using fresh by blast
    qed (simp_all add: h1_def)
    with None show ?thesis unfolding ap by (simp add: users_of_def)
  next
    case (Some s)
    obtain a n where s: "hub_matches h m = Some (a, n)" using Some by (cases s) simp
    have us: "users_of h m = take n (hub_array h a)" using s by (simp add: users_of_def)
    note ok = hub_okD [OF h s]
    have d: "distinct (take n (hub_array h a) @ [u])" using hub_ok_distinct [OF h, of m] u us by simp
    show ?thesis
    proof (cases "n < length (hub_array h a)")
      case True
      have tk: "take (n + 1) ((hub_array h a)[n := u]) = take n (hub_array h a) @ [u]" using True by (simp add: take_Suc_conv_app_nth)
      let ?xs = "(hub_array h a)[n := u]"
      define h1 where "h1 = h\<lparr>hub_array := (hub_array h)(a := ?xs), hub_matches := (hub_matches h)(m \<mapsto> (a, n + 1))\<rparr>"
      have ap: "append_user grow m u h = h1" using s True by (simp add: append_user_def h1_def)
      have "users_of h1 m' = (if m' = m then take (n + 1) ?xs else users_of h m') \<and> hub_ok h1"
      proof (rule set_slice [OF h])
        show "\<forall>n'. hub_matches h k \<noteq> Some (a, n')" if "k \<noteq> m" for k using ok(3) that by blast
        show "distinct (take (n + 1) ?xs)" unfolding tk by (rule d)
        show "n + 1 \<le> length ?xs" using True by simp
      qed (use ok(1) in \<open>simp_all add: h1_def\<close>)
      then show ?thesis unfolding ap tk using us by simp
    next
      case False
      with ok(2) have n: "n = length (hub_array h a)" by simp
      let ?xs = "take n (hub_array h a) @ [u] @ replicate (grow (n + 1) - (n + 1)) uuid_Nil"
      define h1 where "h1 = h\<lparr>hub_array := (hub_array h)(hub_next h := ?xs),
        hub_matches := (hub_matches h)(m \<mapsto> (hub_next h, n + 1)), hub_next := hub_next h + 1\<rparr>"
      have ap: "append_user grow m u h = h1" using s False by (simp add: append_user_def h1_def)
      have tk: "take (n + 1) ?xs = take n (hub_array h a) @ [u]" using n by simp
      have "users_of h1 m' = (if m' = m then take (n + 1) ?xs else users_of h m') \<and> hub_ok h1"
      proof (rule set_slice [OF h])
        show "distinct (take (n + 1) ?xs)" unfolding tk by (rule d)
        show "n + 1 \<le> length ?xs" using n by simp
        show "\<forall>n'. hub_matches h k \<noteq> Some (hub_next h, n')" for k using fresh by blast
      qed (simp_all add: h1_def)
      then have "users_of (append_user grow m u h) m' = (if m' = m then take n (hub_array h a) @ [u] else users_of h m') \<and>
        hub_ok (append_user grow m u h)" unfolding ap tk .
      with us show ?thesis by auto
    qed
  qed
qed

lemma same_slices: "hub_matches h' = hub_matches h \<Longrightarrow> hub_array h' = hub_array h \<Longrightarrow> hub_next h' = hub_next h \<Longrightarrow>
    users_of h' = users_of h \<and> (hub_ok h' \<longleftrightarrow> hub_ok h)"
proof -
  assume e: "hub_matches h' = hub_matches h" "hub_array h' = hub_array h" "hub_next h' = hub_next h"
  have u: "users_of h' = users_of h" by (rule ext) (simp add: users_of_def e split: option.splits)
  then show ?thesis by (simp add: hub_ok_def e)
qed

lemma on_conn_sel [simp]:
  "hub_matches (on_conn c f h) = hub_matches h" "hub_array (on_conn c f h) = hub_array h"
  "hub_next (on_conn c f h) = hub_next h" "hub_connections (on_conn c f h) = hub_connections h"
  "hub_conn (on_conn c f h) = (hub_conn h)(c := f (hub_conn h c))"
  by (simp_all add: on_conn_def)

lemma SendToUser_slices:
  "SendToUser u msg h = (h', e) \<Longrightarrow> hub_matches h' = hub_matches h \<and> hub_array h' = hub_array h \<and> hub_next h' = hub_next h
    \<and> hub_connections h' = hub_connections h"
  by (auto simp: SendToUser_def split: option.splits prod.splits)

lemma fold_remove_user:
  "hub_ok h \<Longrightarrow> distinct order \<Longrightarrow>
   users_of (fold (\<lambda>m h. remove_user m u h) order h) m' = (if m' \<in> set order then remove1 u (users_of h m') else users_of h m') \<and>
   hub_ok (fold (\<lambda>m h. remove_user m u h) order h)"
proof (induction order arbitrary: h)
  case (Cons m order)
  note r = remove_user_spec [OF Cons.prems(1), of m u]
  from Cons.IH [of "remove_user m u h"] r Cons.prems show ?case by auto
qed simp

subsection \<open>Runs of the hub\<close>

text \<open>The states the hub reaches: connections come and go, users join and leave, messages are sent
  and written. A connection that registers is new.\<close>

inductive hub_run :: "(nat \<Rightarrow> nat) \<Rightarrow> Hub \<Rightarrow> bool" for grow where
  init: "hub_run grow NewHub"
| register: "hub_run grow h \<Longrightarrow> hub_run grow (RegisterConnection u c (on_conn c (\<lambda>_. NewConnection) h))"
| unregister: "hub_run grow h \<Longrightarrow> enumerates order (hub_matches h) \<Longrightarrow> hub_run grow (UnregisterConnection order u h)"
| join: "hub_run grow h \<Longrightarrow> hub_run grow (JoinMatch grow m u h)"
| leave: "hub_run grow h \<Longrightarrow> hub_run grow (LeaveMatch m u h)"
| send: "hub_run grow h \<Longrightarrow> SendToUser u msg h = (h', e) \<Longrightarrow> hub_run grow h'"
| pump: "hub_run grow h \<Longrightarrow> hub_run grow (on_conn c (WritePump_step ok) h)"

lemma RegisterConnection_slices:
  "hub_matches (RegisterConnection u c h) = hub_matches h" "hub_array (RegisterConnection u c h) = hub_array h"
  "hub_next (RegisterConnection u c h) = hub_next h"
  by (simp_all add: RegisterConnection_def Let_def split: option.splits)

lemma JoinMatch_spec:
  "hub_ok h \<Longrightarrow> users_of (JoinMatch grow m u h) m' =
     (if m' = m \<and> u \<notin> set (users_of h m) then users_of h m @ [u] else users_of h m') \<and> hub_ok (JoinMatch grow m u h)"
  using append_user_spec [of h u m grow m'] by (auto simp: JoinMatch_def)

lemma UnregisterConnection_spec:
  assumes "hub_ok h" "enumerates order (hub_matches h)"
  shows "users_of (UnregisterConnection order u h) m = remove1 u (users_of h m) \<and> hub_ok (UnregisterConnection order u h)"
proof -
  define h1 where "h1 = (case hub_connections h u of None \<Rightarrow> h
    | Some conn \<Rightarrow> (on_conn conn Conn_Close h)\<lparr>hub_connections := (hub_connections h)(u := None)\<rparr>)"
  have e: "hub_matches h1 = hub_matches h" "hub_array h1 = hub_array h" "hub_next h1 = hub_next h"
    by (simp_all add: h1_def split: option.splits)
  have same: "users_of h1 = users_of h" "hub_ok h1" using same_slices [OF e] assms(1) by simp_all
  have f: "UnregisterConnection order u h = fold (\<lambda>m h. remove_user m u h) order h1"
    by (simp add: UnregisterConnection_def h1_def Let_def)
  have "users_of h m = []" if "m \<notin> set order"
  proof -
    have "hub_matches h m = None" using that enumeratesD(1) [OF assms(2)] by (cases "hub_matches h m") auto
    then show ?thesis by (simp add: users_of_def)
  qed
  with fold_remove_user [OF same(2) enumeratesD(2) [OF assms(2)], of u m] same(1) show ?thesis
    unfolding f by (auto split: if_splits)
qed

lemma hub_run_ok: "hub_run grow h \<Longrightarrow> hub_ok h"
proof (induction rule: hub_run.induct)
  case init
  then show ?case by (simp add: hub_ok_def NewHub_def users_of_def)
next
  case (register h u c)
  then show ?case using same_slices [OF RegisterConnection_slices] same_slices [of "on_conn c (\<lambda>_. NewConnection) h" h] by simp
next
  case (unregister h order u)
  then show ?case using UnregisterConnection_spec by blast
next
  case (join h m u)
  then show ?case using JoinMatch_spec by blast
next
  case (leave h m u)
  then show ?case using remove_user_spec by (simp add: LeaveMatch_def)
next
  case (send h u msg h' e)
  then show ?case using SendToUser_slices [OF send.hyps(2)] same_slices [of h' h] by simp
next
  case (pump h c ok)
  then show ?case using same_slices [of "on_conn c (WritePump_step ok) h" h] by simp
qed

text \<open>One connection and the messages it accepted.\<close>

inductive conn_run :: "Connection \<Rightarrow> Message list \<Rightarrow> bool" where
  new: "conn_run NewConnection []"
| sent: "conn_run c acc \<Longrightarrow> Conn_Send msg c = (c', None) \<Longrightarrow> conn_run c' (acc @ [msg])"
| refused: "conn_run c acc \<Longrightarrow> Conn_Send msg c = (c', Some e) \<Longrightarrow> conn_run c' acc"
| closed: "conn_run c acc \<Longrightarrow> conn_run (Conn_Close c) acc"
| pumped: "conn_run c acc \<Longrightarrow> conn_run (WritePump_step ok c) acc"

lemma conn_run_inv:
  "conn_run c acc \<Longrightarrow> length (cn_sendCh c) \<le> send_capacity \<and>
     (if cn_writing c then cn_written c @ cn_sendCh c = acc else prefix (cn_written c) acc)"
proof (induction rule: conn_run.induct)
  case new
  then show ?case by (simp add: NewConnection_def)
next
  case (sent c acc msg c')
  then show ?case by (auto simp: Conn_Send_def split: if_splits)
next
  case (refused c acc msg c' e)
  then show ?case by (auto simp: Conn_Send_def split: if_splits)
next
  case (closed c acc)
  then show ?case by (auto simp: Conn_Close_def)
next
  case (pumped c acc ok)
  then show ?case by (cases "cn_sendCh c") (auto simp: WritePump_step_def split: if_splits)
qed

subsection \<open>Properties\<close>

text \<open>C11: The slices the hub shifts and extends in place implement plain member lists: in every
  reachable state joining appends a user that is not there, leaving removes the user from that
  match only, unregistering removes the user from every match, nobody is listed twice, and no
  operation on one match shows in another.\<close>

theorem hub_refines_member_lists:
  assumes "hub_run grow h" "enumerates order (hub_matches h)"
  shows "distinct (users_of h k) \<and>
    users_of (JoinMatch grow m u h) k = (if k = m \<and> u \<notin> set (users_of h m) then users_of h m @ [u] else users_of h k) \<and>
    users_of (LeaveMatch m u h) k = (if k = m then remove1 u (users_of h m) else users_of h k) \<and>
    users_of (UnregisterConnection order u h) k = remove1 u (users_of h k) \<and>
    users_of (RegisterConnection u c h) k = users_of h k"
  using hub_ok_distinct [OF hub_run_ok [OF assms(1)]] JoinMatch_spec [OF hub_run_ok [OF assms(1)]]
    remove_user_spec [OF hub_run_ok [OF assms(1)]] UnregisterConnection_spec [OF hub_run_ok [OF assms(1)] assms(2)]
    same_slices [OF RegisterConnection_slices]
  by (auto simp: LeaveMatch_def)

theorem hub_refines_member_lists_witness:
  "users_of (JoinMatch (\<lambda>n. n) 9 1 NewHub) 9 = [1]"
  using conjunct1 [OF conjunct2 [OF hub_refines_member_lists [OF hub_run.init [of "\<lambda>n. n"], of "[]" 9 9 1 0]]]
  by (simp add: NewHub_def users_of_def)

text \<open>C32: A connection never holds more than 256 waiting messages; what its write pump has written
  is always a prefix of the messages it accepted, in their order, and while the pump runs nothing
  accepted is lost: written and waiting messages together are all of them.\<close>

theorem messages_arrive_in_order:
  assumes "conn_run c acc"
  shows "length (cn_sendCh c) \<le> 256 \<and> prefix (cn_written c) acc \<and> (cn_writing c \<longrightarrow> cn_written c @ cn_sendCh c = acc)"
  using conn_run_inv [OF assms] by (auto simp: send_capacity_def split: if_splits)

definition ex_msg :: Message where
  "ex_msg = message TypeError (PError \<lparr>er_Code = ''c'', er_Message = ''m''\<rparr>)"

theorem messages_arrive_in_order_witness:
  "prefix (cn_written (WritePump_step True (fst (Conn_Send ex_msg NewConnection)))) [ex_msg]"
proof -
  have "conn_run (fst (Conn_Send ex_msg NewConnection)) ([] @ [ex_msg])"
    by (rule conn_run.sent [OF conn_run.new]) (simp add: Conn_Send_def NewConnection_def send_capacity_def)
  from messages_arrive_in_order [OF conn_run.pumped [OF this, of True]] show ?thesis by simp
qed

text \<open>A broadcast reads its copy of the slice without the lock. When the first of three members
  leaves after the first message went out, the array shifts under the broadcast: the second
  member, who is still in the match, gets nothing, and the third gets the message twice.\<close>

theorem broadcast_misses_member:
  assumes "hub_matches h m = Some (arr, 3)" "take 3 (hub_array h arr) = [a, b, c]" "distinct [a, b, c]"
    and "hub_connections h a = Some ca" "hub_connections h b = Some cb" "hub_connections h c = Some cc"
    and "distinct [ca, cb, cc]" "hub_conn h ca = NewConnection" "hub_conn h cb = NewConnection" "hub_conn h cc = NewConnection"
    and "broadcast_step msg (broadcast_start m h) h = (b1, h1)" "broadcast_step msg b1 (LeaveMatch m a h1) = (b2, h2)"
    and "broadcast_step msg b2 h2 = (b3, h3)"
  shows "users_of h3 m = [b, c] \<and> cn_sendCh (hub_conn h3 cb) = [] \<and> cn_sendCh (hub_conn h3 cc) = [msg, msg] \<and>
    bc_pos b3 = bc_len b3"
proof -
  obtain ys where xs: "hub_array h arr = a # b # c # ys"
    using append_take_drop_id [of 3 "hub_array h arr"] assms(2) by (metis append_Cons append_Nil)
  have cap: "Conn_Send msg x = (x\<lparr>cn_sendCh := cn_sendCh x @ [msg]\<rparr>, None)" if "\<not> cn_closed x" "length (cn_sendCh x) < 256" for x
    using that by (simp add: Conn_Send_def send_capacity_def)
  have h1: "h1 = on_conn ca (\<lambda>_. NewConnection\<lparr>cn_sendCh := [msg]\<rparr>) h" "b1 = \<lparr>bc_array = arr, bc_len = 3, bc_pos = 1\<rparr>"
    using assms(11) by (auto simp: broadcast_step_def broadcast_start_def assms(1) xs SendToUser_def assms(4,8) cap NewConnection_def)
  let ?l = "LeaveMatch m a h1"
  have l: "?l = h1\<lparr>hub_array := (hub_array h)(arr := b # c # c # ys), hub_matches := (hub_matches h)(m \<mapsto> (arr, 2))\<rparr>"
    using h1(1) by (simp add: LeaveMatch_def remove_user_def assms(1) users_of_def xs shift_down_def numeral_3_eq_3 numeral_2_eq_2)
  have h2: "h2 = on_conn cc (\<lambda>_. NewConnection\<lparr>cn_sendCh := [msg]\<rparr>) ?l" "b2 = \<lparr>bc_array = arr, bc_len = 3, bc_pos = 2\<rparr>"
    using assms(12) assms(7) unfolding l h1(2)
    by (auto simp: broadcast_step_def SendToUser_def h1(1) assms(6,10) cap NewConnection_def)
  have h3: "h3 = on_conn cc (\<lambda>_. NewConnection\<lparr>cn_sendCh := [msg, msg]\<rparr>) h2" "b3 = \<lparr>bc_array = arr, bc_len = 3, bc_pos = 3\<rparr>"
    using assms(13) unfolding h2 l
    by (auto simp: broadcast_step_def SendToUser_def h1(1) assms(6) cap NewConnection_def numeral_2_eq_2)
  show ?thesis using assms(7,9) unfolding h3 h2(1) l by (simp add: users_of_def h1(1) NewConnection_def numeral_2_eq_2)
qed

definition ex_hub :: Hub where
  "ex_hub = NewHub\<lparr>hub_connections := [1 \<mapsto> 11, 2 \<mapsto> 12, 3 \<mapsto> 13], hub_matches := [9 \<mapsto> (0, 3)], hub_array := (\<lambda>_. [1, 2, 3])\<rparr>"

theorem broadcast_misses_member_witness:
  "\<exists>b1 h1 b2 h2 b3 h3. broadcast_step ex_msg (broadcast_start 9 ex_hub) ex_hub = (b1, h1) \<and>
     broadcast_step ex_msg b1 (LeaveMatch 9 1 h1) = (b2, h2) \<and> broadcast_step ex_msg b2 h2 = (b3, h3) \<and>
     cn_sendCh (hub_conn h3 12) = [] \<and> cn_sendCh (hub_conn h3 13) = [ex_msg, ex_msg]"
proof -
  obtain b1 h1 where s1: "broadcast_step ex_msg (broadcast_start 9 ex_hub) ex_hub = (b1, h1)" by force
  obtain b2 h2 where s2: "broadcast_step ex_msg b1 (LeaveMatch 9 1 h1) = (b2, h2)" by force
  obtain b3 h3 where s3: "broadcast_step ex_msg b2 h2 = (b3, h3)" by force
  have "users_of h3 9 = [2, 3] \<and> cn_sendCh (hub_conn h3 12) = [] \<and> cn_sendCh (hub_conn h3 13) = [ex_msg, ex_msg] \<and> bc_pos b3 = bc_len b3"
    by (rule broadcast_misses_member [OF _ _ _ _ _ _ _ _ _ _ s1 s2 s3, of 0 2 3 11]) (simp_all add: ex_hub_def NewHub_def)
  with s1 s2 s3 show ?thesis by blast
qed

lemma remove_user_conn [simp]:
  "hub_conn (remove_user m u h) = hub_conn h" "hub_connections (remove_user m u h) = hub_connections h"
  by (simp_all add: remove_user_def split: option.splits prod.splits)

lemma fold_remove_user_conn [simp]:
  "hub_conn (fold (\<lambda>m h. remove_user m u h) order h) = hub_conn h"
  "hub_connections (fold (\<lambda>m h. remove_user m u h) order h) = hub_connections h"
  by (induction order arbitrary: h) simp_all

text \<open>A user who connects a second time replaces the first connection. When the read pump of the
  first one ends, because it was closed, its clean-up unregisters the user and closes the new
  connection: the user is left without any.\<close>

theorem reconnect_closes_new_connection:
  assumes "c1 \<noteq> c2" "h1 = RegisterConnection u c2 (RegisterConnection u c1 h)" "h2 = UnregisterConnection order u h1"
  shows "cn_closed (hub_conn h1 c1) \<and> hub_connections h1 u = Some c2 \<and>
    cn_closed (hub_conn h2 c2) \<and> GetConnection u h2 = None"
  using assms(1) unfolding assms(3,2)
  by (simp add: RegisterConnection_def UnregisterConnection_def Let_def Conn_Close_def GetConnection_def)

theorem reconnect_closes_new_connection_witness:
  "cn_closed (hub_conn (UnregisterConnection [] 5 (RegisterConnection 5 2 (RegisterConnection 5 1 NewHub))) 2)"
  using reconnect_closes_new_connection [of 1 2, OF _ refl refl] by simp

end
