(* ===== verification/Jwt.thy ===== *)
theory Jwt
  imports Domain
begin

section \<open>Access and refresh tokens (internal/auth/jwt/token.go)\<close>

text \<open>
  \<open>Manager\<close> signs claims with one secret for access tokens and one for refresh tokens. The
  JWT library is outside the repository: \<open>jl_sign\<close> is \<open>NewWithClaims(HS256, ...).SignedString\<close>,
  \<open>jl_date\<close> is \<open>NewNumericDate\<close>, \<open>jl_parse\<close> is \<open>ParseWithClaims\<close> at an instant, with the key
  function (told whether the token names an HMAC method), its result the claims and \<open>Valid\<close>.
  The locale \<open>jwt_library\<close> states what the code relies on: a signed token parses to its claims
  between its dates under the same secret, is reported as expired after them, and is invalid
  under another secret; signing with a byte key always succeeds. Readings of the clock and the text of an identifier are arguments.
\<close>

record Claims =
  cl_UserID :: uuid
  cl_Email :: string
  cl_Username :: string
  cl_UserType :: string
  cl_IsGuest :: bool
  cl_Issuer :: string
  cl_Subject :: string
  cl_ExpiresAt :: instant
  cl_IssuedAt :: instant
  cl_NotBefore :: instant

definition ErrInvalidToken :: err where "ErrInvalidToken = ''invalid token''"
definition ErrExpiredToken :: err where "ErrExpiredToken = ''token expired''"

record TokenConfig =
  tc_AccessSecret :: string
  tc_RefreshSecret :: string
  tc_AccessTTL :: duration
  tc_RefreshTTL :: duration
  tc_Issuer :: string

record TokenManager =
  tm_accessSecret :: string
  tm_refreshSecret :: string
  tm_accessTTL :: duration
  tm_refreshTTL :: duration
  tm_issuer :: string

definition NewTokenManager :: "TokenConfig \<Rightarrow> TokenManager" where
  "NewTokenManager cfg =
     \<lparr>tm_accessSecret = tc_AccessSecret cfg, tm_refreshSecret = tc_RefreshSecret cfg,
      tm_accessTTL = (if tc_AccessTTL cfg = 0 then 3600 * second else tc_AccessTTL cfg),
      tm_refreshTTL = (if tc_RefreshTTL cfg = 0 then 7 * 24 * 3600 * second else tc_RefreshTTL cfg),
      tm_issuer = (if tc_Issuer cfg = '''' then ''quiz-platform'' else tc_Issuer cfg)\<rparr>"

record JwtUser =
  ju_ID :: uuid
  ju_Email :: "string option"
  ju_Username :: string
  ju_UserType :: string
  ju_IsGuest :: bool

datatype jwt_failure = TokenExpired | TokenInvalid

record jwt_lib =
  jl_sign :: "string \<Rightarrow> Claims \<Rightarrow> string res"
  jl_date :: "instant \<Rightarrow> instant"
  jl_parse :: "instant \<Rightarrow> (bool \<Rightarrow> string res) \<Rightarrow> string \<Rightarrow> jwt_failure + Claims \<times> bool"

definition claims_for :: "jwt_lib \<Rightarrow> (uuid \<Rightarrow> string) \<Rightarrow> TokenManager \<Rightarrow> duration \<Rightarrow> instant \<Rightarrow> JwtUser \<Rightarrow> Claims" where
  "claims_for jl us m ttl now user =
     \<lparr>cl_UserID = ju_ID user, cl_Email = (case ju_Email user of None \<Rightarrow> [] | Some e \<Rightarrow> e),
      cl_Username = ju_Username user, cl_UserType = ju_UserType user, cl_IsGuest = ju_IsGuest user,
      cl_Issuer = tm_issuer m, cl_Subject = us (ju_ID user), cl_ExpiresAt = jl_date jl (now + ttl),
      cl_IssuedAt = jl_date jl now, cl_NotBefore = jl_date jl now\<rparr>"

definition GenerateAccessToken :: "jwt_lib \<Rightarrow> (uuid \<Rightarrow> string) \<Rightarrow> TokenManager \<Rightarrow> instant \<Rightarrow> JwtUser \<Rightarrow> string res" where
  "GenerateAccessToken jl us m now user = jl_sign jl (tm_accessSecret m) (claims_for jl us m (tm_accessTTL m) now user)"

definition GenerateRefreshToken :: "jwt_lib \<Rightarrow> (uuid \<Rightarrow> string) \<Rightarrow> TokenManager \<Rightarrow> instant \<Rightarrow> JwtUser \<Rightarrow> string res" where
  "GenerateRefreshToken jl us m now user = jl_sign jl (tm_refreshSecret m) (claims_for jl us m (tm_refreshTTL m) now user)"

definition validateToken :: "jwt_lib \<Rightarrow> instant \<Rightarrow> string \<Rightarrow> string \<Rightarrow> Claims res" where
  "validateToken jl now tokenString secret =
     (case jl_parse jl now (\<lambda>hmac. if hmac then Inr secret else Inl ErrInvalidToken) tokenString of
        Inl TokenExpired \<Rightarrow> Inl ErrExpiredToken
      | Inl TokenInvalid \<Rightarrow> Inl ErrInvalidToken
      | Inr (claims, valid) \<Rightarrow> if valid then Inr claims else Inl ErrInvalidToken)"

definition ValidateAccessToken :: "jwt_lib \<Rightarrow> TokenManager \<Rightarrow> instant \<Rightarrow> string \<Rightarrow> Claims res" where
  "ValidateAccessToken jl m now tokenString = validateToken jl now tokenString (tm_accessSecret m)"

definition ValidateRefreshToken :: "jwt_lib \<Rightarrow> TokenManager \<Rightarrow> instant \<Rightarrow> string \<Rightarrow> Claims res" where
  "ValidateRefreshToken jl m now tokenString = validateToken jl now tokenString (tm_refreshSecret m)"

locale jwt_library =
  fixes jl :: jwt_lib
  assumes parse_signed: "jl_sign jl sec c = Inr tok \<Longrightarrow> key True = Inr sec \<Longrightarrow> cl_NotBefore c \<le> now \<Longrightarrow> now < cl_ExpiresAt c \<Longrightarrow>
      jl_parse jl now key tok = Inr (c, True)"
    and parse_expired: "jl_sign jl sec c = Inr tok \<Longrightarrow> key True = Inr sec \<Longrightarrow> cl_ExpiresAt c \<le> now \<Longrightarrow>
      jl_parse jl now key tok = Inl TokenExpired"
    and parse_other: "jl_sign jl sec c = Inr tok \<Longrightarrow> key True = Inr sec' \<Longrightarrow> sec' \<noteq> sec \<Longrightarrow> jl_parse jl now key tok = Inl TokenInvalid"
    and sign_ok: "\<exists>tok. jl_sign jl sec c = Inr tok"
    and date_trunc: "jl_date jl t \<le> t" "t < jl_date jl t + second"
begin

lemma validate_own:
  assumes "jl_sign jl sec (claims_for jl us m ttl t user) = Inr tok" "t \<le> now"
  shows "now + second \<le> t + ttl \<Longrightarrow> validateToken jl now tok sec = Inr (claims_for jl us m ttl t user)"
    and "t + ttl \<le> now \<Longrightarrow> validateToken jl now tok sec = Inl ErrExpiredToken"
    and "sec' \<noteq> sec \<Longrightarrow> validateToken jl now tok sec' = Inl ErrInvalidToken"
  using parse_signed [OF assms(1), of "\<lambda>hmac. if hmac then Inr sec else Inl ErrInvalidToken" now]
    parse_expired [OF assms(1), of "\<lambda>hmac. if hmac then Inr sec else Inl ErrInvalidToken" now]
    parse_other [OF assms(1), of "\<lambda>hmac. if hmac then Inr sec' else Inl ErrInvalidToken" sec' now]
    date_trunc [of t] date_trunc [of "t + ttl"] assms(2)
  by (simp_all add: validateToken_def claims_for_def)

end

subsection \<open>A library that keeps the laws\<close>

text \<open>Tokens that write the secret and the claims out, each part behind its length. \<open>inv\<close> reads
  them back; only the laws are used of it.\<close>

definition part :: "string \<Rightarrow> string" where
  "part s = show_nat (length s) @ CHR '':'' # s"

lemma part_inject: "part s @ x = part t @ y \<longleftrightarrow> s = t \<and> x = y"
proof
  assume "part s @ x = part t @ y"
  then have e: "show_nat (length s) @ CHR '':'' # (s @ x) = show_nat (length t) @ CHR '':'' # (t @ y)" by (simp add: part_def)
  from join_prefix_free [OF colon_notin_show_nat colon_notin_show_nat e] show "s = t \<and> x = y" by auto
qed simp

definition ex_token :: "string \<times> Claims \<Rightarrow> string" where
  "ex_token p = (case p of (sec, c) \<Rightarrow>
     part sec @ part (show_nat (unat (cl_UserID c))) @ part (cl_Email c) @ part (cl_Username c) @ part (cl_UserType c) @
     part (if cl_IsGuest c then ''1'' else ''0'') @ part (cl_Issuer c) @ part (cl_Subject c) @ part (show_int (cl_ExpiresAt c)) @
     part (show_int (cl_IssuedAt c)) @ part (show_int (cl_NotBefore c)) @ [])"

lemma show_int_inject: "show_int i = show_int j \<longleftrightarrow> i = j"
proof
  assume e: "show_int i = show_int j"
  have neg: "show_nat n \<noteq> CHR ''-'' # xs" for n xs using show_nat_hd_digit [of n] by auto
  show "i = j"
    using e neg neg [symmetric] by (auto simp: show_int_def split: if_splits)
qed simp

lemma ex_token_inj: "inj ex_token"
proof (rule injI)
  fix p q assume e: "ex_token p = ex_token q"
  obtain s c t d where pq: "p = (s, c)" "q = (t, d)" by (cases p; cases q)
  show "p = q"
    using e unfolding pq ex_token_def prod.case part_inject show_nat_inject show_int_inject
    by (cases c; cases d) (auto simp: word_unat_eq_iff split: if_splits)
qed

definition ex_jwt :: jwt_lib where
  "ex_jwt = \<lparr>jl_sign = (\<lambda>sec c. Inr (ex_token (sec, c))), jl_date = (\<lambda>t. t div second * second),
     jl_parse = (\<lambda>now key tok. let (sec, c) = inv ex_token tok in
        if key True \<noteq> Inr sec then Inl TokenInvalid
        else if cl_ExpiresAt c \<le> now then Inl TokenExpired
        else if now < cl_NotBefore c then Inl TokenInvalid else Inr (c, True))\<rparr>"

interpretation ex_jwt_lib: jwt_library ex_jwt
proof
  fix sec c tok key now sec' t
  assume s: "jl_sign ex_jwt sec c = Inr tok"
  then have i: "inv ex_token tok = (sec, c)" using inv_f_f [OF ex_token_inj] by (auto simp: ex_jwt_def)
  show "key True = Inr sec \<Longrightarrow> cl_NotBefore c \<le> now \<Longrightarrow> now < cl_ExpiresAt c \<Longrightarrow> jl_parse ex_jwt now key tok = Inr (c, True)"
    using i by (simp add: ex_jwt_def)
  show "key True = Inr sec \<Longrightarrow> cl_ExpiresAt c \<le> now \<Longrightarrow> jl_parse ex_jwt now key tok = Inl TokenExpired"
    using i by (simp add: ex_jwt_def)
  show "key True = Inr sec' \<Longrightarrow> sec' \<noteq> sec \<Longrightarrow> jl_parse ex_jwt now key tok = Inl TokenInvalid"
    using i by (simp add: ex_jwt_def)
next
  fix t :: instant
  show "\<exists>tok. jl_sign ex_jwt sec c = Inr tok" for sec c by (simp add: ex_jwt_def)
  show "jl_date ex_jwt t \<le> t" by (simp add: ex_jwt_def)
  show "t < jl_date ex_jwt t + second" using minus_div_mult_eq_mod [of t second] by (simp add: ex_jwt_def)
qed

subsection \<open>Properties\<close>

text \<open>C21: A token the manager issued is accepted as its own kind from its creation until a second before its
  time to live is over (the library cuts dates to seconds) and is reported as expired from then on. The claims it yields
  are the user's: identifier, e-mail address (empty when there is none), name, type and guest flag
  as they were given, the manager's issuer, the text of the identifier as subject, and dates within
  a second of the creation and of the end of the time to live. When the two secrets differ, an
  access token is never accepted as a refresh token, nor a refresh token as an access token. All this holds for access
  and for refresh tokens.\<close>

theorem issued_tokens_validate:
  assumes "jwt_library jl" "GenerateAccessToken jl us m t user = Inr acc" "GenerateRefreshToken jl us m t user = Inr ref"
    and "t \<le> now" "tm_accessSecret m \<noteq> tm_refreshSecret m"
  shows "(now + second \<le> t + tm_accessTTL m \<longrightarrow> (\<exists>c. ValidateAccessToken jl m now acc = Inr c \<and>
      cl_UserID c = ju_ID user \<and> cl_Email c = (case ju_Email user of None \<Rightarrow> [] | Some e \<Rightarrow> e) \<and> cl_Username c = ju_Username user \<and>
      cl_UserType c = ju_UserType user \<and> cl_IsGuest c = ju_IsGuest user \<and> cl_Issuer c = tm_issuer m \<and> cl_Subject c = us (ju_ID user) \<and>
      cl_IssuedAt c \<le> t \<and> t < cl_IssuedAt c + second \<and> cl_NotBefore c = cl_IssuedAt c \<and>
      cl_ExpiresAt c \<le> t + tm_accessTTL m \<and> t + tm_accessTTL m < cl_ExpiresAt c + second)) \<and>
    (now + second \<le> t + tm_refreshTTL m \<longrightarrow> (\<exists>c. ValidateRefreshToken jl m now ref = Inr c \<and>
      cl_UserID c = ju_ID user \<and> cl_Email c = (case ju_Email user of None \<Rightarrow> [] | Some e \<Rightarrow> e) \<and> cl_Username c = ju_Username user \<and>
      cl_UserType c = ju_UserType user \<and> cl_IsGuest c = ju_IsGuest user \<and> cl_Issuer c = tm_issuer m \<and> cl_Subject c = us (ju_ID user) \<and>
      cl_IssuedAt c \<le> t \<and> t < cl_IssuedAt c + second \<and> cl_NotBefore c = cl_IssuedAt c \<and>
      cl_ExpiresAt c \<le> t + tm_refreshTTL m \<and> t + tm_refreshTTL m < cl_ExpiresAt c + second)) \<and>
    (t + tm_accessTTL m \<le> now \<longrightarrow> ValidateAccessToken jl m now acc = Inl ErrExpiredToken) \<and>
    (t + tm_refreshTTL m \<le> now \<longrightarrow> ValidateRefreshToken jl m now ref = Inl ErrExpiredToken) \<and>
    ValidateRefreshToken jl m now acc = Inl ErrInvalidToken \<and> ValidateAccessToken jl m now ref = Inl ErrInvalidToken"
  using jwt_library.validate_own [OF assms(1) assms(2) [unfolded GenerateAccessToken_def] assms(4)]
    jwt_library.validate_own [OF assms(1) assms(3) [unfolded GenerateRefreshToken_def] assms(4)] assms(5)
    jwt_library.date_trunc [OF assms(1)]
  by (simp add: ValidateAccessToken_def ValidateRefreshToken_def claims_for_def)

theorem issued_tokens_validate_witness:
  "\<exists>acc ref c. GenerateAccessToken ex_jwt (\<lambda>u. []) (NewTokenManager \<lparr>tc_AccessSecret = ''a'', tc_RefreshSecret = ''r'',
       tc_AccessTTL = 0, tc_RefreshTTL = 0, tc_Issuer = []\<rparr>) 0 \<lparr>ju_ID = 1, ju_Email = None, ju_Username = ''u'',
       ju_UserType = ''guest'', ju_IsGuest = True\<rparr> = Inr acc \<and>
     ValidateAccessToken ex_jwt (NewTokenManager \<lparr>tc_AccessSecret = ''a'', tc_RefreshSecret = ''r'',
       tc_AccessTTL = 0, tc_RefreshTTL = 0, tc_Issuer = []\<rparr>) (3600 * second) acc = Inl ErrExpiredToken \<and>
     ValidateRefreshToken ex_jwt (NewTokenManager \<lparr>tc_AccessSecret = ''a'', tc_RefreshSecret = ''r'',
       tc_AccessTTL = 0, tc_RefreshTTL = 0, tc_Issuer = []\<rparr>) (3600 * second) ref = Inr c \<and>
     cl_Username c = ''u'' \<and> cl_UserType c = ''guest'' \<and> cl_IsGuest c"
proof -
  let ?m = "NewTokenManager \<lparr>tc_AccessSecret = ''a'', tc_RefreshSecret = ''r'', tc_AccessTTL = 0, tc_RefreshTTL = 0, tc_Issuer = []\<rparr>"
  let ?u = "\<lparr>ju_ID = 1, ju_Email = None, ju_Username = ''u'', ju_UserType = ''guest'', ju_IsGuest = True\<rparr>"
  have m: "tm_accessTTL ?m = 3600 * second" "tm_refreshTTL ?m = 7 * 24 * 3600 * second" "tm_accessSecret ?m \<noteq> tm_refreshSecret ?m"
    by (simp_all add: NewTokenManager_def)
  obtain acc where a: "GenerateAccessToken ex_jwt (\<lambda>u. []) ?m 0 ?u = Inr acc" by (simp add: GenerateAccessToken_def ex_jwt_def)
  obtain ref where r: "GenerateRefreshToken ex_jwt (\<lambda>u. []) ?m 0 ?u = Inr ref" by (simp add: GenerateRefreshToken_def ex_jwt_def)
  have now: "(0::int) \<le> 3600 * second" "3600 * second + second \<le> 0 + 7 * 24 * 3600 * second" by simp_all
  from issued_tokens_validate [OF ex_jwt_lib.jwt_library_axioms a r now(1) m(3)] a now(2) m(1,2) show ?thesis by auto
qed

end
