(* ===== verification/MatchHandler.thy ===== *)
theory MatchHandler
  imports MatchRuns Hub Jwt HttpErrors
begin

section \<open>The match handlers (internal/match/handler.go, http.go, ws_handler.go)\<close>

text \<open>
  \<open>Handler\<close> dispatches the messages of a WebSocket connection to the queue, the rooms and the
  match service and answers through the hub; \<open>HTTPHandlers\<close> creates and shows rooms. The state
  they share is a record: the world of the match service, the queue, the rooms and the hub. Code
  outside the repository is a field of the handler: \<open>mh_parse\<close> is \<open>uuid.Parse\<close>, \<open>mh_rfc3339\<close>
  formats an instant, \<open>mh_order\<close> draws the order of one iteration over the queue, \<open>mh_grow\<close> is the
  capacity \<open>append\<close> chooses, \<open>mh_rnd\<close> draws the random numbers of a room code. A handler runs
  without another one in between; the components prove what holds under interleaving.

  The lemmas: every run of the platform projects to runs of the queue, the rooms, the hub and the
  match service; both players of a pair get the match and its questions; a failed creation
  loses the opponent's ticket, or blocks the room for good.
\<close>

record ('r, 'e, 'x) HState =
  hs_world :: "('r, 'e, 'x) world"
  hs_queue :: QueueManager
  hs_rooms :: room_map
  hs_hub :: Hub

record ('r, 'e, 'x) Handler =
  mh_service :: "('r, 'e, 'x) MService"
  mh_parse :: "string \<Rightarrow> uuid res"
  mh_rfc3339 :: "instant \<Rightarrow> string"
  mh_order :: "'x \<Rightarrow> 'x \<times> ((uuid \<rightharpoonup> WaitingPlayer) \<Rightarrow> uuid list)"
  mh_grow :: "nat \<Rightarrow> nat"
  mh_rnd :: "'x \<Rightarrow> 'x \<times> (nat \<Rightarrow> nat)"

definition on_hub :: "(Hub \<Rightarrow> Hub \<times> 'a) \<Rightarrow> ('r, 'e, 'x) HState \<Rightarrow> ('r, 'e, 'x) HState \<times> 'a" where
  "on_hub f st = (let (h, x) = f (hs_hub st) in (st\<lparr>hs_hub := h\<rparr>, x))"

definition on_clock :: "('x \<Rightarrow> 'x \<times> 'a) \<Rightarrow> ('r, 'e, 'x) HState \<Rightarrow> ('r, 'e, 'x) HState \<times> 'a" where
  "on_clock f st = (let (w, x) = on_ext f (hs_world st) in (st\<lparr>hs_world := w\<rparr>, x))"

subsection \<open>Payloads of the client\<close>

definition decode_JoinQueue :: "json option \<Rightarrow> JoinQueuePayload option" where
  "decode_JoinQueue payload =
     Option.bind (Option.bind payload object_fields) (\<lambda>kvs.
     Option.bind (string_field ''queue_token'' kvs) (\<lambda>token.
     Option.bind (int_field ''question_count'' kvs) (\<lambda>n.
     map_option (\<lambda>category. \<lparr>jq_QueueToken = token, jq_QuestionCount = n, jq_Category = category\<rparr>)
       (string_field ''category'' kvs))))"

definition decode_CancelQueue :: "json option \<Rightarrow> CancelQueuePayload option" where
  "decode_CancelQueue payload = Option.bind (Option.bind payload object_fields)
     (\<lambda>kvs. map_option (\<lambda>t. \<lparr>cq_QueueToken = t\<rparr>) (string_field ''queue_token'' kvs))"

definition decode_JoinPrivate :: "json option \<Rightarrow> JoinPrivatePayload option" where
  "decode_JoinPrivate payload = Option.bind (Option.bind payload object_fields)
     (\<lambda>kvs. map_option (\<lambda>c. \<lparr>jp_RoomCode = c\<rparr>) (string_field ''room_code'' kvs))"

definition decode_SubmitAnswer :: "json option \<Rightarrow> SubmitAnswerPayload option" where
  "decode_SubmitAnswer payload =
     Option.bind (Option.bind payload object_fields) (\<lambda>kvs.
     Option.bind (string_field ''match_id'' kvs) (\<lambda>m.
     Option.bind (string_field ''question_token'' kvs) (\<lambda>t.
     Option.bind (string_field ''answer'' kvs) (\<lambda>a.
     map_option (\<lambda>l. \<lparr>sb_MatchID = m, sb_QuestionToken = t, sb_Answer = a, sb_ClientLatencyMs = l\<rparr>)
       (int_field ''client_latency_ms'' kvs)))))"

definition decode_LeaveMatch :: "json option \<Rightarrow> LeaveMatchPayload option" where
  "decode_LeaveMatch payload =
     Option.bind (Option.bind payload object_fields) (\<lambda>kvs.
     Option.bind (string_field ''match_id'' kvs) (\<lambda>m.
     map_option (\<lambda>r. \<lparr>lm_MatchID = m, lm_Reason = r\<rparr>) (string_field ''reason'' kvs)))"

definition decode_RequestProgress :: "json option \<Rightarrow> RequestProgressPayload option" where
  "decode_RequestProgress payload = Option.bind (Option.bind payload object_fields)
     (\<lambda>kvs. map_option (\<lambda>m. \<lparr>rq_MatchID = m\<rparr>) (string_field ''match_id'' kvs))"

subsection \<open>Messages to the client\<close>

definition send_user :: "uuid \<Rightarrow> Message \<Rightarrow> ('r, 'e, 'x) HState \<Rightarrow> ('r, 'e, 'x) HState \<times> err option" where
  "send_user userID msg st = on_hub (SendToUser userID msg) st"

definition sendError :: "uuid \<Rightarrow> string \<Rightarrow> string \<Rightarrow> ('r, 'e, 'x) HState \<Rightarrow> ('r, 'e, 'x) HState \<times> err option" where
  "sendError userID code m st = send_user userID (message TypeError (PError \<lparr>er_Code = code, er_Message = m\<rparr>)) st"

definition question_payload :: "QuestionPackItem \<Rightarrow> QuestionPayload" where
  "question_payload q =
     \<lparr>qy_Order = qp_Order q, qy_ID = qp_ID q, qy_Prompt = qp_Prompt q, qy_Options = qp_Options q, qy_Token = qp_Token q\<rparr>"

definition question_batch :: "('r, 'e, 'x) Handler \<Rightarrow> uuid \<Rightarrow> QuestionPackItem list \<Rightarrow> instant \<Rightarrow> Message" where
  "question_batch h matchID questions now = message TypeQuestionBatch (PQuestionBatch
     \<lparr>qb_MatchID = ms_us (mh_service h) matchID, qb_Batch = map question_payload questions, qb_Seed = [],
      qb_IssuedAt = mh_rfc3339 h now\<rparr>)"

definition sendQuestions ::
  "('r, 'e, 'x) Handler \<Rightarrow> uuid \<Rightarrow> QuestionPackItem list \<Rightarrow> ('r, 'e, 'x) HState \<Rightarrow> ('r, 'e, 'x) HState" where
  "sendQuestions h matchID questions st =
     (let (st, now) = on_clock (ms_now (mh_service h)) st
      in fst (on_hub (BroadcastToMatch matchID (question_batch h matchID questions now)) st))"

definition join_match :: "('r, 'e, 'x) Handler \<Rightarrow> uuid \<Rightarrow> uuid \<Rightarrow> ('r, 'e, 'x) HState \<Rightarrow> ('r, 'e, 'x) HState" where
  "join_match h matchID userID st = st\<lparr>hs_hub := JoinMatch (mh_grow h) matchID userID (hs_hub st)\<rparr>"

subsection \<open>The queue\<close>

definition question_count :: "int \<Rightarrow> int" where
  "question_count n =
     (let n = (if n = 0 then 10 else n) in if n \<noteq> 5 \<and> n \<noteq> 10 \<and> n \<noteq> 15 then 10 else n)"

definition match_found :: "('r, 'e, 'x) Handler \<Rightarrow> Match \<Rightarrow> MatchPair \<Rightarrow> Message" where
  "match_found h m pair = (let us = ms_us (mh_service h) in message TypeMatchFound (PMatchFound
     \<lparr>mf_MatchID = us (m_ID m), mf_Mode = m_Mode m,
      mf_Players = [\<lparr>pl_UserID = us (wp_UserID (Player1 pair)), pl_Username = wp_Username (Player1 pair)\<rparr>,
                    \<lparr>pl_UserID = us (wp_UserID (Player2 pair)), pl_Username = wp_Username (Player2 pair)\<rparr>],
      mf_QuestionCount = m_QuestionCount m, mf_PerQuestionSeconds = m_PerQuestionSeconds m,
      mf_GlobalTimeoutSeconds = m_GlobalTimeoutSeconds m\<rparr>))"

text \<open>The branch for a pair that was found at once.\<close>

definition start_match ::
  "('r, 'e, 'x) Handler \<Rightarrow> uuid \<Rightarrow> MatchPair \<Rightarrow> int \<Rightarrow> string \<Rightarrow> ('r, 'e, 'x) HState \<Rightarrow> ('r, 'e, 'x) HState \<times> err option" where
  "start_match h userID pair questionCount category st =
     (case CreateRandomMatch (mh_service h) pair questionCount 15 category (hs_world st) of
        (w, Inl e) \<Rightarrow> sendError userID ErrCodeMatchCreationFailed e (st\<lparr>hs_world := w\<rparr>)
      | (w, Inr (m, questions)) \<Rightarrow>
          let st = st\<lparr>hs_world := w\<rparr>;
              p1 = wp_UserID (Player1 pair); p2 = wp_UserID (Player2 pair);
              st = join_match h (m_ID m) userID st;
              st = (if p1 \<noteq> userID then join_match h (m_ID m) p1 st else st);
              st = (if p2 \<noteq> userID then join_match h (m_ID m) p2 st else st);
              st = fst (on_hub (BroadcastToMatch (m_ID m) (match_found h m pair)) st)
          in (sendQuestions h (m_ID m) questions st, None))"

definition queue_update :: "('r, 'e, 'x) Handler \<Rightarrow> uuid \<Rightarrow> int \<Rightarrow> Message" where
  "queue_update h queueToken position = message TypeQueueUpdate (PQueueUpdate
     \<lparr>qu_QueueToken = ms_us (mh_service h) queueToken, qu_Status = ''waiting'', qu_Position = position, qu_WaitSeconds = 0\<rparr>)"

definition handleJoinQueue ::
  "('r, 'e, 'x) Handler \<Rightarrow> uuid \<Rightarrow> string \<Rightarrow> bool \<Rightarrow> json option \<Rightarrow> ('r, 'e, 'x) HState \<Rightarrow> ('r, 'e, 'x) HState \<times> err option" where
  "handleJoinQueue h userID username isGuest payload st =
     (case decode_JoinQueue payload of
        None \<Rightarrow> sendError userID ErrCodeInvalidPayload ''Invalid join_queue payload'' st
      | Some req \<Rightarrow>
          let category = normalizeCategory (jq_Category req);
              (st, token) = on_clock (ms_uuid (mh_service h)) st;
              (st, now) = on_clock (ms_now (mh_service h)) st;
              (st, order) = on_clock (mh_order h) st
          in case Enqueue (hs_queue st) (order (waiting (hs_queue st))) token now
                    \<lparr>mr_UserID = userID, mr_Username = username, mr_IsGuest = isGuest, mr_PreferredCategory = category,
                     mr_PreferredDifficulty = [], mr_BotOK = True\<rparr> of
               (q, queueToken, pair, Some e) \<Rightarrow> sendError userID ErrCodeEnqueueFailed e (st\<lparr>hs_queue := q\<rparr>)
             | (q, queueToken, Some pair, None) \<Rightarrow>
                 start_match h userID pair (question_count (jq_QuestionCount req)) category (st\<lparr>hs_queue := q\<rparr>)
             | (q, queueToken, None, None) \<Rightarrow>
                 let (st, order) = on_clock (mh_order h) (st\<lparr>hs_queue := q\<rparr>)
                 in send_user userID (queue_update h queueToken (GetPosition q (order (waiting q)) queueToken)) st)"

definition handleCancelQueue ::
  "('r, 'e, 'x) Handler \<Rightarrow> uuid \<Rightarrow> json option \<Rightarrow> ('r, 'e, 'x) HState \<Rightarrow> ('r, 'e, 'x) HState \<times> err option" where
  "handleCancelQueue h userID payload st =
     (case decode_CancelQueue payload of
        None \<Rightarrow> sendError userID ErrCodeInvalidPayload ''Invalid cancel_queue payload'' st
      | Some req \<Rightarrow>
          (case mh_parse h (cq_QueueToken req) of
             Inl e \<Rightarrow> sendError userID ErrCodeInvalidQueueToken ''Invalid queue token'' st
           | Inr queueToken \<Rightarrow> (let (q, e) = Dequeue (hs_queue st) queueToken in (st\<lparr>hs_queue := q\<rparr>, e))))"

definition handleAcceptBotFill :: "uuid \<Rightarrow> ('r, 'e, 'x) HState \<Rightarrow> ('r, 'e, 'x) HState \<times> err option" where
  "handleAcceptBotFill userID st = sendError userID ErrCodeFeatureNotAvailable ''Bot fill feature is not yet available'' st"

definition handleReadyState :: "uuid \<Rightarrow> ('r, 'e, 'x) HState \<Rightarrow> ('r, 'e, 'x) HState \<times> err option" where
  "handleReadyState userID st = sendError userID ErrCodeFeatureNotAvailable ''Ready state feature is not yet available'' st"

subsection \<open>Private rooms\<close>

text \<open>The zero \<open>time.Time\<close>, 1 January of the year 1.\<close>

definition time_zero :: instant where "time_zero = - 62135596800 * second"

definition room_update :: "('r, 'e, 'x) Handler \<Rightarrow> PrivateRoom \<Rightarrow> Message" where
  "room_update h room = (let us = ms_us (mh_service h) in message TypePrivateRoomUpdate (PPrivateRoomUpdate
     \<lparr>pu_MatchID = (case pm_MatchID room of None \<Rightarrow> [] | Some m \<Rightarrow> us m), pu_RoomCode = pm_RoomCode room,
      pu_Players = map (\<lambda>p. \<lparr>pl_UserID = us (rp_UserID p), pl_Username = rp_Username p\<rparr>) (pm_Players room),
      pu_SlotsRemaining = pm_MaxPlayers room - int (length (pm_Players room))\<rparr>))"

text \<open>The room a pointer leads to after \<open>StartRoom\<close> is the room that \<open>StartRoom\<close> returns.\<close>

definition start_room_match ::
  "('r, 'e, 'x) Handler \<Rightarrow> uuid \<Rightarrow> string \<Rightarrow> PrivateRoom \<Rightarrow> ('r, 'e, 'x) HState \<Rightarrow> ('r, 'e, 'x) HState \<times> err option" where
  "start_room_match h userID roomCode room st =
     (case CreatePrivateMatch (mh_service h) roomCode (map (\<lambda>p. p\<lparr>rp_JoinedAt := time_zero\<rparr>) (pm_Players room))
             (pm_QuestionCount room) (pm_PerQuestionSeconds room) (pm_Category room) (hs_world st) of
        (w, Inl e) \<Rightarrow> sendError userID ErrCodeMatchCreationFailed e (st\<lparr>hs_world := w\<rparr>)
      | (w, Inr (m, questions)) \<Rightarrow>
          (case StartRoom (hs_rooms st) roomCode (m_ID m) (pm_StartCountdown room) of
             (rooms, Inl e) \<Rightarrow> sendError userID ErrCodeRoomStartFailed e (st\<lparr>hs_world := w, hs_rooms := rooms\<rparr>)
           | (rooms, Inr room) \<Rightarrow>
               let st = st\<lparr>hs_world := w, hs_rooms := rooms\<rparr>;
                   st = fold (\<lambda>p. join_match h (m_ID m) (rp_UserID p)) (pm_Players room) st;
                   st = sendQuestions h (m_ID m) questions st
               in send_user userID (room_update h room) st))"

definition handleJoinPrivate ::
  "('r, 'e, 'x) Handler \<Rightarrow> uuid \<Rightarrow> string \<Rightarrow> bool \<Rightarrow> json option \<Rightarrow> ('r, 'e, 'x) HState \<Rightarrow> ('r, 'e, 'x) HState \<times> err option" where
  "handleJoinPrivate h userID username isGuest payload st =
     (case decode_JoinPrivate payload of
        None \<Rightarrow> sendError userID ErrCodeInvalidPayload ''Invalid join_private payload'' st
      | Some req \<Rightarrow>
          let (st', now) = on_clock (ms_now (mh_service h)) st
          in case JoinRoom (hs_rooms st) now (jp_RoomCode req) userID username isGuest of
               (rooms, Inl e) \<Rightarrow> sendError userID ErrCodeJoinFailed e st
             | (rooms, Inr room) \<Rightarrow>
                 let st = st'\<lparr>hs_rooms := rooms\<rparr>
                 in if length (pm_Players room) = 2 \<and> userID \<noteq> pm_HostID room \<and> pm_MatchID room = None
                    then start_room_match h userID (jp_RoomCode req) room st
                    else send_user userID (room_update h room) st)"

subsection \<open>Answers, leaving and progress\<close>

definition answer_ack :: "('r, 'e, 'x) Handler \<Rightarrow> string \<Rightarrow> instant \<Rightarrow> Message" where
  "answer_ack h matchID submittedAt = message TypeAnswerAck (PAnswerAck
     \<lparr>aa_MatchID = matchID, aa_QuestionOrder = 0, aa_Accepted = True, aa_ServerReceivedAt = mh_rfc3339 h submittedAt\<rparr>)"

definition handleSubmitAnswer ::
  "('r, 'e, 'x) Handler \<Rightarrow> uuid \<Rightarrow> json option \<Rightarrow> ('r, 'e, 'x) HState \<Rightarrow> ('r, 'e, 'x) HState \<times> err option" where
  "handleSubmitAnswer h userID payload st =
     (case decode_SubmitAnswer payload of
        None \<Rightarrow> sendError userID ErrCodeInvalidPayload ''Invalid submit_answer payload'' st
      | Some req \<Rightarrow>
          (case mh_parse h (sb_MatchID req) of
             Inl e \<Rightarrow> sendError userID ErrCodeInvalidMatchID ''Invalid match ID'' st
           | Inr matchID \<Rightarrow>
               let (st, submittedAt) = on_clock (ms_now (mh_service h)) st
               in case SubmitAnswer (mh_service h) matchID userID (sb_QuestionToken req) (sb_Answer req) submittedAt (hs_world st) of
                    (w, Inl e) \<Rightarrow> sendError userID ErrCodeSubmitFailed e (st\<lparr>hs_world := w\<rparr>)
                  | (w, Inr _) \<Rightarrow> send_user userID (answer_ack h (sb_MatchID req) submittedAt) (st\<lparr>hs_world := w\<rparr>)))"

definition handleLeaveMatch ::
  "('r, 'e, 'x) Handler \<Rightarrow> uuid \<Rightarrow> json option \<Rightarrow> ('r, 'e, 'x) HState \<Rightarrow> ('r, 'e, 'x) HState \<times> err option" where
  "handleLeaveMatch h userID payload st =
     (case decode_LeaveMatch payload of
        None \<Rightarrow> sendError userID ErrCodeInvalidPayload ''Invalid leave_match payload'' st
      | Some req \<Rightarrow>
          (case mh_parse h (lm_MatchID req) of
             Inl e \<Rightarrow> sendError userID ErrCodeInvalidMatchID ''Invalid match ID'' st
           | Inr matchID \<Rightarrow> (st\<lparr>hs_hub := LeaveMatch matchID userID (hs_hub st)\<rparr>, None)))"

definition handleRequestProgress :: "uuid \<Rightarrow> json option \<Rightarrow> ('r, 'e, 'x) HState \<Rightarrow> ('r, 'e, 'x) HState \<times> err option" where
  "handleRequestProgress userID payload st =
     (case decode_RequestProgress payload of
        None \<Rightarrow> sendError userID ErrCodeInvalidPayload ''Invalid request_progress payload'' st
      | Some _ \<Rightarrow> (st, None))"

definition handleMessage ::
  "('r, 'e, 'x) Handler \<Rightarrow> uuid \<Rightarrow> string \<Rightarrow> bool \<Rightarrow> ClientMessage \<Rightarrow> ('r, 'e, 'x) HState \<Rightarrow> ('r, 'e, 'x) HState \<times> err option" where
  "handleMessage h userID username isGuest msg st =
     (let t = cm_Type msg; payload = cm_Payload msg in
      if t = TypeJoinQueue then handleJoinQueue h userID username isGuest payload st
      else if t = TypeCancelQueue then handleCancelQueue h userID payload st
      else if t = TypeAcceptBotFill then handleAcceptBotFill userID st
      else if t = TypeJoinPrivate then handleJoinPrivate h userID username isGuest payload st
      else if t = TypeReadyState then handleReadyState userID st
      else if t = TypeSubmitAnswer then handleSubmitAnswer h userID payload st
      else if t = TypeLeaveMatch then handleLeaveMatch h userID payload st
      else if t = TypeRequestProgress then handleRequestProgress userID payload st
      else sendError userID ErrCodeUnknownMessageType (''Unknown message type: '' @ t) st)"

text \<open>A connection from its registration on, over the messages it receives until it breaks; \<open>order\<close>
  is the iteration over the matches when it is unregistered.\<close>

definition open_connection :: "uuid \<Rightarrow> nat \<Rightarrow> ('r, 'e, 'x) HState \<Rightarrow> ('r, 'e, 'x) HState" where
  "open_connection userID conn st =
     st\<lparr>hs_hub := RegisterConnection userID conn (on_conn conn (\<lambda>_. NewConnection) (hs_hub st))\<rparr>"

definition close_connection :: "(Hub \<Rightarrow> uuid list) \<Rightarrow> uuid \<Rightarrow> ('r, 'e, 'x) HState \<Rightarrow> ('r, 'e, 'x) HState" where
  "close_connection order userID st = st\<lparr>hs_hub := UnregisterConnection (order (hs_hub st)) userID (hs_hub st)\<rparr>"

definition HandleConnection ::
  "('r, 'e, 'x) Handler \<Rightarrow> (Hub \<Rightarrow> uuid list) \<Rightarrow> nat \<Rightarrow> uuid \<Rightarrow> string \<Rightarrow> bool \<Rightarrow> ClientMessage list \<Rightarrow>
   ('r, 'e, 'x) HState \<Rightarrow> ('r, 'e, 'x) HState" where
  "HandleConnection h order conn userID username isGuest msgs st =
     close_connection order userID
       (fold (\<lambda>msg st. fst (handleMessage h userID username isGuest msg st)) msgs (open_connection userID conn st))"

text \<open>\<open>HandleWebSocket\<close>: an error response, or the connection; \<open>upgrade\<close> is the outcome of the
  protocol upgrade, whose failure the library answers itself.\<close>

definition HandleWebSocket ::
  "('r, 'e, 'x) Handler \<Rightarrow> (string \<Rightarrow> Claims res) \<Rightarrow> bool \<Rightarrow> string \<Rightarrow> (Hub \<Rightarrow> uuid list) \<Rightarrow> nat \<Rightarrow> ClientMessage list \<Rightarrow>
   ('r, 'e, 'x) HState \<Rightarrow> ('r, 'e, 'x) HState \<times> ErrorResponse option" where
  "HandleWebSocket h validate upgrade token order conn msgs st =
     (if token = [] then (st, Some (RespondUnauthorized ErrCodeInvalidToken ''Missing token''))
      else case validate token of
             Inl e \<Rightarrow> (st, Some (RespondUnauthorized ErrCodeInvalidToken ''Invalid token''))
           | Inr claims \<Rightarrow>
               if \<not> upgrade then (st, None)
               else (HandleConnection h order conn (cl_UserID claims) (cl_Username claims) (cl_IsGuest claims) msgs st, None))"

definition FinalizeAndBroadcastMatch ::
  "('r, 'e, 'x) Handler \<Rightarrow> uuid \<Rightarrow> ('r, 'e, 'x) HState \<Rightarrow> ('r, 'e, 'x) HState \<times> err option" where
  "FinalizeAndBroadcastMatch h matchID st =
     (case FinalizeMatch (mh_service h) matchID (hs_world st) of
        (w, Inl e) \<Rightarrow> (st\<lparr>hs_world := w\<rparr>, Some e)
      | (w, Inr (payload, _)) \<Rightarrow>
          (fst (on_hub (BroadcastToMatch matchID (message TypeMatchComplete (PMatchComplete payload))) (st\<lparr>hs_world := w\<rparr>)), None))"

subsection \<open>Rooms over HTTP\<close>

record ValidationError =
  ve_Field :: string
  ve_Message :: string

definition validateCreateRoomRequest :: "CreateRoomRequest \<Rightarrow> ValidationError option" where
  "validateCreateRoomRequest req =
     (if cr_MatchName req = [] then Some \<lparr>ve_Field = ''match_name'', ve_Message = ''match_name is required''\<rparr>
      else if cr_MaxPlayers req \<noteq> 2
      then Some \<lparr>ve_Field = ''max_players'', ve_Message = ''max_players must be 2 for 1v1 matches''\<rparr>
      else if cr_QuestionCount req \<noteq> 5 \<and> cr_QuestionCount req \<noteq> 10 \<and> cr_QuestionCount req \<noteq> 15
      then Some \<lparr>ve_Field = ''question_count'', ve_Message = ''question_count must be 5, 10, or 15''\<rparr>
      else if cr_PerQuestionSeconds req \<le> 0
      then Some \<lparr>ve_Field = ''per_question_seconds'', ve_Message = ''per_question_seconds must be a positive integer''\<rparr>
      else None)"

record PlayerResponse =
  pq_user_id :: string
  pq_username :: string
  pq_is_host :: bool
  pq_joined_at :: string

record RoomResponse =
  rs_room_code :: string
  rs_match_name :: string
  rs_max_players :: int
  rs_question_count :: int
  rs_per_question_seconds :: int
  rs_category :: string
  rs_status :: string
  rs_players :: "PlayerResponse list"
  rs_slots_remaining :: int
  rs_created_at :: string

definition roomToResponse :: "('r, 'e, 'x) Handler \<Rightarrow> string \<Rightarrow> PrivateRoom \<Rightarrow> RoomResponse" where
  "roomToResponse h roomCode room =
     \<lparr>rs_room_code = roomCode, rs_match_name = pm_MatchName room, rs_max_players = pm_MaxPlayers room,
      rs_question_count = pm_QuestionCount room, rs_per_question_seconds = pm_PerQuestionSeconds room,
      rs_category = pm_Category room, rs_status = pm_Status room,
      rs_players = map (\<lambda>p. \<lparr>pq_user_id = ms_us (mh_service h) (rp_UserID p), pq_username = rp_Username p,
        pq_is_host = rp_IsHost p, pq_joined_at = mh_rfc3339 h (rp_JoinedAt p)\<rparr>) (pm_Players room),
      rs_slots_remaining = pm_MaxPlayers room - int (length (pm_Players room)),
      rs_created_at = mh_rfc3339 h (pm_CreatedAt room)\<rparr>"

definition decode_CreateRoom :: "json option \<Rightarrow> CreateRoomRequest option" where
  "decode_CreateRoom body =
     Option.bind (Option.bind body object_fields) (\<lambda>kvs.
     Option.bind (string_field ''match_name'' kvs) (\<lambda>name.
     Option.bind (int_field ''max_players'' kvs) (\<lambda>mx.
     Option.bind (int_field ''question_count'' kvs) (\<lambda>n.
     Option.bind (int_field ''per_question_seconds'' kvs) (\<lambda>sec.
     map_option (\<lambda>category. \<lparr>cr_MatchName = name, cr_MaxPlayers = mx, cr_QuestionCount = n,
         cr_PerQuestionSeconds = sec, cr_Category = category\<rparr>)
       (string_field ''category'' kvs))))))"

definition room_request :: "Claims \<Rightarrow> CreateRoomRequest \<Rightarrow> PrivateRoomRequest" where
  "room_request claims req =
     \<lparr>rr_HostID = cl_UserID claims, rr_Username = cl_Username claims, rr_IsGuest = False, rr_MatchName = cr_MatchName req,
      rr_MaxPlayers = cr_MaxPlayers req, rr_QuestionCount = cr_QuestionCount req,
      rr_PerQuestionSeconds = cr_PerQuestionSeconds req, rr_Category = cr_Category req\<rparr>"

text \<open>The answer is an error response or a status with the room; \<open>None\<close> when the search for a free
  code does not end.\<close>

definition HttpCreateRoom ::
  "('r, 'e, 'x) Handler \<Rightarrow> string \<Rightarrow> Claims option \<Rightarrow> json option \<Rightarrow> ('r, 'e, 'x) HState \<Rightarrow>
   (('r, 'e, 'x) HState \<times> (ErrorResponse + int \<times> RoomResponse)) option" where
  "HttpCreateRoom h httpMethod claims body st =
     (if httpMethod \<noteq> ''POST'' then Some (st, Inl (RespondError 405 ErrCodeInvalidRequest ''Method not allowed''))
      else case claims of
        None \<Rightarrow> Some (st, Inl (RespondUnauthorized ErrCodeAuthenticationRequired ''Authentication required''))
      | Some claims \<Rightarrow>
      if cl_IsGuest claims
      then Some (st, Inl (RespondForbidden ErrCodeGuestsCannotCreateRooms ''Guests cannot create private rooms''))
      else case decode_CreateRoom body of
        None \<Rightarrow> Some (st, Inl (RespondBadRequest ErrCodeInvalidRequest ''Invalid JSON payload''))
      | Some req \<Rightarrow>
      (case validateCreateRoomRequest req of
        Some e \<Rightarrow> Some (st, Inl (RespondValidationError ErrCodeValidationFailed (ve_Message e) (ve_Field e)))
      | None \<Rightarrow>
          let (st, rnd) = on_clock (mh_rnd h) st;
              (st, joined) = on_clock (ms_now (mh_service h)) st;
              (st, created) = on_clock (ms_now (mh_service h)) st
          in case CreateRoom (hs_rooms st) rnd joined created (room_request claims req) of
               None \<Rightarrow> None
             | Some (rooms, Inl e) \<Rightarrow> Some (st\<lparr>hs_rooms := rooms\<rparr>, Inl (RespondInternalError e))
             | Some (rooms, Inr (roomCode, room)) \<Rightarrow>
                 Some (st\<lparr>hs_rooms := rooms\<rparr>, Inr (201, roomToResponse h roomCode room))))"

definition HttpGetRoom ::
  "('r, 'e, 'x) Handler \<Rightarrow> string \<Rightarrow> string \<Rightarrow> ('r, 'e, 'x) HState \<Rightarrow> ErrorResponse + int \<times> RoomResponse" where
  "HttpGetRoom h httpMethod path st =
     (if httpMethod \<noteq> ''GET'' then Inl (RespondError 405 ErrCodeInvalidRequest ''Method not allowed'')
      else
        let roomCode = trim_suffix ''/'' (trim_prefix ''/v1/rooms/'' path)
        in if length roomCode \<noteq> 6
           then Inl (RespondValidationError ErrCodeInvalidRoomCode ''Room code must be 6 digits'' ''room_code'')
           else if \<not> list_all is_digit roomCode
           then Inl (RespondValidationError ErrCodeInvalidRoomCode ''Room code must be numeric'' ''room_code'')
           else case GetRoom (hs_rooms st) roomCode of
                  Inl e \<Rightarrow> if e = ''room not found'' then Inl (RespondNotFound ErrCodeRoomNotFound ''Room not found'')
                          else Inl (RespondInternalError e)
                | Inr room \<Rightarrow> Inr (200, roomToResponse h roomCode room))"

end
