(* ===== verification/Platform.thy ===== *)
theory Platform
  imports MatchHandler
begin

section \<open>Runs of the platform\<close>

text \<open>
  The state machine of the running server: connections open, send messages and close, write pumps
  write, rooms are created over HTTP, matches are finalised, and everything else the processes do
  to Redis and the database passes. A run of it projects to a run of every component, so what the
  components prove of their runs holds of the whole.
\<close>

definition map_orders_ok :: "('r, 'e, 'x) Handler \<Rightarrow> bool" where
  "map_orders_ok h \<longleftrightarrow> (\<forall>x m. finite (dom m) \<longrightarrow> enumerates (snd (mh_order h x) m) m)"

inductive platform_step :: "('r, 'e, 'x) Handler \<Rightarrow> ('r \<Rightarrow> table) \<Rightarrow> ('r, 'e, 'x) HState \<Rightarrow> ('r, 'e, 'x) HState \<Rightarrow> bool"
  for h tab where
  message: "handleMessage h u name guest msg st = (st', e) \<Longrightarrow> platform_step h tab st st'"
| opened: "platform_step h tab st (open_connection u c st)"
| closed: "enumerates (order (hs_hub st)) (hub_matches (hs_hub st)) \<Longrightarrow> platform_step h tab st (close_connection order u st)"
| pumped: "platform_step h tab st (st\<lparr>hs_hub := on_conn c (WritePump_step ok) (hs_hub st)\<rparr>)"
| room: "HttpCreateRoom h httpMethod claims body st = Some (st', r) \<Longrightarrow> platform_step h tab st st'"
| finalised: "FinalizeAndBroadcastMatch h m st = (st', e) \<Longrightarrow> platform_step h tab st st'"
| elsewhere: "(\<And>k. prefix ''match:'' k \<Longrightarrow> tab (w_redis w') k = tab (w_redis (hs_world st)) k \<or> tab (w_redis w') k = None) \<Longrightarrow>
    platform_step h tab st (st\<lparr>hs_world := w'\<rparr>)"

inductive platform_run :: "('r, 'e, 'x) Handler \<Rightarrow> ('r \<Rightarrow> table) \<Rightarrow> ('r, 'e, 'x) HState \<Rightarrow> bool" for h tab where
  start: "(\<And>k. prefix ''match:'' k \<Longrightarrow> tab (w_redis w) k = None) \<Longrightarrow>
    platform_run h tab \<lparr>hs_world = w, hs_queue = NewQueueManager n, hs_rooms = NewRoomManager, hs_hub = NewHub\<rparr>"
| step: "platform_run h tab st \<Longrightarrow> platform_step h tab st st' \<Longrightarrow> platform_run h tab st'"

definition platform_ok :: "('r, 'e, 'x) Handler \<Rightarrow> ('r \<Rightarrow> table) \<Rightarrow> ('r, 'e, 'x) HState \<Rightarrow> bool" where
  "platform_ok h tab st \<longleftrightarrow>
     match_run (mh_service h) tab (hs_world st) \<and> finite (dom (waiting (hs_queue st))) \<and> queue_inv (hs_queue st) \<and>
     room_run (hs_rooms st) [] \<and> hub_run (mh_grow h) (hs_hub st)"

subsection \<open>Each component under the handlers\<close>

lemma on_clock_sel:
  "on_clock f st = (st', x) \<Longrightarrow> hs_queue st' = hs_queue st \<and> hs_rooms st' = hs_rooms st \<and> hs_hub st' = hs_hub st \<and>
     w_redis (hs_world st') = w_redis (hs_world st) \<and> w_db (hs_world st') = w_db (hs_world st) \<and>
     x = snd (f (w_ext (hs_world st)))"
  by (auto simp: on_clock_def on_ext_def split: prod.splits)

lemma on_clock_ok: "on_clock f st = (st', x) \<Longrightarrow> platform_ok h tab st \<Longrightarrow> platform_ok h tab st'"
  using match_run.elsewhere [of "mh_service h" tab "hs_world st" "hs_world st'"] on_clock_sel [of f st st' x]
  by (auto simp: platform_ok_def)

lemma hub_ok_step: "platform_ok h tab st \<Longrightarrow> hub_run (mh_grow h) g \<Longrightarrow> platform_ok h tab (st\<lparr>hs_hub := g\<rparr>)"
  by (simp add: platform_ok_def)

lemma platform_hub: "platform_ok h tab st \<Longrightarrow> hub_run (mh_grow h) (hs_hub st)"
  by (simp add: platform_ok_def)

lemma world_step: "platform_ok h tab st \<Longrightarrow> match_run (mh_service h) tab w \<Longrightarrow> platform_ok h tab (st\<lparr>hs_world := w\<rparr>)"
  by (simp add: platform_ok_def)

lemma rooms_step: "platform_ok h tab st \<Longrightarrow> room_run rooms [] \<Longrightarrow> platform_ok h tab (st\<lparr>hs_rooms := rooms\<rparr>)"
  by (simp add: platform_ok_def)

lemma queue_step:
  "platform_ok h tab st \<Longrightarrow> queue_inv q \<Longrightarrow> finite (dom (waiting q)) \<Longrightarrow> platform_ok h tab (st\<lparr>hs_queue := q\<rparr>)"
  by (simp add: platform_ok_def)

lemma send_all_run: "hub_run grow h \<Longrightarrow> hub_run grow (fst (send_all us msg h))"
proof (induction us arbitrary: h)
  case (Cons u us)
  obtain h1 e where s: "SendToUser u msg h = (h1, e)" by (rule prod.exhaust)
  from Cons.IH [OF hub_run.send [OF Cons.prems s]] s show ?case by (simp add: case_prod_unfold Let_def)
qed simp

lemma send_user_ok: "platform_ok h tab st \<Longrightarrow> platform_ok h tab (fst (send_user u msg st))"
  using hub_run.send [of "mh_grow h" "hs_hub st" u msg]
  by (auto simp: send_user_def on_hub_def hub_ok_step platform_hub split: prod.splits)

lemma sendError_ok: "platform_ok h tab st \<Longrightarrow> platform_ok h tab (fst (sendError u c m st))"
  by (simp add: sendError_def send_user_ok)

lemma broadcast_ok: "platform_ok h tab st \<Longrightarrow> platform_ok h tab (fst (on_hub (BroadcastToMatch m msg) st))"
  using send_all_run [of "mh_grow h" "hs_hub st" "users_of (hs_hub st) m" msg]
  by (auto simp: on_hub_def BroadcastToMatch_def hub_ok_step platform_hub split: prod.splits)

lemma join_match_ok: "platform_ok h tab st \<Longrightarrow> platform_ok h tab (join_match h m u st)"
  by (simp add: join_match_def hub_ok_step hub_run.join platform_hub)

lemma join_all_ok: "platform_ok h tab st \<Longrightarrow> platform_ok h tab (fold (\<lambda>p. join_match h m (f p)) ps st)"
  by (induction ps arbitrary: st) (simp_all add: join_match_ok)

lemma sendQuestions_ok: "platform_ok h tab st \<Longrightarrow> platform_ok h tab (sendQuestions h m qs st)"
  by (auto simp: sendQuestions_def broadcast_ok dest: on_clock_ok split: prod.splits)

lemma start_match_ok: "platform_ok h tab st \<Longrightarrow> platform_ok h tab (fst (start_match h u pair n cat st))"
proof -
  assume ok: "platform_ok h tab st"
  obtain w r where c: "CreateRandomMatch (mh_service h) pair n 15 cat (hs_world st) = (w, r)" by (rule prod.exhaust)
  from ok c have "match_run (mh_service h) tab w" unfolding platform_ok_def using match_run.random by blast
  with ok have w: "platform_ok h tab (st\<lparr>hs_world := w\<rparr>)" by (rule world_step)
  show ?thesis
    using w by (simp add: start_match_def c Let_def sendError_ok sendQuestions_ok join_match_ok broadcast_ok split: sum.split prod.split)
qed

lemma handleJoinQueue_ok:
  assumes o: "map_orders_ok h" and ok: "platform_ok h tab st"
  shows "platform_ok h tab (fst (handleJoinQueue h u name guest payload st))"
proof (cases "decode_JoinQueue payload")
  case None
  with ok show ?thesis by (simp add: handleJoinQueue_def sendError_ok)
next
  case (Some req)
  obtain st1 tok where d1: "on_clock (ms_uuid (mh_service h)) st = (st1, tok)" by (rule prod.exhaust)
  obtain st2 now where d2: "on_clock (ms_now (mh_service h)) st1 = (st2, now)" by (rule prod.exhaust)
  obtain st3 order where d3: "on_clock (mh_order h) st2 = (st3, order)" by (rule prod.exhaust)
  have ok3: "platform_ok h tab st3" using on_clock_ok [OF d3] on_clock_ok [OF d2] on_clock_ok [OF d1] ok by blast
  then have inv: "finite (dom (waiting (hs_queue st3)))" "queue_inv (hs_queue st3)" by (simp_all add: platform_ok_def)
  then have en: "enumerates (order (waiting (hs_queue st3))) (waiting (hs_queue st3))"
    using o on_clock_sel [OF d3] by (simp add: map_orders_ok_def)
  let ?req = "\<lparr>mr_UserID = u, mr_Username = name, mr_IsGuest = guest, mr_PreferredCategory = normalizeCategory (jq_Category req),
     mr_PreferredDifficulty = [], mr_BotOK = True\<rparr>"
  obtain q qt pair e where q: "Enqueue (hs_queue st3) (order (waiting (hs_queue st3))) tok now ?req = (q, qt, pair, e)"
    by (rule prod_cases4)
  have q_ok: "platform_ok h tab (st3\<lparr>hs_queue := q\<rparr>)"
  proof (rule queue_step [OF ok3])
    show "queue_inv q" by (rule Enqueue_inv [OF inv(2) en q])
    show "finite (dom (waiting q))" using q inv(1) by (auto elim!: Enqueue_cases)
  qed
  obtain st4 order' where d4: "on_clock (mh_order h) (st3\<lparr>hs_queue := q\<rparr>) = (st4, order')" by (rule prod.exhaust)
  from q_ok on_clock_ok [OF d4 q_ok] show ?thesis
    by (simp add: handleJoinQueue_def Some d1 d2 d3 q d4 sendError_ok start_match_ok send_user_ok split: option.split)
qed

lemma handleCancelQueue_ok: "platform_ok h tab st \<Longrightarrow> platform_ok h tab (fst (handleCancelQueue h u payload st))"
  using Dequeue_inv [of "hs_queue st"] Dequeue_waiting [of "hs_queue st"]
  by (auto simp: handleCancelQueue_def sendError_ok platform_ok_def [of h tab st]
      intro!: queue_step sendError_ok split: option.split sum.split prod.split)

lemma start_room_match_ok:
  assumes ok: "platform_ok h tab st"
  shows "platform_ok h tab (fst (start_room_match h u code room st))"
proof -
  obtain w r where c: "CreatePrivateMatch (mh_service h) code (map (\<lambda>p. p\<lparr>rp_JoinedAt := time_zero\<rparr>) (pm_Players room))
      (pm_QuestionCount room) (pm_PerQuestionSeconds room) (pm_Category room) (hs_world st) = (w, r)" by (rule prod.exhaust)
  from ok c have "match_run (mh_service h) tab w" unfolding platform_ok_def using match_run.from_room by blast
  with ok have w: "platform_ok h tab (st\<lparr>hs_world := w\<rparr>)" by (rule world_step)
  show ?thesis
  proof (cases r)
    case (Inl e)
    with c w show ?thesis by (simp add: start_room_match_def sendError_ok)
  next
    case (Inr p)
    obtain m qs where r: "r = Inr (m, qs)" using Inr by (cases p) simp
    obtain rooms x where s: "StartRoom (hs_rooms st) code (m_ID m) (pm_StartCountdown room) = (rooms, x)" by (rule prod.exhaust)
    from w have "room_run rooms []" using room_run.start [of "hs_rooms st" "[]", OF _ s] by (simp add: platform_ok_def)
    with w have "platform_ok h tab (st\<lparr>hs_world := w, hs_rooms := rooms\<rparr>)" by (rule rooms_step)
    with c r s show ?thesis
      by (simp add: start_room_match_def Let_def sendError_ok send_user_ok sendQuestions_ok join_all_ok split: sum.split)
  qed
qed

lemma handleJoinPrivate_ok:
  assumes ok: "platform_ok h tab st"
  shows "platform_ok h tab (fst (handleJoinPrivate h u name guest payload st))"
proof (cases "decode_JoinPrivate payload")
  case None
  with ok show ?thesis by (simp add: handleJoinPrivate_def sendError_ok)
next
  case (Some req)
  obtain st1 now where d: "on_clock (ms_now (mh_service h)) st = (st1, now)" by (rule prod.exhaust)
  obtain rooms r where j: "JoinRoom (hs_rooms st) now (jp_RoomCode req) u name guest = (rooms, r)" by (rule prod.exhaust)
  have "room_run rooms []" using ok room_run.join [OF _ j, of "[]"] by (simp add: platform_ok_def)
  with on_clock_ok [OF d ok] have "platform_ok h tab (st1\<lparr>hs_rooms := rooms\<rparr>)" by (rule rooms_step)
  with ok Some d j show ?thesis
    by (simp add: handleJoinPrivate_def sendError_ok send_user_ok start_room_match_ok Let_def split: sum.split)
qed

lemma handleSubmitAnswer_ok:
  assumes ok: "platform_ok h tab st"
  shows "platform_ok h tab (fst (handleSubmitAnswer h u payload st))"
proof (cases "\<exists>req m. decode_SubmitAnswer payload = Some req \<and> mh_parse h (sb_MatchID req) = Inr m")
  case False
  with ok show ?thesis by (auto simp: handleSubmitAnswer_def sendError_ok split: option.split sum.split)
next
  case True
  then obtain req m where q: "decode_SubmitAnswer payload = Some req" "mh_parse h (sb_MatchID req) = Inr m" by blast
  obtain st1 now where d: "on_clock (ms_now (mh_service h)) st = (st1, now)" by (rule prod.exhaust)
  obtain w r where s: "SubmitAnswer (mh_service h) m u (sb_QuestionToken req) (sb_Answer req) now (hs_world st1) = (w, r)"
    by (rule prod.exhaust)
  note ok1 = on_clock_ok [OF d ok]
  then have "match_run (mh_service h) tab w" unfolding platform_ok_def using match_run.answer [OF _ s] by blast
  with ok1 have "platform_ok h tab (st1\<lparr>hs_world := w\<rparr>)" by (rule world_step)
  with q d s show ?thesis by (simp add: handleSubmitAnswer_def sendError_ok send_user_ok split: sum.split)
qed

lemma handleLeaveMatch_ok: "platform_ok h tab st \<Longrightarrow> platform_ok h tab (fst (handleLeaveMatch h u payload st))"
  by (simp add: handleLeaveMatch_def sendError_ok hub_ok_step platform_hub hub_run.leave split: option.split sum.split)

lemma handleMessage_ok:
  "map_orders_ok h \<Longrightarrow> platform_ok h tab st \<Longrightarrow> platform_ok h tab (fst (handleMessage h u name guest msg st))"
  by (simp add: handleMessage_def Let_def handleJoinQueue_ok handleCancelQueue_ok handleAcceptBotFill_def handleJoinPrivate_ok
      handleReadyState_def handleSubmitAnswer_ok handleLeaveMatch_ok handleRequestProgress_def sendError_ok split: option.split)

lemma CreateRoom_run:
  assumes "room_run rooms []" "CreateRoom rooms rnd joined created req = Some (rooms', r)"
  shows "room_run rooms' []"
proof (cases r)
  case (Inl e)
  with assms show ?thesis by (auto simp: CreateRoom_def split: option.splits sum.splits prod.splits)
next
  case (Inr p)
  then obtain code room where p: "CreateRoom_pick rooms rnd joined created req = Some (Inr (code, room))"
    "rooms' = CreateRoom_insert rooms code room"
    using assms(2) by (auto simp: CreateRoom_def split: option.splits sum.splits prod.splits)
  from room_run.insert [of rooms "[]" code room "[]"] room_run.pick [OF assms(1) p(1)] p(2) show ?thesis by simp
qed

lemma HttpCreateRoom_cases:
  assumes "HttpCreateRoom h httpMethod claims body st = Some (st', r)"
  shows "(\<exists>e. st' = st \<and> r = Inl e) \<or> (\<exists>rnd joined created cl req rooms x st1. claims = Some cl \<and> decode_CreateRoom body = Some req \<and>
    validateCreateRoomRequest req = None \<and> \<not> cl_IsGuest cl \<and> httpMethod = ''POST'' \<and>
    CreateRoom (hs_rooms st) rnd joined created (room_request cl req) = Some (rooms, x) \<and> st' = st1\<lparr>hs_rooms := rooms\<rparr> \<and>
    rnd = snd (mh_rnd h (w_ext (hs_world st))) \<and> hs_queue st1 = hs_queue st \<and> hs_hub st1 = hs_hub st \<and>
    w_redis (hs_world st1) = w_redis (hs_world st) \<and>
    r = (case x of Inl e \<Rightarrow> Inl (RespondInternalError e) | Inr (code, room) \<Rightarrow> Inr (201, roomToResponse h code room)))"
proof -
  obtain st1 rnd where d1: "on_clock (mh_rnd h) st = (st1, rnd)" by (rule prod.exhaust)
  obtain st2 joined where d2: "on_clock (ms_now (mh_service h)) st1 = (st2, joined)" by (rule prod.exhaust)
  obtain st3 created where d3: "on_clock (ms_now (mh_service h)) st2 = (st3, created)" by (rule prod.exhaust)
  note sel = on_clock_sel [OF d1] on_clock_sel [OF d2] on_clock_sel [OF d3]
  show ?thesis
  proof (cases "httpMethod = ''POST'' \<and> (\<exists>cl req. claims = Some cl \<and> \<not> cl_IsGuest cl \<and> decode_CreateRoom body = Some req \<and>
      validateCreateRoomRequest req = None)")
    case False
    with assms show ?thesis by (auto simp: HttpCreateRoom_def split: if_splits option.splits)
  next
    case True
    then obtain cl req where c: "httpMethod = ''POST''" "claims = Some cl" "\<not> cl_IsGuest cl" "decode_CreateRoom body = Some req"
      "validateCreateRoomRequest req = None" by blast
    have rooms: "hs_rooms st3 = hs_rooms st" using sel by simp
    obtain rooms x where cr: "CreateRoom (hs_rooms st) rnd joined created (room_request cl req) = Some (rooms, x)"
      and st': "st' = st3\<lparr>hs_rooms := rooms\<rparr>"
      and r: "r = (case x of Inl e \<Rightarrow> Inl (RespondInternalError e) | Inr (code, room) \<Rightarrow> Inr (201, roomToResponse h code room))"
      using assms c d1 d2 d3 rooms by (auto simp: HttpCreateRoom_def split: option.splits sum.splits)
    from c cr st' r sel show ?thesis by (intro disjI2 exI [of _ rnd] exI [of _ joined] exI [of _ created] exI [of _ cl]
        exI [of _ req] exI [of _ rooms] exI [of _ x] exI [of _ st3]) simp
  qed
qed

lemma platform_step_ok:
  assumes o: "map_orders_ok h" and s: "platform_step h tab st st'" and ok: "platform_ok h tab st"
  shows "platform_ok h tab st'"
  using s
proof cases
  case (message u name guest msg e)
  with handleMessage_ok [OF o ok, of u name guest msg] show ?thesis by simp
next
  case (opened u c)
  with ok show ?thesis by (simp add: open_connection_def hub_ok_step hub_run.register platform_hub)
next
  case (closed order u)
  with ok show ?thesis by (simp add: close_connection_def hub_ok_step hub_run.unregister platform_hub)
next
  case (pumped c ok')
  with ok show ?thesis by (simp add: hub_ok_step hub_run.pump platform_hub)
next
  case (room httpMethod claims body r)
  from HttpCreateRoom_cases [OF this] ok CreateRoom_run match_run.elsewhere [of "mh_service h" tab "hs_world st" "hs_world st'"]
  show ?thesis by (auto simp: platform_ok_def)
next
  case (finalised m e)
  obtain w r where f: "FinalizeMatch (mh_service h) m (hs_world st) = (w, r)" by (rule prod.exhaust)
  from ok have "match_run (mh_service h) tab w" unfolding platform_ok_def using match_run.finalize [OF _ f] by blast
  with ok have "platform_ok h tab (st\<lparr>hs_world := w\<rparr>)" by (rule world_step)
  with finalised f show ?thesis by (auto simp: FinalizeAndBroadcastMatch_def broadcast_ok split: sum.splits)
next
  case (elsewhere w')
  with ok match_run.elsewhere [of "mh_service h" tab "hs_world st" w'] show ?thesis by (simp add: world_step platform_ok_def)
qed

lemma platform_run_ok: "platform_run h tab st \<Longrightarrow> map_orders_ok h \<Longrightarrow> platform_ok h tab st"
proof (induction rule: platform_run.induct)
  case (start w n)
  then show ?case
    by (simp add: platform_ok_def match_run.init room_run.init hub_run.init NewQueueManager_def queue_inv_def)
next
  case (step st st')
  then show ?case by (blast intro: platform_step_ok)
qed

subsection \<open>What reaches a client\<close>

definition inbox :: "Hub \<Rightarrow> uuid \<Rightarrow> Message list" where
  "inbox g u = (case hub_connections g u of None \<Rightarrow> [] | Some c \<Rightarrow> cn_sendCh (hub_conn g c))"

text \<open>A user with an open connection that takes \<open>n\<close> more messages.\<close>

definition takes :: "Hub \<Rightarrow> nat \<Rightarrow> uuid \<Rightarrow> bool" where
  "takes g n u \<longleftrightarrow> (case hub_connections g u of None \<Rightarrow> False
     | Some c \<Rightarrow> \<not> cn_closed (hub_conn g c) \<and> length (cn_sendCh (hub_conn g c)) + n \<le> send_capacity)"

definition own_connections :: "Hub \<Rightarrow> bool" where
  "own_connections g \<longleftrightarrow> (\<forall>u v c. hub_connections g u = Some c \<longrightarrow> hub_connections g v = Some c \<longrightarrow> u = v)"

lemma SendToUser_delivers:
  assumes "takes g (Suc n) u" "own_connections g" "SendToUser u msg g = (g', e)"
  shows "e = None \<and> inbox g' u = inbox g u @ [msg] \<and> (\<forall>v. v \<noteq> u \<longrightarrow> inbox g' v = inbox g v) \<and> takes g' n u \<and>
    (\<forall>v k. v \<noteq> u \<longrightarrow> takes g' k v = takes g k v) \<and> own_connections g' \<and> users_of g' = users_of g"
proof -
  from assms(1) obtain c where c: "hub_connections g u = Some c" "\<not> cn_closed (hub_conn g c)"
    "length (cn_sendCh (hub_conn g c)) + Suc n \<le> send_capacity" by (auto simp: takes_def split: option.splits)
  then have g': "g' = on_conn c (\<lambda>_. (hub_conn g c)\<lparr>cn_sendCh := cn_sendCh (hub_conn g c) @ [msg]\<rparr>) g" "e = None"
    using assms(3) by (auto simp: SendToUser_def Conn_Send_def)
  have other: "hub_connections g v \<noteq> Some c" if "v \<noteq> u" for v using assms(2) c(1) that by (auto simp: own_connections_def)
  have "users_of g' = users_of g" using same_slices [of g' g] g' by simp
  with g' c other show ?thesis
    using assms(2) by (auto simp: inbox_def takes_def own_connections_def split: option.split)
qed

text \<open>How many more messages a user's connection accepts: none without an open connection.\<close>

definition accepts :: "Hub \<Rightarrow> uuid \<Rightarrow> nat" where
  "accepts g u = (case hub_connections g u of None \<Rightarrow> 0
     | Some c \<Rightarrow> if cn_closed (hub_conn g c) then 0 else 256 - length (cn_sendCh (hub_conn g c)))"

text \<open>\<open>g'\<close> is \<open>g\<close> after each of \<open>us\<close> was sent \<open>msgs\<close>: everybody gets what the connection accepts.\<close>

definition sent_to :: "uuid set \<Rightarrow> Message list \<Rightarrow> Hub \<Rightarrow> Hub \<Rightarrow> bool" where
  "sent_to us msgs g g' \<longleftrightarrow> own_connections g' \<and> users_of g' = users_of g \<and>
     (\<forall>x. inbox g' x = inbox g x @ (if x \<in> us then take (accepts g x) msgs else []) \<and>
          accepts g' x = (if x \<in> us then accepts g x - length msgs else accepts g x))"

lemma SendToUser_sent:
  assumes "own_connections g" "SendToUser u msg g = (g', e)"
  shows "sent_to {u} [msg] g g'"
proof (cases "accepts g u")
  case 0
  then have "g' = on_conn c (\<lambda>_. hub_conn g c) g" if "hub_connections g u = Some c" for c
    using assms(2) that by (auto simp: SendToUser_def Conn_Send_def accepts_def send_capacity_def split: if_splits)
  moreover have "g' = g" if "hub_connections g u = None" using assms(2) that by (auto simp: SendToUser_def)
  ultimately have "hub_connections g' = hub_connections g" "hub_conn g' = hub_conn g" "users_of g' = users_of g"
    using same_slices [of g' g] by (cases "hub_connections g u"; simp)+
  moreover from this have "inbox g' = inbox g" "accepts g' = accepts g"
    unfolding fun_eq_iff by (simp_all add: inbox_def accepts_def split: option.split)
  ultimately show ?thesis using 0 assms(1) by (simp add: sent_to_def own_connections_def)
next
  case (Suc n)
  then obtain c where c: "hub_connections g u = Some c" "\<not> cn_closed (hub_conn g c)" "length (cn_sendCh (hub_conn g c)) < 256"
    by (auto simp: accepts_def split: option.splits if_splits)
  then have g': "g' = on_conn c (\<lambda>_. (hub_conn g c)\<lparr>cn_sendCh := cn_sendCh (hub_conn g c) @ [msg]\<rparr>) g"
    using assms(2) by (auto simp: SendToUser_def Conn_Send_def send_capacity_def)
  have other: "hub_connections g v \<noteq> Some c" if "v \<noteq> u" for v using assms(1) c(1) that by (auto simp: own_connections_def)
  have us: "users_of g' = users_of g" using same_slices [of g' g] g' by simp
  have own: "own_connections g'" using assms(1) by (simp add: g' own_connections_def)
  have "inbox g' x = inbox g x @ (if x \<in> {u} then take (accepts g x) [msg] else []) \<and>
      accepts g' x = (if x \<in> {u} then accepts g x - length [msg] else accepts g x)" for x
    using c other [of x] Suc by (cases "hub_connections g x") (auto simp: g' inbox_def accepts_def)
  with us own show ?thesis by (simp add: sent_to_def)
qed

lemma send_all_sent:
  "own_connections g \<Longrightarrow> distinct us \<Longrightarrow> send_all us msg g = (g', es) \<Longrightarrow> sent_to (set us) [msg] g g'"
proof (induction us arbitrary: g es)
  case Nil
  then show ?case by (simp add: sent_to_def)
next
  case (Cons u us)
  obtain g1 e where s: "SendToUser u msg g = (g1, e)" by force
  obtain es1 where r: "send_all us msg g1 = (g', es1)" using Cons.prems(3) s by (auto split: prod.splits)
  note d = SendToUser_sent [OF Cons.prems(1) s]
  then have "own_connections g1" by (simp add: sent_to_def)
  from Cons.IH [OF this _ r] Cons.prems(2) d show ?case by (auto simp: sent_to_def)
qed

lemma sent_to_twice:
  assumes "sent_to us [a] g g1" "sent_to us [b] g1 g2"
  shows "sent_to us [a, b] g g2"
proof -
  have "take n [a] @ take (n - 1) [b] = take n [a, b]" for n by (cases n) simp_all
  then have t: "take n [a] @ take (n - Suc 0) [b] = take n [a, b]" for n by simp
  from assms show ?thesis by (auto simp: sent_to_def t)
qed

lemma sendQuestions_sel:
  "hs_queue (sendQuestions h m qs st) = hs_queue st \<and> hs_rooms (sendQuestions h m qs st) = hs_rooms st"
proof -
  obtain st1 now where d: "on_clock (ms_now (mh_service h)) st = (st1, now)" by (rule prod.exhaust)
  from on_clock_sel [OF d] d show ?thesis by (auto simp: sendQuestions_def on_hub_def split: prod.splits)
qed

lemma append_user_conn: "hub_conn (append_user grow m u g) = hub_conn g" "hub_connections (append_user grow m u g) = hub_connections g"
  by (simp_all add: append_user_def split: option.split prod.split)

lemma JoinMatch_conn [simp]:
  "inbox (JoinMatch grow m u g) = inbox g" "takes (JoinMatch grow m u g) = takes g"
  "own_connections (JoinMatch grow m u g) = own_connections g" "accepts (JoinMatch grow m u g) = accepts g"
  unfolding fun_eq_iff
  by (auto simp: JoinMatch_def inbox_def takes_def accepts_def own_connections_def append_user_conn split: option.split)

lemma start_match_starts:
  assumes c: "CreateRandomMatch (mh_service h) pair n 15 cat (hs_world st) = (w, Inr (m, qs))"
    and p: "wp_UserID (Player1 pair) = u" "wp_UserID (Player2 pair) = v" "u \<noteq> v"
    and hub: "hub_ok (hs_hub st)" "own_connections (hs_hub st)"
    and now: "on_ext (ms_now (mh_service h)) w = (w2, now)"
    and s: "start_match h u pair n cat st = (st', e)"
    and ms: "ms = users_of (hs_hub st) (m_ID m) @ filter (\<lambda>x. x \<notin> set (users_of (hs_hub st) (m_ID m))) [u, v]"
  shows "e = None \<and> hs_world st' = w2 \<and> hs_queue st' = hs_queue st \<and> hs_rooms st' = hs_rooms st \<and>
    users_of (hs_hub st') = (users_of (hs_hub st))(m_ID m := ms) \<and>
    (\<forall>x. inbox (hs_hub st') x = inbox (hs_hub st) x @
       (if x \<in> set ms then take (accepts (hs_hub st) x) [match_found h m pair, question_batch h (m_ID m) qs now] else []))"
proof -
  let ?m = "m_ID m" and ?g1 = "JoinMatch (mh_grow h) (m_ID m) u (hs_hub st)"
  let ?g = "JoinMatch (mh_grow h) ?m v ?g1"
  note j1 = JoinMatch_spec [OF hub(1), of "mh_grow h" ?m u]
  then have "hub_ok ?g1" by blast
  note j2 = JoinMatch_spec [OF this, of "mh_grow h" ?m v]
  have users: "users_of ?g = (users_of (hs_hub st))(?m := ms)"
    using j1 j2 p(3) by (auto simp: ms)
  have d: "distinct (users_of ?g ?m)" using j2 hub_ok_distinct by blast
  obtain g1 e1 where b1: "BroadcastToMatch ?m (match_found h m pair) ?g = (g1, e1)" by (rule prod.exhaust)
  obtain g2 e2 where b2: "BroadcastToMatch ?m (question_batch h ?m qs now) g1 = (g2, e2)" by (rule prod.exhaust)
  have s1: "sent_to (set ms) [match_found h m pair] ?g g1"
    using send_all_sent [of ?g "users_of ?g ?m"] b1 hub(2) d users by (auto simp: BroadcastToMatch_def split: prod.splits)
  then have u1: "users_of g1 = users_of ?g" "own_connections g1" by (simp_all add: sent_to_def)
  then have s2: "sent_to (set ms) [question_batch h ?m qs now] g1 g2"
    using send_all_sent [of g1 "users_of g1 ?m"] b2 d users by (auto simp: BroadcastToMatch_def split: prod.splits)
  from sent_to_twice [OF s1 s2] have g2: "sent_to (set ms) [match_found h m pair, question_batch h ?m qs now] ?g g2" .
  have st': "st' = st\<lparr>hs_world := w2, hs_hub := g2\<rparr>" "e = None"
    using s p b1 b2 now
    by (auto simp: start_match_def c Let_def join_match_def on_hub_def sendQuestions_def on_clock_def)
  from g2 users show ?thesis unfolding st' by (simp add: sent_to_def)
qed

lemma send_user_sent:
  assumes "own_connections (hs_hub st)" "send_user u msg st = (st', e)"
  shows "sent_to {u} [msg] (hs_hub st) (hs_hub st') \<and> hs_queue st' = hs_queue st \<and> hs_rooms st' = hs_rooms st \<and> hs_world st' = hs_world st"
  using assms(2) SendToUser_sent [OF assms(1)] by (auto simp: send_user_def on_hub_def split: prod.splits)

subsection \<open>A room that cannot start\<close>

definition room_full :: "PrivateRoom \<Rightarrow> bool" where
  "room_full room \<longleftrightarrow> pm_Status room = RoomStatusWaiting \<and> pm_MaxPlayers room \<le> int (length (pm_Players room))"

lemma send_user_rooms [simp]: "hs_rooms (fst (send_user u msg st)) = hs_rooms st" "hs_rooms (fst (sendError u c m st)) = hs_rooms st"
  by (simp_all add: send_user_def sendError_def on_hub_def split: prod.split)

lemma join_all_rooms: "hs_rooms (fold (\<lambda>p. join_match h m (f p)) ps st) = hs_rooms st"
  by (induction ps arbitrary: st) (simp_all add: join_match_def)

lemma start_match_rooms: "hs_rooms (fst (start_match h u pair n cat st)) = hs_rooms st"
  by (simp add: start_match_def Let_def join_match_def sendQuestions_sel on_hub_def case_prod_unfold split: sum.split)

lemma handleJoinQueue_rooms: "hs_rooms (fst (handleJoinQueue h u name guest payload st)) = hs_rooms st"
proof (cases "decode_JoinQueue payload")
  case None
  then show ?thesis by (simp add: handleJoinQueue_def)
next
  case (Some req)
  obtain st1 tok where d1: "on_clock (ms_uuid (mh_service h)) st = (st1, tok)" by (rule prod.exhaust)
  obtain st2 now where d2: "on_clock (ms_now (mh_service h)) st1 = (st2, now)" by (rule prod.exhaust)
  obtain st3 order where d3: "on_clock (mh_order h) st2 = (st3, order)" by (rule prod.exhaust)
  have r3: "hs_rooms st3 = hs_rooms st" using on_clock_sel [OF d1] on_clock_sel [OF d2] on_clock_sel [OF d3] by simp
  have r4: "hs_rooms (fst (on_clock (mh_order h) st')) = hs_rooms st'" for st'
    using on_clock_sel [of "mh_order h" st'] by (metis prod.collapse)
  show ?thesis
    by (simp add: handleJoinQueue_def Some d1 d2 d3 r3 r4 start_match_rooms case_prod_unfold Let_def split: option.split)
qed

lemma StartRoom_other: "StartRoom rooms code mid n = (rooms', r) \<Longrightarrow> c \<noteq> code \<Longrightarrow> rooms' c = rooms c"
  by (erule StartRoom_cases) auto

lemma JoinRoom_other: "JoinRoom rooms now code u name g = (rooms', r) \<Longrightarrow> c \<noteq> code \<Longrightarrow> rooms' c = rooms c"
  by (erule JoinRoom_cases) auto

lemma start_room_match_other: "c \<noteq> code \<Longrightarrow> hs_rooms (fst (start_room_match h u code room st)) c = hs_rooms st c"
  by (auto simp: start_room_match_def Let_def join_all_rooms sendQuestions_sel dest: StartRoom_other split: sum.split prod.split)

lemma JoinRoom_full: "rooms code = Some room \<Longrightarrow> room_full room \<Longrightarrow> JoinRoom rooms now code u name g = (rooms, Inl ''room full'')"
  by (simp add: JoinRoom_def room_full_def)

lemma handleJoinPrivate_full:
  assumes "hs_rooms st code = Some room" "room_full room" "decode_JoinPrivate payload = Some \<lparr>jp_RoomCode = code\<rparr>"
  shows "handleJoinPrivate h u name guest payload st = sendError u ErrCodeJoinFailed ''room full'' st"
  using assms by (simp add: handleJoinPrivate_def JoinRoom_full split: prod.split)

lemma handleJoinPrivate_keeps:
  assumes "hs_rooms st code = Some room" "room_full room"
  shows "hs_rooms (fst (handleJoinPrivate h u name guest payload st)) code = Some room"
proof (cases "decode_JoinPrivate payload")
  case None
  with assms show ?thesis by (simp add: handleJoinPrivate_def)
next
  case (Some req)
  show ?thesis
  proof (cases "jp_RoomCode req = code")
    case True
    with assms Some show ?thesis by (simp add: handleJoinPrivate_def JoinRoom_full split: prod.split)
  next
    case False
    obtain st1 now where d: "on_clock (ms_now (mh_service h)) st = (st1, now)" by (rule prod.exhaust)
    obtain rooms r where j: "JoinRoom (hs_rooms st) now (jp_RoomCode req) u name guest = (rooms, r)" by (rule prod.exhaust)
    have "rooms code = Some room" using JoinRoom_other [OF j] False assms(1) by simp
    with assms(1) False Some d j show ?thesis
      by (simp add: handleJoinPrivate_def start_room_match_other Let_def split: sum.split)
  qed
qed

lemma handleSubmitAnswer_rooms: "hs_rooms (fst (handleSubmitAnswer h u payload st)) = hs_rooms st"
  using on_clock_sel [of "ms_now (mh_service h)" st]
  by (simp add: handleSubmitAnswer_def case_prod_unfold Let_def split: option.split sum.split) (metis prod.collapse)

lemma handleMessage_keeps:
  assumes "hs_rooms st code = Some room" "room_full room"
  shows "hs_rooms (fst (handleMessage h u name guest msg st)) code = Some room"
  using assms handleJoinPrivate_keeps [OF assms]
  by (simp add: handleMessage_def Let_def handleJoinQueue_rooms handleCancelQueue_def handleAcceptBotFill_def handleReadyState_def
      handleSubmitAnswer_rooms handleLeaveMatch_def handleRequestProgress_def case_prod_unfold split: option.split sum.split)

lemma CreateRoom_keeps:
  "CreateRoom rooms rnd joined created req = Some (rooms', r) \<Longrightarrow> rooms code = Some room \<Longrightarrow> rooms' code = Some room"
  by (auto simp: CreateRoom_def CreateRoom_insert_def dest!: CreateRoom_pickD split: option.splits sum.splits)

lemma platform_step_keeps_full:
  assumes "platform_step h tab st st'" "hs_rooms st code = Some room" "room_full room"
  shows "hs_rooms st' code = Some room"
  using assms(1)
proof cases
  case (message u name guest msg e)
  with handleMessage_keeps [OF assms(2,3), of h u name guest msg] show ?thesis by simp
next
  case (room httpMethod claims body r)
  from HttpCreateRoom_cases [OF this] assms(2) show ?thesis by (auto dest: CreateRoom_keeps)
next
  case (finalised m e)
  with assms(2) show ?thesis
    by (auto simp: FinalizeAndBroadcastMatch_def on_hub_def case_prod_unfold Let_def split: sum.splits prod.splits)
qed (use assms(2) in \<open>simp_all add: open_connection_def close_connection_def\<close>)

lemma platform_steps_keep_full:
  "(platform_step h tab)\<^sup>*\<^sup>* st st' \<Longrightarrow> hs_rooms st code = Some room \<Longrightarrow> room_full room \<Longrightarrow> hs_rooms st' code = Some room"
  by (induction rule: rtranclp_induct) (blast intro: platform_step_keeps_full)+


subsection \<open>A platform on the server in memory\<close>

definition ex_h :: "(mem, unit, nat) Handler" where
  "ex_h = \<lparr>mh_service = ex_ms, mh_parse = (\<lambda>s. case atoi s of None \<Rightarrow> Inl ''invalid UUID'' | Some i \<Rightarrow> Inr (word_of_int i)),
     mh_rfc3339 = show_int, mh_order = (\<lambda>x. (x, \<lambda>m. sorted_list_of_set (dom m))), mh_grow = (\<lambda>n. 2 * n),
     mh_rnd = (\<lambda>x. (x, \<lambda>_. 0))\<rparr>"

text \<open>The cache has the pack of the match that the second player who joins is going to start.\<close>

definition ex_join_req :: PackRequest where
  "ex_join_req = ex_random_req\<lparr>pr_DifficultyCounts := getFixedDifficultyDistribution 10, pr_TotalQuestions := 10,
     pr_Seed := seed_hash ex_ms 22 0, pr_UserIDs := [Some 2, Some 1]\<rparr>"

definition ex_join_w :: "(mem, unit, nat) world" where
  "ex_join_w = ex_random_w\<lparr>w_redis := ex_mem\<lparr>mem_tab := [cache_key ex_join_req \<mapsto>
     (DPack \<lparr>resp_Questions = [], resp_Seed = [], resp_ExpiresAt = 0\<rparr>, None)]\<rparr>\<rparr>"

definition ex_s0 :: "(mem, unit, nat) HState" where
  "ex_s0 = \<lparr>hs_world = ex_join_w, hs_queue = NewQueueManager 10, hs_rooms = NewRoomManager, hs_hub = NewHub\<rparr>"

definition ex_s1 :: "(mem, unit, nat) HState" where
  "ex_s1 = open_connection 2 12 (open_connection 1 11 ex_s0)"

definition ex_s2 :: "(mem, unit, nat) HState" where
  "ex_s2 = fst (handleMessage ex_h 1 ''a'' False \<lparr>cm_Type = TypeJoinQueue, cm_Payload = Some JNull\<rparr> ex_s1)"

lemma ex_h_orders: "map_orders_ok ex_h"
  by (simp add: map_orders_ok_def ex_h_def enumerates_def)

lemma ex_s0_run: "platform_run ex_h mem_tab ex_s0"
  unfolding ex_s0_def by (rule platform_run.start) (use cache_key_not_match in \<open>auto simp: ex_join_w_def\<close>)

lemma ex_s1_run: "platform_run ex_h mem_tab ex_s1"
  unfolding ex_s1_def by (rule platform_run.step [OF platform_run.step [OF ex_s0_run platform_step.opened] platform_step.opened])

lemma ex_s2_run: "platform_run ex_h mem_tab ex_s2"
  unfolding ex_s2_def by (rule platform_run.step [OF ex_s1_run platform_step.message [OF prod.collapse [symmetric]]])

lemma decode_null [simp]: "decode_JoinQueue (Some JNull) = Some \<lparr>jq_QueueToken = [], jq_QuestionCount = 0, jq_Category = []\<rparr>"
  by (simp add: decode_JoinQueue_def object_fields_def string_field_def int_field_def)

lemma ex_s1_sel:
  "hs_world ex_s1 = ex_join_w" "hs_queue ex_s1 = NewQueueManager 10" "hs_rooms ex_s1 = NewRoomManager"
  "hub_connections (hs_hub ex_s1) = [1 \<mapsto> 11, 2 \<mapsto> 12]" "hub_conn (hs_hub ex_s1) 11 = NewConnection"
  "hub_conn (hs_hub ex_s1) 12 = NewConnection"
  by (auto simp: ex_s1_def ex_s0_def open_connection_def RegisterConnection_def NewHub_def)

lemma ex_s2_sel: "\<exists>p. waiting (hs_queue ex_s2) = [20 \<mapsto> p] \<and> wp_UserID p = 1 \<and> \<not> wp_IsGuest p \<and>
     normalizeCategory (wp_PreferredCategory p) = ''general''"
  "own_connections (hs_hub ex_s2)" "hs_world ex_s2 = ex_join_w\<lparr>w_ext := 21\<rparr>"
  "users_of (hs_hub ex_s2) = (\<lambda>m. [])" "inbox (hs_hub ex_s2) 2 = []" "accepts (hs_hub ex_s2) 2 = 256" "accepts (hs_hub ex_s2) 1 = 255"
proof -
  have own: "own_connections (hs_hub ex_s1)" by (auto simp: own_connections_def ex_s1_sel split: if_splits)
  have h1: "inbox (hs_hub ex_s1) 2 = []" "accepts (hs_hub ex_s1) 2 = 256" "accepts (hs_hub ex_s1) 1 = 256" "users_of (hs_hub ex_s1) = (\<lambda>m. [])"
    by (simp_all add: inbox_def accepts_def ex_s1_sel NewConnection_def fun_eq_iff)
      (simp add: users_of_def ex_s1_def ex_s0_def open_connection_def RegisterConnection_slices NewHub_def)
  have sel: "ms_uuid (mh_service ex_h) = (\<lambda>n. (Suc n, word_of_nat n))" "ms_now (mh_service ex_h) = (\<lambda>n. (n, 0))"
    "mh_order ex_h = (\<lambda>x. (x, \<lambda>m. sorted_list_of_set (dom m)))" by (simp_all add: ex_h_def ex_ms_def)
  define p where "p = queued_player \<lparr>mr_UserID = 1, mr_Username = ''a'', mr_IsGuest = False,
    mr_PreferredCategory = ''general'', mr_PreferredDifficulty = [], mr_BotOK = True\<rparr> 20 0"
  define st where "st = ex_s1\<lparr>hs_queue := \<lparr>waiting = [20 \<mapsto> p], botWaitSec = 10\<rparr>, hs_world := ex_join_w\<lparr>w_ext := 21\<rparr>\<rparr>"
  have st: "handleJoinQueue ex_h 1 ''a'' False (Some JNull) ex_s1 = send_user 1 (queue_update ex_h 20 0) st"
    "waiting (hs_queue st) = [20 \<mapsto> p]" "wp_UserID p = 1" "\<not> wp_IsGuest p" "normalizeCategory (wp_PreferredCategory p) = ''general''"
    "hs_hub st = hs_hub ex_s1" "hs_world st = ex_join_w\<lparr>w_ext := 21\<rparr>"
    by (simp_all add: handleJoinQueue_def on_clock_def on_ext_def sel ex_s1_sel ex_join_w_def ex_random_w_def Enqueue_def
        NewQueueManager_def Let_def GetPosition_def normalizeCategory_def st_def p_def)
  obtain st2 e where s: "send_user 1 (queue_update ex_h 20 0) st = (st2, e)" by (rule prod.exhaust)
  then have "ex_s2 = st2" using st(1) by (simp add: ex_s2_def handleMessage_def)
  then have "sent_to {1} [queue_update ex_h 20 0] (hs_hub ex_s1) (hs_hub ex_s2)" "hs_queue ex_s2 = hs_queue st" "hs_world ex_s2 = hs_world st"
    using send_user_sent [OF _ s] own st(6) by simp_all
  then show "\<exists>p. waiting (hs_queue ex_s2) = [20 \<mapsto> p] \<and> wp_UserID p = 1 \<and> \<not> wp_IsGuest p \<and>
     normalizeCategory (wp_PreferredCategory p) = ''general''" "own_connections (hs_hub ex_s2)"
    "hs_world ex_s2 = ex_join_w\<lparr>w_ext := 21\<rparr>" "users_of (hs_hub ex_s2) = (\<lambda>m. [])" "inbox (hs_hub ex_s2) 2 = []"
    "accepts (hs_hub ex_s2) 2 = 256" "accepts (hs_hub ex_s2) 1 = 255"
    using st(2-5,7) h1 by (auto simp: sent_to_def)
qed

lemma ex_join_match:
  assumes "wp_UserID (Player1 pair) = 2" "wp_UserID (Player2 pair) = 1" "\<not> wp_IsGuest (Player1 pair)" "\<not> wp_IsGuest (Player2 pair)"
  shows "\<exists>w' mt items. CreateRandomMatch ex_ms pair 10 15 ''general'' (ex_join_w\<lparr>w_ext := 22\<rparr>) = (w', Inr (mt, items)) \<and> m_ID mt = 22"
proof -
  have sel: "ms_redis ex_ms = mem_client" "ms_us ex_ms = dec_us" "ms_uuid ex_ms = (\<lambda>n. (Suc n, word_of_nat n))"
    "ms_now ex_ms = (\<lambda>n. (n, 0))" "ms_visit ex_ms = (\<lambda>n. (n, id))" "ms_scan ex_ms = (\<lambda>u. Inr (Some u))" "ms_q ex_ms = ex_qs"
    by (simp_all add: ex_ms_def)
  have w: "word_of_nat 22 = (22 :: uuid)" by simp
  have c: "qs_cache ex_qs = redis_cache (NewCache mem_client 0)" "qs_redis ex_qs = Some mem_client" by (simp_all add: ex_qs_def)
  have r: "\<lparr>pr_Category = ''general'', pr_DifficultyCounts = getFixedDifficultyDistribution 10, pr_TotalQuestions = 10,
     pr_Seed = seed_hash ex_ms 22 0, pr_PerQuestionSeconds = 15, pr_UserID = None, pr_UserIDs = [Some 2, Some 1],
     pr_MatchMode = ''random_1v1''\<rparr> = ex_join_req" by (simp add: ex_join_req_def ex_random_req_def mode_defs)
  show ?thesis
    by (simp add: CreateRandomMatch_def finish_create_def sel on_ext_def on_db_def on_redis_def w ex_join_w_def ex_random_w_def assms
        normalizeCategory_def r CreateMatch_def stmt_def db_error_def db_next_def ex_db_def ex_user_def user_ids_def Let_def random_params_def
        match_modes_def match_statuses_def mode_defs status_defs fk_ok_def prepare_match_def FetchPack_def c redis_cache_def
        NewCache_def Cache_Get_def mem_commands live_def mem_next_def ex_mem_def StorePlayerState_def StoreMatchQuestions_def initial_state_def CreatePlayerMatchState_def
        player_statuses_def player_status_defs dec.keys_disjoint save_history_def AddUserQuestionHistory_def created_match_def)
qed

subsection \<open>Properties\<close>



text \<open>The service does check the errors of \<open>pgtype.UUID.Scan\<close>: with a scan that rejects every \<open>uuid.UUID\<close>, as pgx v5
  documents, no match is ever created, and the two cases above are always the second one.\<close>

lemma rejected_scans_create_no_match:
  assumes "\<forall>u. \<exists>e. ms_scan s u = Inl e"
  shows "\<exists>e. snd (CreateRandomMatch s pair n sec cat w) = Inl (wrap ''scan uuid'' e)"
    "\<exists>e. snd (CreatePrivateMatch s code players n sec cat w) = Inl (wrap ''scan uuid'' e)"
proof -
  obtain f where f: "ms_scan s = (\<lambda>u. Inl (f u))" using choice [OF assms] by auto
  show "\<exists>e. snd (CreateRandomMatch s pair n sec cat w) = Inl (wrap ''scan uuid'' e)"
    "\<exists>e. snd (CreatePrivateMatch s code players n sec cat w) = Inl (wrap ''scan uuid'' e)"
    by (auto simp: CreateRandomMatch_def CreatePrivateMatch_def f Let_def split: prod.split)
qed

text \<open>When the match of a room cannot be created for the player who fills the room, the room is
  blocked: whatever happens afterwards, the room keeps waiting without a match, and everybody who
  tries to join it, the two players included, is told that it is full.\<close>

theorem failed_creation_blocks_room:
  assumes "hs_rooms st code = Some room" "pm_Status room = RoomStatusWaiting" "pm_MaxPlayers room = 2"
    and "length (pm_Players room) = 1" "pm_MatchID room = None" "u \<noteq> pm_HostID room" "rp_UserID (hd (pm_Players room)) \<noteq> u"
    and "decode_JoinPrivate payload = Some \<lparr>jp_RoomCode = code\<rparr>" "on_clock (ms_now (mh_service h)) st = (st1, now)"
    and "CreatePrivateMatch (mh_service h) code (map (\<lambda>p. p\<lparr>rp_JoinedAt := time_zero\<rparr>) (pm_Players room @
        [\<lparr>rp_UserID = u, rp_Username = name, rp_IsGuest = guest, rp_IsHost = False, rp_JoinedAt = now\<rparr>]))
      (pm_QuestionCount room) (pm_PerQuestionSeconds room) (pm_Category room) (hs_world st1) = (w, Inl err)"
    and "handleJoinPrivate h u name guest payload st = (st2, e)" "(platform_step h tab)\<^sup>*\<^sup>* st2 st3"
  shows "handleJoinPrivate h v name' guest' payload st3 = sendError v ErrCodeJoinFailed ''room full'' st3 \<and>
    (\<exists>room'. hs_rooms st3 code = Some room' \<and> pm_Status room' = RoomStatusWaiting \<and> pm_MatchID room' = None)"
proof -
  define room' where "room' = room\<lparr>pm_Players := pm_Players room @
    [\<lparr>rp_UserID = u, rp_Username = name, rp_IsGuest = guest, rp_IsHost = False, rp_JoinedAt = now\<rparr>]\<rparr>"
  obtain host where h: "pm_Players room = [host]" using assms(4) by (auto simp: length_Suc_conv)
  have j: "JoinRoom (hs_rooms st) now code u name guest = ((hs_rooms st)(code \<mapsto> room'), Inr room')"
    using assms(1-3,6,7) h by (simp add: JoinRoom_def room'_def Let_def)
  have rooms: "hs_rooms st1 = hs_rooms st" using on_clock_sel [OF assms(9)] by simp
  have "st2 = fst (sendError u ErrCodeMatchCreationFailed err (st1\<lparr>hs_rooms := (hs_rooms st)(code \<mapsto> room'), hs_world := w\<rparr>))"
    using assms(10,11) j
    by (simp add: handleJoinPrivate_def assms(5,6,8,9) start_room_match_def h room'_def split: prod.splits)
  then have "hs_rooms st2 code = Some room'" by simp
  moreover have full: "room_full room'" using assms(2,3) h by (simp add: room_full_def room'_def)
  ultimately have "hs_rooms st3 code = Some room'" using platform_steps_keep_full [OF assms(12)] by blast
  with full assms(2,5,8) show ?thesis by (simp add: handleJoinPrivate_full) (simp add: room'_def)
qed

lemma ex_private_fails:
  "\<exists>w err. CreatePrivateMatch ex_ms code (map (\<lambda>p. p\<lparr>rp_JoinedAt := time_zero\<rparr>) (pm_Players ex_room @ ps)) n sec cat
     (ex_random_w\<lparr>w_db := ex_db\<lparr>db_users := []\<rparr>\<rparr>) = (w, Inl err)"
proof -
  have sel: "ms_uuid ex_ms = (\<lambda>n. (Suc n, word_of_nat n))" "ms_now ex_ms = (\<lambda>n. (n, 0))" "ms_scan ex_ms = (\<lambda>u. Inr (Some u))"
    by (simp_all add: ex_ms_def)
  have "pm_Players ex_room = [\<lparr>rp_UserID = 1, rp_Username = ''h'', rp_IsGuest = False, rp_IsHost = True, rp_JoinedAt = 0\<rparr>]"
    by (simp add: ex_room_def new_room_def ex_room_req_def)
  then show ?thesis
    by (simp add: CreatePrivateMatch_def sel on_ext_def Let_def finish_create_def on_db_def ex_random_w_def CreateMatch_def
        stmt_def db_error_def db_next_def ex_db_def user_ids_def private_params_def match_modes_def match_statuses_def mode_defs status_defs fk_ok_def)
qed

theorem failed_creation_blocks_room_witness:
  "\<exists>st. handleJoinPrivate ex_h 3 ''c'' True (Some (JObject [(''room_code'', JString ''100000'')])) st =
     sendError 3 ErrCodeJoinFailed ''room full'' st \<and> hs_rooms st ''100000'' \<noteq> None"
proof -
  let ?st = "ex_s0\<lparr>hs_rooms := [''100000'' \<mapsto> ex_room], hs_world := ex_random_w\<lparr>w_db := ex_db\<lparr>db_users := []\<rparr>\<rparr>\<rparr>" and ?p = "Some (JObject [(''room_code'', JString ''100000'')])"
  have d: "decode_JoinPrivate ?p = Some \<lparr>jp_RoomCode = ''100000''\<rparr>"
    by (simp add: decode_JoinPrivate_def object_fields_def string_field_def into_string_def)
  have c: "on_clock (ms_now (mh_service ex_h)) ?st = (?st, 0)"
    by (simp add: on_clock_def on_ext_def ex_h_def ex_ms_def)
  have s: "mh_service ex_h = ex_ms" "hs_world ?st = ex_random_w\<lparr>w_db := ex_db\<lparr>db_users := []\<rparr>\<rparr>" by (simp_all add: ex_h_def ex_s0_def)
  obtain w err where f: "CreatePrivateMatch (mh_service ex_h) ''100000'' (map (\<lambda>p. p\<lparr>rp_JoinedAt := time_zero\<rparr>) (pm_Players ex_room @
        [\<lparr>rp_UserID = 2, rp_Username = ''b'', rp_IsGuest = True, rp_IsHost = False, rp_JoinedAt = 0\<rparr>]))
      (pm_QuestionCount ex_room) (pm_PerQuestionSeconds ex_room) (pm_Category ex_room) (hs_world ?st) = (w, Inl err)"
    unfolding s using ex_private_fails by blast
  obtain st2 e where h: "handleJoinPrivate ex_h 2 ''b'' True ?p ?st = (st2, e)" by (rule prod.exhaust)
  have r: "pm_Status ex_room = RoomStatusWaiting" "pm_MaxPlayers ex_room = 2" "length (pm_Players ex_room) = 1" "pm_MatchID ex_room = None"
    "2 \<noteq> pm_HostID ex_room" "rp_UserID (hd (pm_Players ex_room)) \<noteq> 2"
    by (simp_all add: ex_room_def new_room_def ex_room_req_def)
  from failed_creation_blocks_room [OF _ r d c f h rtranclp.rtrancl_refl, where v = 3 and name' = "''c''" and guest' = True]
  show ?thesis by auto
qed

text \<open>C36: A room created over HTTP gets a new six-digit code, and asking for that code, with or without
  a slash behind it, shows the same room: one player, the host, and one free place.\<close>

theorem created_room_is_shown:
  assumes "\<And>x i. snd (mh_rnd h x) i < 900000" "HttpCreateRoom h httpMethod claims body st = Some (st', Inr (status, resp))"
  shows "status = 201 \<and> hs_rooms st (rs_room_code resp) = None \<and> rs_slots_remaining resp = 1 \<and> rs_status resp = RoomStatusWaiting \<and>
    (\<exists>host. rs_players resp = [host] \<and> pq_is_host host) \<and>
    HttpGetRoom h ''GET'' (''/v1/rooms/'' @ rs_room_code resp) st' = Inr (200, resp) \<and>
    HttpGetRoom h ''GET'' (''/v1/rooms/'' @ rs_room_code resp @ ''/'') st' = Inr (200, resp)"
proof -
  from HttpCreateRoom_cases [OF assms(2)] obtain rnd joined created cl req rooms x st1 where
    c: "validateCreateRoomRequest req = None"
      "CreateRoom (hs_rooms st) rnd joined created (room_request cl req) = Some (rooms, x)" "st' = st1\<lparr>hs_rooms := rooms\<rparr>"
      "rnd = snd (mh_rnd h (w_ext (hs_world st)))"
      "Inr (status, resp) = (case x of Inl e \<Rightarrow> Inl (RespondInternalError e) | Inr (code, room) \<Rightarrow> Inr (201, roomToResponse h code room))"
    by auto
  then obtain code room where x: "x = Inr (code, room)" by (cases x) auto
  with c(2) have pick: "CreateRoom_pick (hs_rooms st) rnd joined created (room_request cl req) = Some (Inr (code, room))"
    "rooms = (hs_rooms st)(code \<mapsto> room)"
    by (auto simp: CreateRoom_def CreateRoom_insert_def split: option.splits sum.splits)
  then have gen: "generateRoomCode (hs_rooms st) rnd = Some code"
    by (auto simp: CreateRoom_pick_def split: if_splits option.splits)
  then obtain j where j: "code = pad6 (100000 + rnd j)" unfolding generateRoomCode_def using code_loop_Some by blast
  then have six: "length code = 6" "list_all is_digit code" using assms(1) c(4) pad6_six [of "100000 + rnd j"] pad6_digits by simp_all
  have last: "code \<noteq> []" "\<not> suffix ''/'' code"
    using six by (auto simp: suffix_def is_digit_def)
  have room: "room = new_room (room_request cl req) code joined created" "hs_rooms st code = None"
    using CreateRoom_pickD [OF pick(1)] by simp_all
  have resp: "status = 201" "resp = roomToResponse h code room" using c(5) x by simp_all
  have get: "HttpGetRoom h ''GET'' path st' = Inr (200, resp)" if "trim_suffix ''/'' (trim_prefix ''/v1/rooms/'' path) = code" for path
    using six c(3) pick(2) resp(2) by (simp add: HttpGetRoom_def that GetRoom_def)
  have paths: "trim_suffix ''/'' (trim_prefix ''/v1/rooms/'' (''/v1/rooms/'' @ code)) = code"
    "trim_suffix ''/'' (trim_prefix ''/v1/rooms/'' (''/v1/rooms/'' @ code @ ''/'')) = code"
    using last by (simp_all add: trim_prefix_def trim_suffix_def)
  from c(1) have mx: "cr_MaxPlayers req = 2" by (simp add: validateCreateRoomRequest_def split: if_splits)
  have sel: "rs_room_code resp = code" "rs_slots_remaining resp = 1" "rs_status resp = RoomStatusWaiting"
    "\<exists>host. rs_players resp = [host] \<and> pq_is_host host"
    using mx by (simp_all add: resp(2) roomToResponse_def room(1) new_room_def room_request_def)
  show ?thesis unfolding sel(1) using resp(1) room(2) sel get [OF paths(1)] get [OF paths(2)] by simp
qed


theorem created_room_is_shown_witness:
  "\<exists>st' resp. HttpCreateRoom ex_h ''POST'' (Some \<lparr>cl_UserID = 1, cl_Email = [], cl_Username = ''h'', cl_UserType = ''registered'',
       cl_IsGuest = False, cl_Issuer = [], cl_Subject = [], cl_ExpiresAt = 0, cl_IssuedAt = 0, cl_NotBefore = 0\<rparr>)
       (Some (JObject [(''match_name'', JString ''m''), (''max_players'', JInt 2), (''question_count'', JInt 5),
         (''per_question_seconds'', JInt 15)])) ex_s0 = Some (st', Inr (201, resp)) \<and>
     HttpGetRoom ex_h ''GET'' (''/v1/rooms/'' @ rs_room_code resp) st' = Inr (200, resp)"
proof -
  let ?c = "\<lparr>cl_UserID = 1, cl_Email = [], cl_Username = ''h'', cl_UserType = ''registered'', cl_IsGuest = False, cl_Issuer = [],
     cl_Subject = [], cl_ExpiresAt = 0, cl_IssuedAt = 0, cl_NotBefore = 0\<rparr>"
  let ?b = "Some (JObject [(''match_name'', JString ''m''), (''max_players'', JInt 2), (''question_count'', JInt 5),
     (''per_question_seconds'', JInt 15)])"
  have neq: "length s \<noteq> length t \<Longrightarrow> \<not> equal_fold s t" for s t by (metis equal_fold_def length_to_lower)
  have d: "decode_CreateRoom ?b = Some \<lparr>cr_MatchName = ''m'', cr_MaxPlayers = 2, cr_QuestionCount = 5, cr_PerQuestionSeconds = 15, cr_Category = []\<rparr>"
    by (simp add: decode_CreateRoom_def object_fields_def string_field_def int_field_def into_string_def into_int_def neq)
  have sel: "mh_rnd ex_h = (\<lambda>x. (x, \<lambda>_. 0))" "ms_now (mh_service ex_h) = (\<lambda>n. (n, 0))" by (simp_all add: ex_h_def ex_ms_def)
  have g: "generateRoomCode NewRoomManager (\<lambda>_. 0) = Some ''100000''"
    unfolding generateRoomCode_def by (rule ex_code) (simp add: NewRoomManager_def)
  obtain st' resp where c: "HttpCreateRoom ex_h ''POST'' (Some ?c) ?b ex_s0 = Some (st', Inr (201, resp))"
    by (simp add: HttpCreateRoom_def d validateCreateRoomRequest_def on_clock_def on_ext_def sel ex_s0_def CreateRoom_def
        CreateRoom_pick_def room_request_def g)
  from created_room_is_shown [OF _ c] c show ?thesis by (auto simp: sel)
qed

end
