(* ===== verification/UserDB.thy ===== *)
theory UserDB
  imports Database
begin

section \<open>The queries on users (internal/db/sqlc/users.sql.go, repository/user_repo.go)\<close>

text \<open>
  The statements on the table \<open>users\<close>, whose rows theory Database has: identifiers and user names
  are unique, e-mail addresses are unique up to the case of letters (\<open>CITEXT\<close>), NULL excepted, and
  a user type is 'registered' or 'guest'. A \<open>:one\<close> statement without a row is an error. The
  repository forwards to the statements; its conversions of a \<open>uuid.UUID\<close> by \<open>pgtype.UUID.Scan\<close>,
  whose errors it drops, are the parameter \<open>scan\<close>: NULL when they fail.

  The lemmas: the constraints hold in every reachable table, and what each statement changes.
\<close>

subsection \<open>Columns\<close>

definition same_email :: "string option \<Rightarrow> string option \<Rightarrow> bool" where
  "same_email a b = (case (a, b) of (Some x, Some y) \<Rightarrow> equal_fold x y | _ \<Rightarrow> False)"

definition same_text :: "string option \<Rightarrow> string option \<Rightarrow> bool" where
  "same_text a b = (case (a, b) of (Some x, Some y) \<Rightarrow> x = y | _ \<Rightarrow> False)"

definition has_id :: "pg_uuid \<Rightarrow> UserRow \<Rightarrow> bool" where
  "has_id i r \<longleftrightarrow> i = Some (du_UserID r)"

definition user_types :: "string list" where
  "user_types = [''registered'', ''guest'']"

subsection \<open>Statements\<close>

record CreateUserParams =
  cu_Email :: "string option"
  cu_PasswordHash :: "string option"
  cu_Username :: "string option"
  cu_UserType :: "string option"
  cu_Metadata :: "(string \<times> string) list option"

definition user_row :: "CreateUserParams \<Rightarrow> string \<Rightarrow> uuid \<Rightarrow> instant \<Rightarrow> UserRow" where
  "user_row arg userType i now =
     \<lparr>du_UserID = i, du_Email = cu_Email arg, du_PasswordHash = cu_PasswordHash arg, du_Username = cu_Username arg,
      du_UserType = userType, du_Status = ''active'', du_CreatedAt = now, du_UpdatedAt = now, du_LastLoginAt = None,
      du_Metadata = (case cu_Metadata arg of None \<Rightarrow> [] | Some m \<Rightarrow> m)\<rparr>"

definition CreateUser :: "CreateUserParams \<Rightarrow> 'e DB \<Rightarrow> 'e DB \<times> UserRow res" where
  "CreateUser arg = stmt (\<lambda>d.
     let i = db_uuids d (db_drawn d); d = d\<lparr>db_drawn := db_drawn d + 1\<rparr>
     in case cu_UserType arg of
          None \<Rightarrow> (d, Inl ''null value in column user_type violates not-null constraint'')
        | Some t \<Rightarrow>
            if t \<notin> set user_types then (d, Inl ''violates check constraint users_user_type_check'')
            else if list_ex (has_id (Some i)) (db_users d) then (d, Inl ''violates unique constraint users_pkey'')
            else if list_ex (\<lambda>r. same_email (du_Email r) (cu_Email arg)) (db_users d)
              then (d, Inl ''violates unique constraint users_email_key'')
            else if list_ex (\<lambda>r. same_text (du_Username r) (cu_Username arg)) (db_users d)
              then (d, Inl ''violates unique constraint users_username_key'')
            else let row = user_row arg t i (db_now d) in (d\<lparr>db_users := db_users d @ [row]\<rparr>, Inr row))"

definition one_user :: "(UserRow \<Rightarrow> bool) \<Rightarrow> 'e DB \<Rightarrow> 'e DB \<times> UserRow res" where
  "one_user p = stmt (\<lambda>d. (d, case List.find p (db_users d) of None \<Rightarrow> Inl no_rows | Some r \<Rightarrow> Inr r))"

definition GetUserByEmail :: "string option \<Rightarrow> 'e DB \<Rightarrow> 'e DB \<times> UserRow res" where
  "GetUserByEmail email = one_user (\<lambda>r. same_email (du_Email r) email)"

definition GetUserByID :: "pg_uuid \<Rightarrow> 'e DB \<Rightarrow> 'e DB \<times> UserRow res" where
  "GetUserByID userID = one_user (has_id userID)"

definition GetUserByUsername :: "string option \<Rightarrow> 'e DB \<Rightarrow> 'e DB \<times> UserRow res" where
  "GetUserByUsername username = one_user (\<lambda>r. same_text (du_Username r) username)"

definition update_users :: "(UserRow \<Rightarrow> bool) \<Rightarrow> (UserRow \<Rightarrow> UserRow) \<Rightarrow> 'e DB \<Rightarrow> 'e DB" where
  "update_users p f d = d\<lparr>db_users := map (\<lambda>r. if p r then f r else r) (db_users d)\<rparr>"

text \<open>\<open>UPDATE ... RETURNING\<close> on the row that \<open>p\<close> selects by its key; \<open>clash\<close> is the constraint that
  another row would violate.\<close>

definition update_returning ::
  "(UserRow \<Rightarrow> bool) \<Rightarrow> (instant \<Rightarrow> UserRow \<Rightarrow> UserRow) \<Rightarrow> (UserRow \<Rightarrow> bool) \<Rightarrow> err \<Rightarrow> 'e DB \<Rightarrow> 'e DB \<times> UserRow res" where
  "update_returning p f clash e = stmt (\<lambda>d.
     case List.find p (db_users d) of
       None \<Rightarrow> (d, Inl no_rows)
     | Some r \<Rightarrow>
         if list_ex (\<lambda>q. \<not> p q \<and> clash q) (db_users d) then (d, Inl e)
         else (update_users p (f (db_now d)) d, Inr (f (db_now d) r)))"

record PromoteGuestToRegisteredParams =
  pg_Email :: "string option"
  pg_PasswordHash :: "string option"
  pg_Username :: "string option"
  pg_UserID :: pg_uuid

definition PromoteGuestToRegistered :: "PromoteGuestToRegisteredParams \<Rightarrow> 'e DB \<Rightarrow> 'e DB \<times> UserRow res" where
  "PromoteGuestToRegistered arg = update_returning (has_id (pg_UserID arg))
     (\<lambda>now r. r\<lparr>du_Email := pg_Email arg, du_PasswordHash := pg_PasswordHash arg, du_Username := pg_Username arg,
        du_UserType := ''registered'', du_UpdatedAt := now\<rparr>)
     (\<lambda>q. same_email (du_Email q) (pg_Email arg) \<or> same_text (du_Username q) (pg_Username arg))
     ''violates unique constraint''"

definition UpdatePasswordRow :: "pg_uuid \<Rightarrow> string option \<Rightarrow> 'e DB \<Rightarrow> 'e DB \<times> unit res" where
  "UpdatePasswordRow userID hash = stmt (\<lambda>d.
     (update_users (has_id userID) (\<lambda>r. r\<lparr>du_PasswordHash := hash, du_UpdatedAt := db_now d\<rparr>) d, Inr ()))"

definition UpdateUserLogin :: "pg_uuid \<Rightarrow> 'e DB \<Rightarrow> 'e DB \<times> unit res" where
  "UpdateUserLogin userID = stmt (\<lambda>d.
     (update_users (has_id userID) (\<lambda>r. r\<lparr>du_LastLoginAt := Some (db_now d), du_UpdatedAt := db_now d\<rparr>) d, Inr ()))"

definition UpdateUsernameRow :: "pg_uuid \<Rightarrow> string option \<Rightarrow> 'e DB \<Rightarrow> 'e DB \<times> UserRow res" where
  "UpdateUsernameRow userID username = update_returning (\<lambda>r. has_id userID r \<and> du_Username r = None)
     (\<lambda>now r. r\<lparr>du_Username := username, du_UpdatedAt := now\<rparr>) (\<lambda>q. same_text (du_Username q) username)
     ''violates unique constraint users_username_key''"

subsection \<open>The repository\<close>

definition scan_uuid :: "(uuid \<Rightarrow> pg_uuid res) \<Rightarrow> uuid \<Rightarrow> pg_uuid" where
  "scan_uuid scan u = (case scan u of Inl e \<Rightarrow> None | Inr pg \<Rightarrow> pg)"

definition UpdateLogin :: "(uuid \<Rightarrow> pg_uuid res) \<Rightarrow> uuid \<Rightarrow> 'e DB \<Rightarrow> 'e DB \<times> unit res" where
  "UpdateLogin scan userID = UpdateUserLogin (scan_uuid scan userID)"

definition UpdatePassword :: "(uuid \<Rightarrow> pg_uuid res) \<Rightarrow> uuid \<Rightarrow> string \<Rightarrow> 'e DB \<Rightarrow> 'e DB \<times> unit res" where
  "UpdatePassword scan userID passwordHash = UpdatePasswordRow (scan_uuid scan userID) (Some passwordHash)"

definition GetByUsername :: "string \<Rightarrow> 'e DB \<Rightarrow> 'e DB \<times> UserRow res" where
  "GetByUsername username = GetUserByUsername (Some username)"

definition UpdateUsername :: "(uuid \<Rightarrow> pg_uuid res) \<Rightarrow> uuid \<Rightarrow> string \<Rightarrow> 'e DB \<Rightarrow> 'e DB \<times> UserRow res" where
  "UpdateUsername scan userID username = UpdateUsernameRow (scan_uuid scan userID) (Some username)"

subsection \<open>The constraints of the table\<close>

lemma same_email_sym: "same_email a b \<longleftrightarrow> same_email b a"
  by (auto simp: same_email_def equal_fold_def split: option.split)

lemma same_text_sym: "same_text a b \<longleftrightarrow> same_text b a"
  by (auto simp: same_text_def split: option.split)

lemma same_email_trans: "same_email a b \<Longrightarrow> same_email b c \<Longrightarrow> same_email a c"
  by (auto simp: same_email_def equal_fold_def split: option.splits)

lemma same_text_iff: "same_text a b \<longleftrightarrow> (\<exists>x. a = Some x \<and> b = Some x)"
  by (auto simp: same_text_def split: option.split)

text \<open>Two different rows share no identifier, no e-mail and no user name; every type is known.\<close>

definition apart :: "UserRow \<Rightarrow> UserRow \<Rightarrow> bool" where
  "apart r q \<longleftrightarrow> du_UserID r \<noteq> du_UserID q \<and> \<not> same_email (du_Email r) (du_Email q) \<and>
     \<not> same_text (du_Username r) (du_Username q)"

definition users_ok :: "UserRow list \<Rightarrow> bool" where
  "users_ok rows \<longleftrightarrow> distinct (map du_UserID rows) \<and>
     (\<forall>r \<in> set rows. du_UserType r \<in> set user_types \<and> (\<forall>q \<in> set rows. du_UserID r \<noteq> du_UserID q \<longrightarrow> apart r q))"

lemma apart_sym: "apart r q \<longleftrightarrow> apart q r"
  by (auto simp: apart_def same_email_sym same_text_sym)

lemma users_ok_Nil [simp]: "users_ok []"
  by (simp add: users_ok_def)

lemma users_ok_unique: "users_ok rows \<Longrightarrow> r \<in> set rows \<Longrightarrow> q \<in> set rows \<Longrightarrow> du_UserID r = du_UserID q \<Longrightarrow> r = q"
  by (auto simp: users_ok_def dest: inj_onD [of du_UserID "set rows"] simp: distinct_map)

lemma users_ok_apart: "users_ok rows \<Longrightarrow> r \<in> set rows \<Longrightarrow> q \<in> set rows \<Longrightarrow> r \<noteq> q \<Longrightarrow> apart r q"
  using users_ok_unique [of rows r q] by (auto simp: users_ok_def)

lemma users_ok_snoc:
  assumes "users_ok rows" "\<And>q. q \<in> set rows \<Longrightarrow> apart q r" "du_UserType r \<in> set user_types"
  shows "users_ok (rows @ [r])"
  using assms apart_sym [of r] by (auto simp: users_ok_def apart_def)

text \<open>An update of one row by its identifier that keeps it apart from the others.\<close>

lemma users_ok_map:
  assumes ok: "users_ok rows" and p: "\<And>r. p r \<Longrightarrow> du_UserID r = i"
    and f: "\<And>r. du_UserID (f r) = du_UserID r" "\<And>r. r \<in> set rows \<Longrightarrow> p r \<Longrightarrow> du_UserType (f r) \<in> set user_types"
    and a: "\<And>r q. r \<in> set rows \<Longrightarrow> q \<in> set rows \<Longrightarrow> p r \<Longrightarrow> r \<noteq> q \<Longrightarrow> apart (f r) q"
  shows "users_ok (map (\<lambda>r. if p r then f r else r) rows)"
proof -
  let ?g = "\<lambda>r. if p r then f r else r"
  have ids: "map du_UserID (map ?g rows) = map du_UserID rows" using f(1) by simp
  have "apart (?g r) (?g q)" if "r \<in> set rows" "q \<in> set rows" "du_UserID (?g r) \<noteq> du_UserID (?g q)" for r q
  proof -
    have ne: "r \<noteq> q" "du_UserID r \<noteq> du_UserID q" using that f(1) by (auto split: if_splits)
    then have "\<not> (p r \<and> p q)" using p by metis
    then show ?thesis using a [of r q] a [of q r] that(1,2) ne users_ok_apart [OF ok that(1,2)] apart_sym by auto
  qed
  then have A: "\<forall>r \<in> ?g ` set rows. \<forall>q \<in> ?g ` set rows. du_UserID r \<noteq> du_UserID q \<longrightarrow> apart r q" by blast
  have t: "\<forall>r \<in> set rows. du_UserType r \<in> set user_types" using ok by (simp add: users_ok_def)
  have T: "du_UserType (?g r) \<in> set user_types" if "r \<in> set rows" for r
    using f(2) [OF that] bspec [OF t that] by (simp only: split: if_split) blast
  have T': "\<forall>r \<in> ?g ` set rows. du_UserType r \<in> set user_types" using T by blast
  have d: "distinct (map du_UserID rows)" using ok by (simp add: users_ok_def)
  show ?thesis unfolding users_ok_def ids set_map using A T' d by blast
qed

lemma find_Some: "List.find p xs = Some x \<Longrightarrow> x \<in> set xs \<and> p x"
  by (auto simp: find_Some_iff)

lemma find_unique: "users_ok rows \<Longrightarrow> r \<in> set rows \<Longrightarrow> has_id (Some (du_UserID r)) r \<and> List.find (has_id (Some (du_UserID r))) rows = Some r"
proof -
  assume ok: "users_ok rows" "r \<in> set rows"
  have "List.find (has_id (Some (du_UserID r))) rows \<noteq> None" using ok(2) by (auto simp: find_None_iff has_id_def)
  then obtain q where q: "List.find (has_id (Some (du_UserID r))) rows = Some q" by blast
  from find_Some [OF q] have "q \<in> set rows" "du_UserID q = du_UserID r" by (simp_all add: has_id_def)
  from users_ok_unique [OF ok(1) this(1) ok(2) this(2)] q show ?thesis by (simp add: has_id_def)
qed

lemma find_email:
  assumes "users_ok rows" "r \<in> set rows" "same_email (du_Email r) e"
  shows "List.find (\<lambda>q. same_email (du_Email q) e) rows = Some r"
proof -
  obtain q where q: "List.find (\<lambda>q. same_email (du_Email q) e) rows = Some q"
    using assms(2,3) by (cases "List.find (\<lambda>q. same_email (du_Email q) e) rows") (auto simp: find_None_iff)
  have "q = r"
    using users_ok_apart [OF assms(1) _ assms(2), of q] find_Some [OF q] assms(3) same_email_trans same_email_sym
    unfolding apart_def by metis
  with q show ?thesis by simp
qed

lemma find_username:
  assumes "users_ok rows" "r \<in> set rows" "du_Username r = Some n"
  shows "List.find (\<lambda>q. same_text (du_Username q) (Some n)) rows = Some r"
proof -
  obtain q where q: "List.find (\<lambda>q. same_text (du_Username q) (Some n)) rows = Some q"
    using assms(2,3) by (cases "List.find (\<lambda>q. same_text (du_Username q) (Some n)) rows") (auto simp: find_None_iff same_text_iff)
  have "q = r"
    using users_ok_apart [OF assms(1) _ assms(2), of q] find_Some [OF q] assms(3) by (auto simp: apart_def same_text_iff)
  with q show ?thesis by simp
qed

subsection \<open>What the statements change\<close>

lemma one_user_cases:
  assumes "one_user p d = (d', r)"
  shows "d' = db_next d \<and> (case r of Inr row \<Rightarrow> db_error d = None \<and> List.find p (db_users d) = Some row
    | Inl e \<Rightarrow> db_error d = Some e \<or> List.find p (db_users d) = None)"
  using assms by (auto simp: one_user_def stmt_def split: option.splits)

lemma update_users_sel [simp]:
  "db_users (update_users p f d) = map (\<lambda>r. if p r then f r else r) (db_users d)"
  "db_error (update_users p f d) = db_error d" "db_now (update_users p f d) = db_now d"
  by (simp_all add: update_users_def db_error_def)

lemma CreateUser_cases:
  assumes "CreateUser arg d = (d', r)"
  shows "case r of Inl e \<Rightarrow> db_users d' = db_users d
    | Inr row \<Rightarrow> db_error d = None \<and> db_users d' = db_users d @ [row] \<and>
        (\<exists>t. cu_UserType arg = Some t \<and> t \<in> set user_types \<and> row = user_row arg t (db_uuids d (db_drawn d)) (db_now d)) \<and>
        (\<forall>q \<in> set (db_users d). apart q row)"
  using assms
  by (auto simp: CreateUser_def stmt_def Let_def list_ex_iff has_id_def apart_def user_row_def eq_commute [of "db_uuids d (db_drawn d)"]
      split: option.splits if_splits)

lemma CreateUser_ok:
  assumes "users_ok (db_users d)" "CreateUser arg d = (d', r)"
  shows "users_ok (db_users d')"
proof (cases r)
  case (Inl e)
  with CreateUser_cases [OF assms(2)] assms(1) show ?thesis by simp
next
  case (Inr row)
  with CreateUser_cases [OF assms(2)] obtain t where
    c: "db_users d' = db_users d @ [row]" "\<forall>q \<in> set (db_users d). apart q row" "t \<in> set user_types"
      "row = user_row arg t (db_uuids d (db_drawn d)) (db_now d)" by auto
  then show ?thesis using users_ok_snoc [OF assms(1), of row] by (simp add: user_row_def)
qed

lemma UpdatePasswordRow_users:
  "UpdatePasswordRow u h d = (d', r) \<Longrightarrow> db_users d' = db_users d \<or> (r = Inr () \<and>
     db_users d' = map (\<lambda>q. if has_id u q then q\<lparr>du_PasswordHash := h, du_UpdatedAt := db_now d\<rparr> else q) (db_users d))"
  by (auto simp: UpdatePasswordRow_def stmt_def split: option.splits)

lemma UpdateUserLogin_users:
  "UpdateUserLogin u d = (d', r) \<Longrightarrow> db_users d' = db_users d \<or>
     db_users d' = map (\<lambda>q. if has_id u q then q\<lparr>du_LastLoginAt := Some (db_now d), du_UpdatedAt := db_now d\<rparr> else q) (db_users d)"
  by (auto simp: UpdateUserLogin_def stmt_def split: option.splits)

lemma UpdateUsernameRow_users:
  assumes "UpdateUsernameRow u (Some n) d = (d', r)"
  shows "db_users d' = db_users d \<and> (\<exists>e. r = Inl e) \<or>
    (\<exists>q \<in> set (db_users d). has_id u q \<and> du_Username q = None \<and> r = Inr (q\<lparr>du_Username := Some n, du_UpdatedAt := db_now d\<rparr>) \<and>
      (\<forall>x \<in> set (db_users d). has_id u x \<and> du_Username x = None \<or> du_Username x \<noteq> Some n) \<and>
      db_users d' = map (\<lambda>q. if has_id u q \<and> du_Username q = None then q\<lparr>du_Username := Some n, du_UpdatedAt := db_now d\<rparr> else q) (db_users d))"
  using assms
  by (auto simp: UpdateUsernameRow_def update_returning_def stmt_def list_ex_iff same_text_iff
      dest!: find_Some split: option.splits if_splits)

text \<open>Rewriting columns that no constraint speaks of.\<close>

lemma users_ok_other_columns:
  assumes "users_ok rows" "\<And>r. du_UserID (f r) = du_UserID r \<and> du_Email (f r) = du_Email r \<and>
      du_Username (f r) = du_Username r \<and> du_UserType (f r) = du_UserType r"
  shows "users_ok (map (\<lambda>r. if has_id u r then f r else r) rows)"
proof (cases u)
  case None
  with assms(1) show ?thesis by (simp add: has_id_def)
next
  case (Some i)
  show ?thesis
  proof (rule users_ok_map [OF assms(1), where i = i])
    fix r q assume "r \<in> set rows" "q \<in> set rows" "r \<noteq> q"
    with users_ok_apart [OF assms(1)] assms(2) show "apart (f r) q" by (simp add: apart_def)
  qed (use assms Some in \<open>auto simp: has_id_def users_ok_def\<close>)
qed

lemma UpdateUsernameRow_ok:
  assumes ok: "users_ok (db_users d)" and u: "UpdateUsernameRow u (Some n) d = (d', r)"
  shows "users_ok (db_users d')"
  using UpdateUsernameRow_users [OF u]
proof (elim disjE bexE conjE)
  fix q assume q: "q \<in> set (db_users d)" "has_id u q" "du_Username q = None"
    and free: "\<forall>x \<in> set (db_users d). has_id u x \<and> du_Username x = None \<or> du_Username x \<noteq> Some n"
    and d': "db_users d' = map (\<lambda>q. if has_id u q \<and> du_Username q = None then q\<lparr>du_Username := Some n, du_UpdatedAt := db_now d\<rparr> else q) (db_users d)"
  show ?thesis unfolding d'
  proof (rule users_ok_map [OF ok, where i = "du_UserID q"])
    fix r x assume "r \<in> set (db_users d)" "x \<in> set (db_users d)" "r \<noteq> x" and "has_id u r \<and> du_Username r = None"
    note a = users_ok_apart [OF ok \<open>r \<in> set (db_users d)\<close> \<open>x \<in> set (db_users d)\<close> \<open>r \<noteq> x\<close>]
    have "\<not> has_id u x" using a \<open>has_id u r \<and> du_Username r = None\<close> by (auto simp: apart_def has_id_def)
    with free \<open>x \<in> set (db_users d)\<close> have "du_Username x \<noteq> Some n" by blast
    with a show "apart (r\<lparr>du_Username := Some n, du_UpdatedAt := db_now d\<rparr>) x" by (simp add: apart_def same_text_iff)
  qed (use ok q in \<open>auto simp: has_id_def users_ok_def\<close>)
qed (use ok in simp)

end
