(* ===== verification/Auth.thy ===== *)
theory Auth
  imports UserDB Questions Jwt "HOL-Library.Monad_Syntax"
begin

section \<open>The authentication service (internal/auth/service.go, password.go, email.go)\<close>

text \<open>
  Accounts are rows of the table \<open>users\<close>; guests live in their tokens and in a key of Redis only.
  A service is its token manager, its optional Redis client and e-mail service, and the code from
  outside the repository that it calls: the JWT library, \<open>uuid.String\<close>, \<open>uuid.Parse\<close>, \<open>uuid.New\<close>,
  \<open>pgtype.UUID.Scan\<close> of a \<open>uuid.UUID\<close>, bcrypt, the clock, the random sources, and \<open>smtp.SendMail\<close>.
  Logging is left out. Scanning a string into a \<open>pgtype.Text\<close> makes it valid.

  Properties are in theory Accounts.
\<close>

subsection \<open>Types\<close>

record AuthUser =
  au_ID :: uuid
  au_Email :: "string option"
  au_Username :: string
  au_UserType :: string
  au_IsGuest :: bool

record TokenPair =
  tp_AccessToken :: string
  tp_RefreshToken :: string
  tp_ExpiresIn :: int

record RegisterRequest =
  rg_Email :: string
  rg_Password :: string

record LoginRequest =
  li_Email :: string
  li_Password :: string

record GuestRequest =
  gr_DeviceFingerprint :: string

record ConvertGuestRequest =
  cg_GuestID :: uuid
  cg_Email :: string
  cg_Password :: string

record EmailConfig =
  ec_SMTPHost :: string
  ec_SMTPPort :: int
  ec_SMTPUsername :: string
  ec_SMTPPassword :: string
  ec_FromEmail :: string

record EmailService =
  em_smtpHost :: string
  em_smtpPort :: int
  em_smtpUsername :: string
  em_smtpPassword :: string
  em_fromEmail :: string

definition NewEmailService :: "EmailConfig \<Rightarrow> EmailService" where
  "NewEmailService cfg =
     \<lparr>em_smtpHost = ec_SMTPHost cfg, em_smtpPort = ec_SMTPPort cfg, em_smtpUsername = ec_SMTPUsername cfg,
      em_smtpPassword = ec_SMTPPassword cfg, em_fromEmail = ec_FromEmail cfg\<rparr>"

text \<open>The mail that \<open>smtp.SendMail\<close> is given: address, credentials of \<open>PlainAuth\<close>, sender, receivers, text.\<close>

record Mail =
  ml_Addr :: string
  ml_Auth :: "string \<times> string \<times> string \<times> string"
  ml_From :: string
  ml_To :: "string list"
  ml_Msg :: string

record ('r, 'x) AuthService =
  as_tokenMgr :: TokenManager
  as_redis :: "'r redis_client option"
  as_emailSvc :: "EmailService option"
  as_jwt :: jwt_lib
  as_us :: "uuid \<Rightarrow> string"
  as_parse :: "string \<Rightarrow> uuid res"
  as_scan :: "uuid \<Rightarrow> pg_uuid res"
  as_now :: "'x \<Rightarrow> 'x \<times> instant"
  as_uuid :: "'x \<Rightarrow> 'x \<times> uuid"
  as_intn :: "nat \<Rightarrow> 'x \<Rightarrow> 'x \<times> nat"
  as_rand :: "nat \<Rightarrow> 'x \<Rightarrow> 'x \<times> string res"
  as_bcrypt :: "string \<Rightarrow> int \<Rightarrow> 'x \<Rightarrow> 'x \<times> string res"
  as_compare :: "string \<Rightarrow> string \<Rightarrow> err option"
  as_sendmail :: "Mail \<Rightarrow> 'x \<Rightarrow> 'x \<times> err option"

record 'r ServiceOptions =
  so_TokenConfig :: TokenConfig
  so_Redis :: "'r redis_client option"
  so_EmailSvc :: "EmailService option"

text \<open>\<open>NewService\<close>: \<open>lib\<close> has the functions from outside.\<close>

definition NewAuthService :: "('r, 'x) AuthService \<Rightarrow> 'r ServiceOptions \<Rightarrow> ('r, 'x) AuthService" where
  "NewAuthService lib opts =
     lib\<lparr>as_tokenMgr := NewTokenManager (so_TokenConfig opts), as_redis := so_Redis opts, as_emailSvc := so_EmailSvc opts\<rparr>"

subsection \<open>Passwords (password.go)\<close>

definition ErrPasswordTooShort :: err where "ErrPasswordTooShort = ''password must be at least 8 characters''"
definition minPasswordLength :: nat where "minPasswordLength = 8"
definition bcryptCost :: int where "bcryptCost = 12"

definition HashPassword :: "('r, 'x) AuthService \<Rightarrow> string \<Rightarrow> ('r, 'e, 'x) world \<Rightarrow> ('r, 'e, 'x) world \<times> string res" where
  "HashPassword s password w =
     (if length password < minPasswordLength then (w, Inl ErrPasswordTooShort)
      else on_ext (as_bcrypt s password bcryptCost) w)"

definition VerifyPassword :: "('r, 'x) AuthService \<Rightarrow> string \<Rightarrow> string \<Rightarrow> err option" where
  "VerifyPassword s hashedPassword password = as_compare s hashedPassword password"

subsection \<open>User names\<close>

definition minUsernameLength :: nat where "minUsernameLength = 3"
definition maxUsernameLength :: nat where "maxUsernameLength = 10"

text \<open>The regular expression \<open>^[a-z0-9_]+$\<close>.\<close>

definition name_char :: "char \<Rightarrow> bool" where
  "name_char c \<longleftrightarrow> is_digit c \<or> c = CHR ''_'' \<or> 97 \<le> (of_char c :: nat) \<and> (of_char c :: nat) \<le> 122"

definition usernameRegex :: "string \<Rightarrow> bool" where
  "usernameRegex s \<longleftrightarrow> s \<noteq> [] \<and> list_all name_char s"

text \<open>\<open>strings.ToLower\<close> on the bytes of UTF-8: ASCII letters, and the two letters outside ASCII whose lower
  case is in ASCII (U+212A, the Kelvin sign, and U+0130). Other letters outside ASCII keep their
  bytes here; no result with one of them matches the expression.\<close>

fun lower_utf8 :: "string \<Rightarrow> string" where
  "lower_utf8 [] = []"
| "lower_utf8 (c # cs) =
     (if prefix [CHR 0xE2, CHR 0x84, CHR 0xAA] (c # cs) then CHR ''k'' # lower_utf8 (drop 2 cs)
      else if prefix [CHR 0xC4, CHR 0xB0] (c # cs) then CHR ''i'' # lower_utf8 (drop 1 cs)
      else lower_char c # lower_utf8 cs)"

definition normalizeUsername :: "string \<Rightarrow> string" where
  "normalizeUsername username = trim_right_spaces (lower_utf8 username)"

definition ValidateUsername :: "string \<Rightarrow> err option" where
  "ValidateUsername username =
     (let username = trim_right_spaces username
      in if length username < minUsernameLength
         then Some (''username must be at least '' @ show_nat minUsernameLength @ '' characters'')
         else if length username > maxUsernameLength
         then Some (''username must be at most '' @ show_nat maxUsernameLength @ '' characters'')
         else if \<not> usernameRegex (lower_utf8 username)
         then Some ''username can only contain lowercase letters, numbers, and underscores''
         else None)"

definition candidate_name :: "string \<Rightarrow> nat \<Rightarrow> string" where
  "candidate_name username i = username @ ''_'' @ show_nat i"

text \<open>The first loop of \<open>GenerateUsernameSuggestions\<close> over \<open>i\<close>, \<open>i+1\<close>, ..., \<open>i+n-1\<close>.\<close>

fun suggest_first :: "string \<Rightarrow> nat \<Rightarrow> nat \<Rightarrow> string list \<Rightarrow> ('r, 'e, 'x) world \<Rightarrow> ('r, 'e, 'x) world \<times> string list" where
  "suggest_first username i 0 acc w = (w, acc)"
| "suggest_first username i (Suc n) acc w =
     (case on_db (GetByUsername (candidate_name username i)) w of
        (w, Inl e) \<Rightarrow>
          let acc = acc @ [candidate_name username i]
          in if length acc \<ge> 3 then (w, acc) else suggest_first username (Suc i) n acc w
      | (w, Inr _) \<Rightarrow> suggest_first username (Suc i) n acc w)"

text \<open>The second loop draws numbers until there are three suggestions; it may not end.\<close>

partial_function (option) suggest_rest ::
  "('r, 'x) AuthService \<Rightarrow> string \<Rightarrow> string list \<Rightarrow> ('r, 'e, 'x) world \<Rightarrow> (('r, 'e, 'x) world \<times> string list) option" where
  [code]: "suggest_rest s username acc w =
     (if length acc \<ge> 3 then Some (w, acc)
      else case on_ext (as_intn s 900) w of (w, n) \<Rightarrow>
        let c = candidate_name username (n + 100)
        in if c \<in> set acc then suggest_rest s username acc w
           else case on_db (GetByUsername c) w of
                  (w, r) \<Rightarrow> suggest_rest s username (case r of Inl e \<Rightarrow> acc @ [c] | Inr _ \<Rightarrow> acc) w)"

definition GenerateUsernameSuggestions ::
  "('r, 'x) AuthService \<Rightarrow> string \<Rightarrow> ('r, 'e, 'x) world \<Rightarrow> (('r, 'e, 'x) world \<times> string list) option" where
  "GenerateUsernameSuggestions s username w =
     (let username = normalizeUsername username
      in case suggest_first username 1 100 [] w of (w, acc) \<Rightarrow> suggest_rest s username acc w)"

subsection \<open>Tokens\<close>

definition jwt_user :: "AuthUser \<Rightarrow> JwtUser" where
  "jwt_user user = \<lparr>ju_ID = au_ID user, ju_Email = au_Email user, ju_Username = au_Username user,
     ju_UserType = au_UserType user, ju_IsGuest = au_IsGuest user\<rparr>"

definition generateTokenPair ::
  "('r, 'x) AuthService \<Rightarrow> AuthUser \<Rightarrow> ('r, 'e, 'x) world \<Rightarrow> ('r, 'e, 'x) world \<times> TokenPair res" where
  "generateTokenPair s user w =
     (case on_ext (as_now s) w of (w, t) \<Rightarrow>
      case GenerateAccessToken (as_jwt s) (as_us s) (as_tokenMgr s) t (jwt_user user) of
        Inl e \<Rightarrow> (w, Inl e)
      | Inr acc \<Rightarrow>
          case on_ext (as_now s) w of (w, t) \<Rightarrow>
          (case GenerateRefreshToken (as_jwt s) (as_us s) (as_tokenMgr s) t (jwt_user user) of
             Inl e \<Rightarrow> (w, Inl e)
           | Inr ref \<Rightarrow> (w, Inr \<lparr>tp_AccessToken = acc, tp_RefreshToken = ref, tp_ExpiresIn = 3600\<rparr>)))"

text \<open>The end of every operation that signs a user in.\<close>

definition with_tokens ::
  "('r, 'x) AuthService \<Rightarrow> AuthUser \<Rightarrow> ('r, 'e, 'x) world \<Rightarrow> ('r, 'e, 'x) world \<times> (AuthUser \<times> TokenPair) res" where
  "with_tokens s user w =
     (case generateTokenPair s user w of
        (w, Inl e) \<Rightarrow> (w, Inl (''generate tokens: '' @ e))
      | (w, Inr tokens) \<Rightarrow> (w, Inr (user, tokens)))"

definition ValidateToken :: "('r, 'x) AuthService \<Rightarrow> string \<Rightarrow> ('r, 'e, 'x) world \<Rightarrow> ('r, 'e, 'x) world \<times> Claims res" where
  "ValidateToken s tokenString w =
     (case on_ext (as_now s) w of (w, t) \<Rightarrow> (w, ValidateAccessToken (as_jwt s) (as_tokenMgr s) t tokenString))"

subsection \<open>Accounts\<close>

definition row_username :: "UserRow \<Rightarrow> string" where
  "row_username row = (case du_Username row of None \<Rightarrow> [] | Some n \<Rightarrow> n)"

definition registered_user :: "UserRow \<Rightarrow> string \<Rightarrow> AuthUser" where
  "registered_user row email =
     \<lparr>au_ID = du_UserID row, au_Email = Some email, au_Username = row_username row, au_UserType = ''registered'', au_IsGuest = False\<rparr>"

definition loaded_user :: "UserRow \<Rightarrow> AuthUser" where
  "loaded_user row =
     \<lparr>au_ID = du_UserID row, au_Email = du_Email row, au_Username = row_username row, au_UserType = du_UserType row,
      au_IsGuest = (du_UserType row = ''guest'')\<rparr>"

definition found_user :: "UserRow res \<Rightarrow> bool" where
  "found_user r = (case r of Inl e \<Rightarrow> False | Inr row \<Rightarrow> du_UserID row \<noteq> uuid_Nil)"

definition registered_params :: "string \<Rightarrow> string option \<Rightarrow> (string \<times> string) list option \<Rightarrow> CreateUserParams" where
  "registered_params email hash metadata =
     \<lparr>cu_Email = Some email, cu_PasswordHash = hash, cu_Username = None, cu_UserType = Some ''registered'', cu_Metadata = metadata\<rparr>"

text \<open>What \<open>Register\<close> and \<open>ConvertGuest\<close> have in common; \<open>what\<close> begins the message of a failed insertion.\<close>

definition create_account ::
  "('r, 'x) AuthService \<Rightarrow> string \<Rightarrow> string \<Rightarrow> string \<Rightarrow> ('r, 'e, 'x) world \<Rightarrow> ('r, 'e, 'x) world \<times> (AuthUser \<times> TokenPair) res" where
  "create_account s what email password w =
     (case on_db (GetUserByEmail (Some email)) w of (w, existing) \<Rightarrow>
      if found_user existing then (w, Inl ''email already registered'')
      else case HashPassword s password w of
        (w, Inl e) \<Rightarrow> (w, Inl (''hash password: '' @ e))
      | (w, Inr passwordHash) \<Rightarrow>
          (case on_db (CreateUser (registered_params email (Some passwordHash) None)) w of
             (w, Inl e) \<Rightarrow> (w, Inl (what @ '': '' @ e))
           | (w, Inr dbUser) \<Rightarrow> with_tokens s (registered_user dbUser email) w))"

definition Register ::
  "('r, 'x) AuthService \<Rightarrow> RegisterRequest \<Rightarrow> ('r, 'e, 'x) world \<Rightarrow> ('r, 'e, 'x) world \<times> (AuthUser \<times> TokenPair) res" where
  "Register s req w =
     (if rg_Email req = [] then (w, Inl ''email required'')
      else create_account s ''create user'' (rg_Email req) (rg_Password req) w)"

definition ConvertGuest ::
  "('r, 'x) AuthService \<Rightarrow> ConvertGuestRequest \<Rightarrow> ('r, 'e, 'x) world \<Rightarrow> ('r, 'e, 'x) world \<times> (AuthUser \<times> TokenPair) res" where
  "ConvertGuest s req w = create_account s ''convert guest'' (cg_Email req) (cg_Password req) w"

definition Login ::
  "('r, 'x) AuthService \<Rightarrow> LoginRequest \<Rightarrow> ('r, 'e, 'x) world \<Rightarrow> ('r, 'e, 'x) world \<times> (AuthUser \<times> TokenPair) res" where
  "Login s req w =
     (case on_db (GetUserByEmail (Some (li_Email req))) w of
        (w, Inl e) \<Rightarrow> (w, Inl ''invalid credentials'')
      | (w, Inr dbUser) \<Rightarrow>
          (case du_PasswordHash dbUser of
             None \<Rightarrow> (w, Inl ''invalid credentials'')
           | Some hash \<Rightarrow>
               (case VerifyPassword s hash (li_Password req) of
                  Some e \<Rightarrow> (w, Inl ''invalid credentials'')
                | None \<Rightarrow>
                    case on_db (UpdateLogin (as_scan s) (du_UserID dbUser)) w of (w, ignored) \<Rightarrow>
                      with_tokens s (loaded_user dbUser) w)))"

subsection \<open>Guests\<close>

definition guest_chars :: string where
  "guest_chars = ''abcdefghijklmnopqrstuvwxyz0123456789''"

definition guest_key :: "string \<Rightarrow> string" where
  "guest_key username = ''guest:username:'' @ username"

fun suffix_loop :: "('r, 'x) AuthService \<Rightarrow> nat \<Rightarrow> ('r, 'e, 'x) world \<Rightarrow> ('r, 'e, 'x) world \<times> string" where
  "suffix_loop s 0 w = (w, [])"
| "suffix_loop s (Suc n) w =
     (case on_ext (as_intn s (length guest_chars)) w of (w, j) \<Rightarrow>
      case suffix_loop s n w of (w, cs) \<Rightarrow> (w, guest_chars ! j # cs))"

definition maxAttempts :: nat where "maxAttempts = 50"

fun guest_loop :: "('r, 'x) AuthService \<Rightarrow> nat \<Rightarrow> ('r, 'e, 'x) world \<Rightarrow> ('r, 'e, 'x) world \<times> string res" where
  "guest_loop s 0 w =
     (w, Inl (''failed to generate unique guest username after '' @ show_nat maxAttempts @ '' attempts''))"
| "guest_loop s (Suc n) w =
     (case on_ext (as_intn s 3) w of (w, l) \<Rightarrow>
      case suffix_loop s (6 + l) w of (w, suf) \<Rightarrow>
      let username = ''guest_'' @ suf;
          (w, free) = (case as_redis s of
              None \<Rightarrow> (w, True)
            | Some rc \<Rightarrow> (case on_redis (\<lambda>r. rc_Exists rc r (guest_key username)) w of (w, x) \<Rightarrow> (w, x = Inr 0)))
      in if \<not> free then guest_loop s n w
         else case on_db (GetByUsername username) w of
                (w, Inl e) \<Rightarrow> (w, Inr username)
              | (w, Inr _) \<Rightarrow> guest_loop s n w)"

definition generateGuestUsername :: "('r, 'x) AuthService \<Rightarrow> ('r, 'e, 'x) world \<Rightarrow> ('r, 'e, 'x) world \<times> string res" where
  "generateGuestUsername s w = guest_loop s maxAttempts w"

definition CreateGuest ::
  "('r, 'x) AuthService \<Rightarrow> GuestRequest \<Rightarrow> ('r, 'e, 'x) world \<Rightarrow> ('r, 'e, 'x) world \<times> (AuthUser \<times> TokenPair) res" where
  "CreateGuest s req w =
     (case on_ext (as_uuid s) w of (w, userID) \<Rightarrow>
      case generateGuestUsername s w of
        (w, Inl e) \<Rightarrow> (w, Inl (''generate guest username: '' @ e))
      | (w, Inr username) \<Rightarrow>
          let w = (case as_redis s of
                None \<Rightarrow> w
              | Some rc \<Rightarrow> fst (on_redis (\<lambda>r. rc_Set rc r (guest_key username) (DText (''guest-'' @ as_us s userID))
                    (24 * 3600 * second)) w))
          in with_tokens s \<lparr>au_ID = userID, au_Email = None, au_Username = username, au_UserType = ''guest'', au_IsGuest = True\<rparr> w)"

definition RefreshToken ::
  "('r, 'x) AuthService \<Rightarrow> string \<Rightarrow> ('r, 'e, 'x) world \<Rightarrow> ('r, 'e, 'x) world \<times> TokenPair res" where
  "RefreshToken s refreshToken w =
     (case on_ext (as_now s) w of (w, t) \<Rightarrow>
      case ValidateRefreshToken (as_jwt s) (as_tokenMgr s) t refreshToken of
        Inl e \<Rightarrow> (w, Inl (''invalid refresh token: '' @ e))
      | Inr claims \<Rightarrow>
          if cl_IsGuest claims
          then generateTokenPair s \<lparr>au_ID = cl_UserID claims, au_Email = None, au_Username = cl_Username claims,
                 au_UserType = ''guest'', au_IsGuest = True\<rparr> w
          else case on_db (GetUserByID (scan_uuid (as_scan s) (cl_UserID claims))) w of
                 (w, Inl e) \<Rightarrow> (w, Inl ''user not found'')
               | (w, Inr dbUser) \<Rightarrow> generateTokenPair s (loaded_user dbUser) w)"

subsection \<open>Choosing a user name\<close>

definition username_taken :: "string list \<Rightarrow> err" where
  "username_taken suggestions = ''username_taken: '' @ join '' '' suggestions"

text \<open>\<open>None\<close> when the search for suggestions does not end.\<close>

definition SetUsername ::
  "('r, 'x) AuthService \<Rightarrow> uuid \<Rightarrow> string \<Rightarrow> ('r, 'e, 'x) world \<Rightarrow> (('r, 'e, 'x) world \<times> AuthUser res) option" where
  "SetUsername s userID username w =
     (case ValidateUsername username of
        Some e \<Rightarrow> Some (w, Inl (''invalid username: '' @ e))
      | None \<Rightarrow>
          let username = normalizeUsername username
          in case on_db (GetByUsername username) w of
               (w, Inr _) \<Rightarrow>
                 map_option (\<lambda>(w, suggestions). (w, Inl (username_taken suggestions))) (GenerateUsernameSuggestions s username w)
             | (w, Inl _) \<Rightarrow>
                 let (w, guest) = (case as_redis s of
                     None \<Rightarrow> (w, False)
                   | Some rc \<Rightarrow> (case on_redis (\<lambda>r. rc_Exists rc r (guest_key username)) w of
                        (w, Inl e) \<Rightarrow> (w, False) | (w, Inr n) \<Rightarrow> (w, n > 0)))
                 in if guest
                    then map_option (\<lambda>(w, suggestions). (w, Inl (username_taken suggestions))) (GenerateUsernameSuggestions s username w)
                    else case on_db (UpdateUsername (as_scan s) userID username) w of
                           (w, Inl e) \<Rightarrow> Some (w, Inl (''update username: '' @ e))
                         | (w, Inr dbUser) \<Rightarrow>
                             if du_Username dbUser \<noteq> Some username
                             then Some (w, Inl ''username already set or user not found'')
                             else Some (w, Inr (loaded_user dbUser)))"

subsection \<open>Resetting a password\<close>

text \<open>\<open>base64.URLEncoding\<close>.\<close>

definition b64_alphabet :: string where
  "b64_alphabet = ''ABCDEFGHIJKLMNOPQRSTUVWXYZabcdefghijklmnopqrstuvwxyz0123456789-_''"

definition b64 :: "nat \<Rightarrow> char" where
  "b64 n = b64_alphabet ! (n mod 64)"

fun base64_url :: "string \<Rightarrow> string" where
  "base64_url (x # y # z # r) =
     (let n = of_char x * 65536 + of_char y * 256 + of_char z
      in b64 (n div 262144) # b64 (n div 4096) # b64 (n div 64) # b64 n # base64_url r)"
| "base64_url [x, y] =
     (let n = of_char x * 65536 + of_char y * 256 in [b64 (n div 262144), b64 (n div 4096), b64 (n div 64), CHR ''=''])"
| "base64_url [x] = (let n = of_char x * 65536 in [b64 (n div 262144), b64 (n div 4096), CHR ''='', CHR ''=''])"
| "base64_url [] = []"

definition newline :: string where "newline = [CHR 0x0A]"
definition crlf :: string where "crlf = [CHR 0x0D, CHR 0x0A]"

text \<open>The executed template; \<open>text/template\<close> inserts the link as it is.\<close>

definition reset_mail :: "string \<Rightarrow> string" where
  "reset_mail resetURL = join newline
     [''Subject: Password Reset Request'', [], ''Hello,'', [], ''You requested a password reset for your account.'', [],
      ''Click the link below to reset your password:'', resetURL, [], ''This link will expire in 1 hour.'', [],
      ''If you did not request this, please ignore this email.'', [], ''Best regards,'', ''Quiz Platform Team'']"

definition SendPasswordResetEmail ::
  "(Mail \<Rightarrow> 'x \<Rightarrow> 'x \<times> err option) \<Rightarrow> EmailService \<Rightarrow> string \<Rightarrow> string \<Rightarrow> 'x \<Rightarrow> 'x \<times> err option" where
  "SendPasswordResetEmail sendMail e toEmail resetToken x =
     (if em_smtpHost e = [] \<or> em_smtpPort e = 0 then (x, Some ''email service not configured'')
      else
        let resetURL = ''https://your-app.com/reset-password?token='' @ resetToken
        in case sendMail
               \<lparr>ml_Addr = em_smtpHost e @ '':'' @ show_int (em_smtpPort e),
                ml_Auth = ([], em_smtpUsername e, em_smtpPassword e, em_smtpHost e),
                ml_From = em_fromEmail e, ml_To = [toEmail],
                ml_Msg = ''From: '' @ em_fromEmail e @ crlf @ ''To: '' @ toEmail @ crlf @ reset_mail resetURL @ crlf\<rparr> x of
             (x, None) \<Rightarrow> (x, None)
           | (x, Some err) \<Rightarrow> (x, Some (''send email: '' @ err)))"

definition reset_key :: "string \<Rightarrow> string" where
  "reset_key token = ''password_reset:'' @ token"

definition RequestPasswordReset ::
  "('r, 'x) AuthService \<Rightarrow> string \<Rightarrow> ('r, 'e, 'x) world \<Rightarrow> ('r, 'e, 'x) world \<times> err option" where
  "RequestPasswordReset s email w =
     (case as_redis s of
        None \<Rightarrow> (w, Some ''redis not configured for password reset'')
      | Some rc \<Rightarrow>
      (case as_emailSvc s of
        None \<Rightarrow> (w, Some ''email service not configured'')
      | Some e \<Rightarrow>
          case on_db (GetUserByEmail (Some email)) w of (w, dbUser) \<Rightarrow>
          if \<not> found_user dbUser then (w, None)
          else case on_ext (as_rand s 32) w of
            (w, Inl err) \<Rightarrow> (w, Some (''generate token: '' @ err))
          | (w, Inr tokenBytes) \<Rightarrow>
              let token = base64_url tokenBytes; userID = du_UserID (projr dbUser)
              in case on_redis (\<lambda>r. rc_Set rc r (reset_key token)
                     (DObject [(''user_id'', as_us s userID), (''email'', email)]) (3600 * second)) w of
                   (w, Some err) \<Rightarrow> (w, Some (''store reset token: '' @ err))
                 | (w, None) \<Rightarrow>
                     (case on_ext (SendPasswordResetEmail (as_sendmail s) e email token) w of
                        (w, Some err) \<Rightarrow> (w, Some (''send email: '' @ err))
                      | (w, None) \<Rightarrow> (w, None))))"

definition ResetPassword ::
  "('r, 'x) AuthService \<Rightarrow> string \<Rightarrow> string \<Rightarrow> ('r, 'e, 'x) world \<Rightarrow> ('r, 'e, 'x) world \<times> err option" where
  "ResetPassword s token newPassword w =
     (case as_redis s of
        None \<Rightarrow> (w, Some ''redis not configured for password reset'')
      | Some rc \<Rightarrow>
          if length newPassword < minPasswordLength then (w, Some ErrPasswordTooShort)
          else case on_redis (\<lambda>r. rc_Get rc r (reset_key token)) w of
            (w, RNil) \<Rightarrow> (w, Some ''invalid or expired reset token'')
          | (w, RErr e) \<Rightarrow> (w, Some (''get reset token: '' @ e))
          | (w, RVal d) \<Rightarrow>
              (case d of
                 DObject tokenData \<Rightarrow>
                   (case map_of tokenData ''user_id'' of
                      None \<Rightarrow> (w, Some ''invalid token data'')
                    | Some userIDStr \<Rightarrow>
                        (case as_parse s userIDStr of
                           Inl e \<Rightarrow> (w, Some (''invalid user ID: '' @ e))
                         | Inr userID \<Rightarrow>
                             (case HashPassword s newPassword w of
                                (w, Inl e) \<Rightarrow> (w, Some (''hash password: '' @ e))
                              | (w, Inr passwordHash) \<Rightarrow>
                                  (case on_db (UpdatePassword (as_scan s) userID passwordHash) w of
                                     (w, Inl e) \<Rightarrow> (w, Some (''update password: '' @ e))
                                   | (w, Inr _) \<Rightarrow>
                                       (fst (on_redis (\<lambda>r. rc_Del rc r (reset_key token)) w), None)))))
               | _ \<Rightarrow> (w, Some (''decode token data: '' @ ''invalid character''))))"

end
