(* ===== verification/AuthHandlers.thy ===== *)
theory AuthHandlers
  imports Auth HttpErrors Json
begin

section \<open>Sign-in over HTTP (internal/auth/handlers.go, middleware.go, oauth.go)\<close>

text \<open>
  The handlers decode a request, call the service and encode its answer as JSON. The structs of the
  requests have no JSON tags, so a key matches the Go name of a field up to the case of letters and
  nothing else. A handler is given the method, the claims the middleware put into the context and
  the body. The calls of \<open>golang.org/x/oauth2\<close> and of Google's endpoint are fields of the OAuth service.
\<close>

subsection \<open>Answers\<close>

datatype http_reply =
    ErrorReply ErrorResponse
  | DetailsReply ErrorResponse "(string \<times> json) list"
  | JsonReply int json

definition RespondErrorWithDetails :: "int \<Rightarrow> string \<Rightarrow> string \<Rightarrow> (string \<times> json) list \<Rightarrow> http_reply" where
  "RespondErrorWithDetails status code msg details = DetailsReply (RespondError status code msg) details"

definition method_not_allowed :: http_reply where
  "method_not_allowed = ErrorReply (RespondError 405 ErrCodeInvalidRequest ''Method not allowed'')"

definition bad_json :: http_reply where
  "bad_json = ErrorReply (RespondBadRequest ErrCodeInvalidRequest ''Invalid JSON payload'')"

definition signed_in :: "('r, 'x) AuthService \<Rightarrow> int \<Rightarrow> AuthUser \<Rightarrow> TokenPair \<Rightarrow> http_reply" where
  "signed_in s status user tokens = JsonReply status (JObject
     [(''user_id'', JString (as_us s (au_ID user))), (''access_token'', JString (tp_AccessToken tokens)),
      (''refresh_token'', JString (tp_RefreshToken tokens)), (''expires_in'', JInt (tp_ExpiresIn tokens)),
      (''username_required'', JBool (au_Username user = []))])"

subsection \<open>Requests\<close>

definition request_fields :: "json option \<Rightarrow> (string \<times> json) list option" where
  "request_fields body = Option.bind body object_fields"

definition decode_Register :: "json option \<Rightarrow> RegisterRequest option" where
  "decode_Register body = Option.bind (request_fields body) (\<lambda>kvs.
     Option.bind (string_field ''Email'' kvs) (\<lambda>e.
     map_option (\<lambda>p. \<lparr>rg_Email = e, rg_Password = p\<rparr>) (string_field ''Password'' kvs)))"

definition decode_Login :: "json option \<Rightarrow> LoginRequest option" where
  "decode_Login body = Option.bind (request_fields body) (\<lambda>kvs.
     Option.bind (string_field ''Email'' kvs) (\<lambda>e.
     map_option (\<lambda>p. \<lparr>li_Email = e, li_Password = p\<rparr>) (string_field ''Password'' kvs)))"

definition decode_Guest :: "json option \<Rightarrow> GuestRequest option" where
  "decode_Guest body = Option.bind (request_fields body) (\<lambda>kvs.
     map_option (\<lambda>d. \<lparr>gr_DeviceFingerprint = d\<rparr>) (string_field ''DeviceFingerprint'' kvs))"

text \<open>A \<open>uuid.UUID\<close> decodes from a string by \<open>UnmarshalText\<close>.\<close>

definition into_uuid :: "(string \<Rightarrow> uuid res) \<Rightarrow> json \<Rightarrow> uuid \<Rightarrow> uuid option" where
  "into_uuid parse j old =
     (case j of JString t \<Rightarrow> (case parse t of Inl e \<Rightarrow> None | Inr u \<Rightarrow> Some u) | JNull \<Rightarrow> Some old | _ \<Rightarrow> None)"

definition decode_ConvertGuest :: "(string \<Rightarrow> uuid res) \<Rightarrow> json option \<Rightarrow> ConvertGuestRequest option" where
  "decode_ConvertGuest parse body = Option.bind (request_fields body) (\<lambda>kvs.
     Option.bind (field (into_uuid parse) ''GuestID'' kvs uuid_Nil) (\<lambda>g.
     Option.bind (string_field ''Email'' kvs) (\<lambda>e.
     map_option (\<lambda>p. \<lparr>cg_GuestID = g, cg_Email = e, cg_Password = p\<rparr>) (string_field ''Password'' kvs))))"

definition decode_Refresh :: "json option \<Rightarrow> string option" where
  "decode_Refresh body = Option.bind (request_fields body) (string_field ''refresh_token'')"

definition decode_SetUsername :: "json option \<Rightarrow> string option" where
  "decode_SetUsername body = Option.bind (request_fields body) (string_field ''Username'')"

definition decode_ForgotPassword :: "json option \<Rightarrow> string option" where
  "decode_ForgotPassword body = Option.bind (request_fields body) (string_field ''Email'')"

definition decode_ResetPassword :: "json option \<Rightarrow> (string \<times> string) option" where
  "decode_ResetPassword body = Option.bind (request_fields body) (\<lambda>kvs.
     Option.bind (string_field ''Token'' kvs) (\<lambda>t. map_option (\<lambda>p. (t, p)) (string_field ''NewPassword'' kvs)))"

subsection \<open>Strings of Go\<close>

text \<open>\<open>strings.Split\<close> with a separator that is not empty, \<open>strings.Trim\<close> and, on ASCII, \<open>strings.Fields\<close>.\<close>

function split_go :: "string \<Rightarrow> string \<Rightarrow> string \<Rightarrow> string list" where
  "split_go sep acc [] = [rev acc]"
| "split_go sep acc (c # cs) =
     (if prefix sep (c # cs) then rev acc # split_go sep [] (drop (length sep - 1) cs) else split_go sep (c # acc) cs)"
  by pat_completeness auto
termination by (relation "measure (\<lambda>(sep, acc, s). length s)") auto

definition split_str :: "string \<Rightarrow> string \<Rightarrow> string list" where
  "split_str sep s = split_go sep [] s"

definition trim_set :: "string \<Rightarrow> string \<Rightarrow> string" where
  "trim_set cutset s = rev (dropWhile (\<lambda>c. c \<in> set cutset) (rev (dropWhile (\<lambda>c. c \<in> set cutset) s)))"

definition is_space :: "char \<Rightarrow> bool" where
  "is_space c \<longleftrightarrow> c = CHR '' '' \<or> 9 \<le> (of_char c :: nat) \<and> (of_char c :: nat) \<le> 13"

fun fields_go :: "string \<Rightarrow> string \<Rightarrow> string list" where
  "fields_go acc [] = (if acc = [] then [] else [rev acc])"
| "fields_go acc (c # cs) =
     (if is_space c then (if acc = [] then fields_go [] cs else rev acc # fields_go [] cs) else fields_go (c # acc) cs)"

definition str_fields :: "string \<Rightarrow> string list" where
  "str_fields s = fields_go [] s"

subsection \<open>Middleware (middleware.go)\<close>

text \<open>\<open>respond\<close> answers with an error, \<open>next\<close> is the wrapped handler with the claims of its context.\<close>

definition AuthMiddleware ::
  "(string \<Rightarrow> 's \<Rightarrow> 's \<times> Claims res) \<Rightarrow> (ErrorResponse \<Rightarrow> 's \<Rightarrow> 'a) \<Rightarrow> (Claims option \<Rightarrow> 's \<Rightarrow> 'a) \<Rightarrow> string \<Rightarrow> 's \<Rightarrow> 'a" where
  "AuthMiddleware validate respond next authHeader s =
     (if authHeader = [] then next None s
      else case split_str '' '' authHeader of
        [bearer, token] \<Rightarrow>
          if bearer \<noteq> ''Bearer''
          then respond (RespondUnauthorized ErrCodeInvalidToken ''Invalid authorization header'') s
          else (case validate token s of
                  (s, Inl e) \<Rightarrow> respond (RespondUnauthorized ErrCodeInvalidToken ''Invalid or expired token'') s
                | (s, Inr claims) \<Rightarrow> next (Some claims) s)
      | _ \<Rightarrow> respond (RespondUnauthorized ErrCodeInvalidToken ''Invalid authorization header'') s)"

definition RequireAuth ::
  "(ErrorResponse \<Rightarrow> 's \<Rightarrow> 'a) \<Rightarrow> (Claims option \<Rightarrow> 's \<Rightarrow> 'a) \<Rightarrow> Claims option \<Rightarrow> 's \<Rightarrow> 'a" where
  "RequireAuth respond next claims s =
     (case claims of
        None \<Rightarrow> respond (RespondUnauthorized ErrCodeAuthenticationRequired ''Authentication required'') s
      | Some c \<Rightarrow> next (Some c) s)"

definition RequireRegistered ::
  "(ErrorResponse \<Rightarrow> 's \<Rightarrow> 'a) \<Rightarrow> (Claims option \<Rightarrow> 's \<Rightarrow> 'a) \<Rightarrow> Claims option \<Rightarrow> 's \<Rightarrow> 'a" where
  "RequireRegistered respond next claims s =
     (case claims of
        None \<Rightarrow> respond (RespondForbidden ErrCodeForbidden ''Registered account required'') s
      | Some c \<Rightarrow> if cl_IsGuest c then respond (RespondForbidden ErrCodeForbidden ''Registered account required'') s
                  else next (Some c) s)"

subsection \<open>Accounts and tokens (handlers.go)\<close>

definition HttpRegister ::
  "('r, 'x) AuthService \<Rightarrow> string \<Rightarrow> json option \<Rightarrow> ('r, 'e, 'x) world \<Rightarrow> ('r, 'e, 'x) world \<times> http_reply" where
  "HttpRegister s httpMethod body w =
     (if httpMethod \<noteq> ''POST'' then (w, method_not_allowed)
      else case decode_Register body of
        None \<Rightarrow> (w, bad_json)
      | Some req \<Rightarrow>
          (case Register s req w of
             (w, Inl e) \<Rightarrow> (w, ErrorReply (RespondBadRequest ErrCodeRegistrationFailed e))
           | (w, Inr (user, tokens)) \<Rightarrow> (w, signed_in s 201 user tokens)))"

definition HttpLogin ::
  "('r, 'x) AuthService \<Rightarrow> string \<Rightarrow> json option \<Rightarrow> ('r, 'e, 'x) world \<Rightarrow> ('r, 'e, 'x) world \<times> http_reply" where
  "HttpLogin s httpMethod body w =
     (if httpMethod \<noteq> ''POST'' then (w, method_not_allowed)
      else case decode_Login body of
        None \<Rightarrow> (w, bad_json)
      | Some req \<Rightarrow>
          (case Login s req w of
             (w, Inl e) \<Rightarrow> (w, ErrorReply (RespondUnauthorized ErrCodeLoginFailed e))
           | (w, Inr (user, tokens)) \<Rightarrow> (w, signed_in s 200 user tokens)))"

definition HttpCreateGuest ::
  "('r, 'x) AuthService \<Rightarrow> string \<Rightarrow> json option \<Rightarrow> ('r, 'e, 'x) world \<Rightarrow> ('r, 'e, 'x) world \<times> http_reply" where
  "HttpCreateGuest s httpMethod body w =
     (if httpMethod \<noteq> ''POST'' then (w, method_not_allowed)
      else case decode_Guest body of
        None \<Rightarrow> (w, bad_json)
      | Some req \<Rightarrow>
          (case CreateGuest s req w of
             (w, Inl e) \<Rightarrow> (w, ErrorReply (RespondBadRequest ErrCodeGuestCreationFailed e))
           | (w, Inr (user, tokens)) \<Rightarrow> (w, JsonReply 201 (JObject
               [(''guest_id'', JString (as_us s (au_ID user))), (''username'', JString (au_Username user)),
                (''access_token'', JString (tp_AccessToken tokens)), (''refresh_token'', JString (tp_RefreshToken tokens)),
                (''expires_in'', JInt (tp_ExpiresIn tokens))]))))"

definition HttpConvertGuest ::
  "('r, 'x) AuthService \<Rightarrow> string \<Rightarrow> json option \<Rightarrow> ('r, 'e, 'x) world \<Rightarrow> ('r, 'e, 'x) world \<times> http_reply" where
  "HttpConvertGuest s httpMethod body w =
     (if httpMethod \<noteq> ''POST'' then (w, method_not_allowed)
      else case decode_ConvertGuest (as_parse s) body of
        None \<Rightarrow> (w, bad_json)
      | Some req \<Rightarrow>
          (case ConvertGuest s req w of
             (w, Inl e) \<Rightarrow> (w, ErrorReply (RespondBadRequest ErrCodeConversionFailed e))
           | (w, Inr (user, tokens)) \<Rightarrow> (w, JsonReply 200 (JObject
               [(''user_id'', JString (as_us s (au_ID user))), (''access_token'', JString (tp_AccessToken tokens)),
                (''refresh_token'', JString (tp_RefreshToken tokens)), (''expires_in'', JInt (tp_ExpiresIn tokens)),
                (''converted'', JBool True)]))))"

definition HttpRefreshToken ::
  "('r, 'x) AuthService \<Rightarrow> string \<Rightarrow> json option \<Rightarrow> ('r, 'e, 'x) world \<Rightarrow> ('r, 'e, 'x) world \<times> http_reply" where
  "HttpRefreshToken s httpMethod body w =
     (if httpMethod \<noteq> ''POST'' then (w, method_not_allowed)
      else case decode_Refresh body of
        None \<Rightarrow> (w, bad_json)
      | Some refreshToken \<Rightarrow>
          (case RefreshToken s refreshToken w of
             (w, Inl e) \<Rightarrow> (w, ErrorReply (RespondUnauthorized ErrCodeRefreshFailed e))
           | (w, Inr tokens) \<Rightarrow> (w, JsonReply 200 (JObject
               [(''access_token'', JString (tp_AccessToken tokens)), (''expires_in'', JInt (tp_ExpiresIn tokens))]))))"

text \<open>The name \<open>GetMe\<close> shows, and whether one must be chosen.\<close>

definition shown_name :: "Claims \<Rightarrow> UserRow res \<Rightarrow> string \<times> bool" where
  "shown_name claims r =
     (case r of
        Inl e \<Rightarrow> (cl_Username claims, False)
      | Inr dbUser \<Rightarrow>
          (case du_Username dbUser of
             None \<Rightarrow> ([], True)
           | Some n \<Rightarrow> if n \<noteq> [] then (n, False) else ([], True)))"

definition HttpGetMe ::
  "('r, 'x) AuthService \<Rightarrow> string \<Rightarrow> Claims option \<Rightarrow> ('r, 'e, 'x) world \<Rightarrow> ('r, 'e, 'x) world \<times> http_reply" where
  "HttpGetMe s httpMethod context w =
     (if httpMethod \<noteq> ''GET'' then (w, method_not_allowed)
      else case context of
        None \<Rightarrow> (w, ErrorReply (RespondUnauthorized ErrCodeUnauthorized ''Invalid or missing token''))
      | Some claims \<Rightarrow>
          let (w, username, required) =
                (if cl_IsGuest claims then (w, cl_Username claims, False)
                 else case on_db (GetUserByID (scan_uuid (as_scan s) (cl_UserID claims))) w of
                        (w, r) \<Rightarrow> (w, shown_name claims r))
          in (w, JsonReply 200 (JObject
               [(''user_id'', JString (as_us s (cl_UserID claims))), (''email'', JString (cl_Email claims)),
                (''username'', JString username), (''username_required'', JBool required),
                (''user_type'', JString (cl_UserType claims)), (''is_guest'', JBool (cl_IsGuest claims))])))"

text \<open>The answer to an error of \<open>SetUsername\<close>.\<close>

definition username_error :: "err \<Rightarrow> http_reply" where
  "username_error errStr =
     (if sublist ''username_taken'' errStr \<and> length (split_str '': '' errStr) > 1
      then RespondErrorWithDetails 409 ErrCodeUsernameTaken ''Username is already taken''
             [(''suggestions'', JArray (map JString (str_fields (trim_set ''[]'' (split_str '': '' errStr ! 1)))))]
      else ErrorReply (RespondBadRequest ErrCodeSetUsernameFailed errStr))"

definition HttpSetUsername ::
  "('r, 'x) AuthService \<Rightarrow> string \<Rightarrow> Claims option \<Rightarrow> json option \<Rightarrow> ('r, 'e, 'x) world \<Rightarrow> (('r, 'e, 'x) world \<times> http_reply) option" where
  "HttpSetUsername s httpMethod context body w =
     (if httpMethod \<noteq> ''POST'' then Some (w, method_not_allowed)
      else case context of
        None \<Rightarrow> Some (w, ErrorReply (RespondUnauthorized ErrCodeUnauthorized ''Invalid or missing token''))
      | Some claims \<Rightarrow>
      (case decode_SetUsername body of
        None \<Rightarrow> Some (w, bad_json)
      | Some username \<Rightarrow>
          if username = [] then Some (w, ErrorReply (RespondValidationError ErrCodeMissingField ''Username required'' ''username''))
          else map_option (\<lambda>(w, r). (w, case r of
                   Inl e \<Rightarrow> username_error e
                 | Inr user \<Rightarrow> JsonReply 200 (JObject
                     [(''user_id'', JString (as_us s (au_ID user))), (''username'', JString (au_Username user)),
                      (''email'', case au_Email user of None \<Rightarrow> JNull | Some e \<Rightarrow> JString e),
                      (''user_type'', JString (au_UserType user)), (''is_guest'', JBool (au_IsGuest user))])))
                 (SetUsername s (cl_UserID claims) username w)))"

definition HttpForgotPassword ::
  "('r, 'x) AuthService \<Rightarrow> string \<Rightarrow> json option \<Rightarrow> ('r, 'e, 'x) world \<Rightarrow> ('r, 'e, 'x) world \<times> http_reply" where
  "HttpForgotPassword s httpMethod body w =
     (if httpMethod \<noteq> ''POST'' then (w, method_not_allowed)
      else case decode_ForgotPassword body of
        None \<Rightarrow> (w, bad_json)
      | Some email \<Rightarrow>
          if email = [] then (w, ErrorReply (RespondValidationError ErrCodeMissingField ''Email required'' ''email''))
          else (case RequestPasswordReset s email w of (w, ignored) \<Rightarrow>
            (w, JsonReply 200 (JObject
               [(''message'', JString ''If an account exists with this email, a password reset link has been sent'')]))))"

definition HttpResetPassword ::
  "('r, 'x) AuthService \<Rightarrow> string \<Rightarrow> json option \<Rightarrow> ('r, 'e, 'x) world \<Rightarrow> ('r, 'e, 'x) world \<times> http_reply" where
  "HttpResetPassword s httpMethod body w =
     (if httpMethod \<noteq> ''POST'' then (w, method_not_allowed)
      else case decode_ResetPassword body of
        None \<Rightarrow> (w, bad_json)
      | Some (token, newPassword) \<Rightarrow>
          if token = [] \<or> newPassword = []
          then (w, ErrorReply (RespondValidationError ErrCodeMissingField ''Token and new password required'' []))
          else (case ResetPassword s token newPassword w of
                  (w, Some e) \<Rightarrow> (w, ErrorReply (RespondBadRequest ErrCodeResetFailed e))
                | (w, None) \<Rightarrow> (w, JsonReply 200 (JObject [(''message'', JString ''Password reset successfully'')]))))"

subsection \<open>Google accounts (oauth.go)\<close>

definition OAuthProviderGoogle :: string where "OAuthProviderGoogle = ''google''"

record OAuthUserInfo =
  oi_ProviderID :: string
  oi_Email :: string
  oi_Name :: string
  oi_AvatarURL :: string

record OAuthConfig =
  oc_ClientID :: string
  oc_ClientSecret :: string
  oc_RedirectURL :: string
  oc_Scopes :: "string list"

text \<open>\<open>os_Exchange\<close> yields the access token; \<open>os_Do\<close> is the request for the user with a bearer token, its
  result the status and the body.\<close>

record 'x OAuthService =
  os_googleConfig :: "OAuthConfig option"
  os_AuthCodeURL :: "OAuthConfig \<Rightarrow> string \<Rightarrow> string"
  os_Exchange :: "OAuthConfig \<Rightarrow> string \<Rightarrow> 'x \<Rightarrow> 'x \<times> string res"
  os_Do :: "string \<Rightarrow> string \<Rightarrow> 'x \<Rightarrow> 'x \<times> (int \<times> json option) res"

definition NewOAuthService :: "'x OAuthService \<Rightarrow> string \<Rightarrow> string \<Rightarrow> string \<Rightarrow> 'x OAuthService" where
  "NewOAuthService lib googleClientID googleClientSecret googleRedirectURI =
     lib\<lparr>os_googleConfig := Some \<lparr>oc_ClientID = googleClientID, oc_ClientSecret = googleClientSecret,
       oc_RedirectURL = googleRedirectURI, oc_Scopes = [''openid'', ''email'', ''profile'']\<rparr>\<rparr>"

definition StartOAuthFlow :: "'x OAuthService \<Rightarrow> string \<Rightarrow> string \<Rightarrow> string res" where
  "StartOAuthFlow oa provider state =
     (if provider \<noteq> OAuthProviderGoogle then Inl (''unsupported provider: '' @ provider)
      else case os_googleConfig oa of
             None \<Rightarrow> Inl ''OAuth not configured (missing GOOGLE_CLIENT_ID)''
           | Some cfg \<Rightarrow>
               if oc_ClientID cfg = [] then Inl ''OAuth not configured (missing GOOGLE_CLIENT_ID)''
               else Inr (os_AuthCodeURL oa cfg state))"

definition decode_google_user :: "json option \<Rightarrow> OAuthUserInfo option" where
  "decode_google_user body = Option.bind (request_fields body) (\<lambda>kvs.
     Option.bind (string_field ''id'' kvs) (\<lambda>i.
     Option.bind (string_field ''email'' kvs) (\<lambda>e.
     Option.bind (string_field ''name'' kvs) (\<lambda>n.
     map_option (\<lambda>p. \<lparr>oi_ProviderID = i, oi_Email = e, oi_Name = n, oi_AvatarURL = p\<rparr>) (string_field ''picture'' kvs)))))"

definition HandleOAuthCallback ::
  "'x OAuthService \<Rightarrow> string \<Rightarrow> string \<Rightarrow> ('r, 'e, 'x) world \<Rightarrow> ('r, 'e, 'x) world \<times> OAuthUserInfo res" where
  "HandleOAuthCallback oa provider code w =
     (if provider \<noteq> OAuthProviderGoogle then (w, Inl (''unsupported provider: '' @ provider))
      else case os_googleConfig oa of
        None \<Rightarrow> (w, Inl ''OAuth not configured'')
      | Some cfg \<Rightarrow>
      (case on_ext (os_Exchange oa cfg code) w of
        (w, Inl e) \<Rightarrow> (w, Inl (''token exchange failed: '' @ e))
      | (w, Inr token) \<Rightarrow>
      (case on_ext (os_Do oa ''https://www.googleapis.com/oauth2/v2/userinfo'' (''Bearer '' @ token)) w of
        (w, Inl e) \<Rightarrow> (w, Inl (''fetch user info: '' @ e))
      | (w, Inr (status, body)) \<Rightarrow>
          if status \<noteq> 200 then (w, Inl (''user info API returned status '' @ show_int status))
          else (case decode_google_user body of
                  None \<Rightarrow> (w, Inl ''decode user info: '')
                | Some info \<Rightarrow> (w, Inr info)))))"

definition oauth_metadata :: "string \<Rightarrow> OAuthUserInfo \<Rightarrow> (string \<times> string) list" where
  "oauth_metadata provider info =
     [(''oauth_provider'', provider), (''oauth_id'', oi_ProviderID info), (''avatar_url'', oi_AvatarURL info)]"

definition CreateOrGetOAuthUser ::
  "('r, 'x) AuthService \<Rightarrow> string \<Rightarrow> OAuthUserInfo \<Rightarrow> ('r, 'e, 'x) world \<Rightarrow> ('r, 'e, 'x) world \<times> (AuthUser \<times> TokenPair) res" where
  "CreateOrGetOAuthUser s provider info w =
     (if oi_Email info = [] then (w, Inl ''OAuth provider did not return email'')
      else case on_db (GetUserByEmail (Some (oi_Email info))) w of (w, existing) \<Rightarrow>
        if found_user existing
        then with_tokens s ((registered_user (projr existing) (oi_Email info))\<lparr>au_UserType := du_UserType (projr existing)\<rparr>) w
        else case on_db (CreateUser (registered_params (oi_Email info) None (Some (oauth_metadata provider info)))) w of
               (w, Inl e) \<Rightarrow> (w, Inl (''create OAuth user: '' @ e))
             | (w, Inr dbUser) \<Rightarrow> with_tokens s (registered_user dbUser (oi_Email info)) w)"

fun provider_loop :: "string list \<Rightarrow> string" where
  "provider_loop (p # q # parts) = (if p = ''oauth'' then q else provider_loop (q # parts))"
| "provider_loop parts = []"

definition extractProviderFromPath :: "string \<Rightarrow> string" where
  "extractProviderFromPath path = provider_loop (split_str ''/'' path)"

definition oauth_provider :: "string \<Rightarrow> string" where
  "oauth_provider path =
     (let provider = extractProviderFromPath path in if provider = [] then OAuthProviderGoogle else provider)"

record Cookie =
  co_Name :: string
  co_Value :: string
  co_HttpOnly :: bool
  co_Secure :: bool
  co_SameSiteLax :: bool
  co_MaxAge :: int

definition HttpOAuthStart ::
  "('r, 'x) AuthService \<Rightarrow> 'x OAuthService option \<Rightarrow> string \<Rightarrow> string \<Rightarrow> ('r, 'e, 'x) world \<Rightarrow>
   ('r, 'e, 'x) world \<times> http_reply \<times> Cookie list" where
  "HttpOAuthStart s oauth httpMethod path w =
     (if httpMethod \<noteq> ''GET'' then (w, method_not_allowed, [])
      else case oauth of
        None \<Rightarrow> (w, ErrorReply (RespondServiceUnavailable ErrCodeOAuthNotConfigured ''OAuth is not configured''), [])
      | Some oa \<Rightarrow>
          case on_ext (as_uuid s) w of (w, u) \<Rightarrow>
          let state = as_us s u
          in case StartOAuthFlow oa (oauth_provider path) state of
               Inl e \<Rightarrow> (w, ErrorReply (RespondBadRequest ErrCodeOAuthStartFailed e), [])
             | Inr authURL \<Rightarrow>
                 (w, JsonReply 200 (JObject [(''auth_url'', JString authURL), (''state'', JString state)]),
                  [\<lparr>co_Name = ''oauth_state'', co_Value = state, co_HttpOnly = True, co_Secure = True,
                    co_SameSiteLax = True, co_MaxAge = 600\<rparr>]))"

text \<open>\<open>code\<close> and \<open>state\<close> are the parameters of the query, \<open>cookie\<close> the value of \<open>oauth_state\<close>.\<close>

definition HttpOAuthCallback ::
  "('r, 'x) AuthService \<Rightarrow> 'x OAuthService option \<Rightarrow> string \<Rightarrow> string \<Rightarrow> string \<Rightarrow> string \<Rightarrow> string option \<Rightarrow>
   ('r, 'e, 'x) world \<Rightarrow> ('r, 'e, 'x) world \<times> http_reply \<times> Cookie list" where
  "HttpOAuthCallback s oauth httpMethod path code state cookie w =
     (if httpMethod \<noteq> ''GET'' then (w, method_not_allowed, [])
      else case oauth of
        None \<Rightarrow> (w, ErrorReply (RespondServiceUnavailable ErrCodeOAuthNotConfigured ''OAuth is not configured''), [])
      | Some oa \<Rightarrow>
          if code = [] then (w, ErrorReply (RespondBadRequest ErrCodeOAuthMissingCode ''Authorization code required''), [])
          else if cookie \<noteq> Some state
          then (w, ErrorReply (RespondBadRequest ErrCodeOAuthInvalidState ''Invalid or missing state parameter''), [])
          else case HandleOAuthCallback oa (oauth_provider path) code w of
            (w, Inl e) \<Rightarrow> (w, ErrorReply (RespondBadRequest ErrCodeOAuthCallbackFailed e), [])
          | (w, Inr userInfo) \<Rightarrow>
              (case CreateOrGetOAuthUser s (oauth_provider path) userInfo w of
                 (w, Inl e) \<Rightarrow> (w, ErrorReply (RespondInternalError e), [])
               | (w, Inr (user, tokens)) \<Rightarrow>
                   (w, signed_in s 200 user tokens,
                    [\<lparr>co_Name = ''oauth_state'', co_Value = [], co_HttpOnly = True, co_Secure = False,
                      co_SameSiteLax = False, co_MaxAge = -1\<rparr>])))"

end
