(* ===== verification/Accounts.thy ===== *)
theory Accounts
  imports AuthHandlers
begin

section \<open>What the authentication service keeps\<close>

text \<open>
  The accounts are the rows of \<open>users\<close>. Every operation of the service moves them along
  \<open>advances\<close>: the constraints keep holding, every account stays, with its identifier, e-mail and type,
  with its user name once it has one, and with its password unless the operation resets one. What
  the service relies on outside is the locale \<open>auth_library\<close>, interpreted by an executable service.
\<close>

abbreviation accounts :: "('r, 'e, 'x) world \<Rightarrow> UserRow list" where
  "accounts w \<equiv> db_users (w_db w)"

definition name_ok :: "string \<Rightarrow> bool" where
  "name_ok n \<longleftrightarrow> usernameRegex n \<and> length n \<le> maxUsernameLength"

definition accounts_ok :: "UserRow list \<Rightarrow> bool" where
  "accounts_ok rows \<longleftrightarrow> users_ok rows \<and>
     (\<forall>r \<in> set rows. du_UserType r = ''registered'' \<and> (\<forall>n. du_Username r = Some n \<longrightarrow> name_ok n))"

definition same_account :: "UserRow \<Rightarrow> UserRow \<Rightarrow> bool" where
  "same_account r r' \<longleftrightarrow> du_UserID r' = du_UserID r \<and> du_Email r' = du_Email r \<and> du_UserType r' = du_UserType r \<and>
     (du_Username r \<noteq> None \<longrightarrow> du_Username r' = du_Username r)"

text \<open>\<open>b\<close>: passwords are kept too.\<close>

definition advances :: "bool \<Rightarrow> UserRow list \<Rightarrow> UserRow list \<Rightarrow> bool" where
  "advances b rows rows' \<longleftrightarrow> (accounts_ok rows \<longrightarrow> accounts_ok rows') \<and>
     (\<forall>r \<in> set rows. \<exists>r' \<in> set rows'. same_account r r' \<and> (b \<longrightarrow> du_PasswordHash r' = du_PasswordHash r))"

lemma same_account_refl [simp]: "same_account r r"
  by (simp add: same_account_def)

lemma same_account_trans: "same_account r q \<Longrightarrow> same_account q t \<Longrightarrow> same_account r t"
  by (auto simp: same_account_def)

lemma advances_refl [simp]: "advances b rows rows"
  unfolding advances_def using same_account_refl by blast

lemma advances_trans: "advances b r1 r2 \<Longrightarrow> advances b r2 r3 \<Longrightarrow> advances b r1 r3"
  unfolding advances_def by (metis same_account_trans)

lemma advances_weaken: "advances True r1 r2 \<Longrightarrow> advances b r1 r2"
  unfolding advances_def by blast

subsection \<open>The statements\<close>

named_theorems same_table \<open>operations that leave the accounts as they are\<close>
named_theorems table_step \<open>operations that move the accounts forward\<close>

lemma on_ext_table [same_table]: "on_ext f w = (w', x) \<Longrightarrow> accounts w' = accounts w"
  by (auto simp: on_ext_def split: prod.splits)

lemma on_redis_table [same_table]: "on_redis f w = (w', x) \<Longrightarrow> accounts w' = accounts w"
  by (auto simp: on_redis_def split: prod.splits)

lemma fst_on_redis_table [simp]: "accounts (fst (on_redis f w)) = accounts w"
  by (rule on_redis_table) (rule prod.collapse [symmetric])

lemma on_dbE:
  assumes "on_db f w = (w', x)"
  obtains d where "f (w_db w) = (d, x)" "w' = w\<lparr>w_db := d\<rparr>"
  using assms by (auto simp: on_db_def split: prod.splits)

lemma one_user_table: "on_db (one_user p) w = (w', x) \<Longrightarrow> accounts w' = accounts w"
  by (erule on_dbE) (auto dest: one_user_cases simp: db_next_def)

lemmas read_table [same_table] =
  one_user_table [of "\<lambda>r. same_email (du_Email r) e" for e, folded GetUserByEmail_def]
  one_user_table [of "has_id u" for u, folded GetUserByID_def]
  one_user_table [of "\<lambda>r. same_text (du_Username r) (Some n)" for n, folded GetUserByUsername_def GetByUsername_def]

lemma read_table_name [same_table]: "on_db (GetByUsername n) w = (w', x) \<Longrightarrow> accounts w' = accounts w"
  unfolding GetByUsername_def GetUserByUsername_def by (rule one_user_table)

lemma CreateUser_table [table_step]:
  assumes "on_db (CreateUser (registered_params e h m)) w = (w', r)"
  shows "advances b (accounts w) (accounts w')"
proof (rule on_dbE [OF assms])
  fix d assume c: "CreateUser (registered_params e h m) (w_db w) = (d, r)" and w': "w' = w\<lparr>w_db := d\<rparr>"
  have "accounts_ok (accounts w) \<longrightarrow> accounts_ok (db_users d)"
    using CreateUser_ok [OF _ c] CreateUser_cases [OF c]
    by (auto simp: accounts_ok_def registered_params_def user_row_def split: sum.splits)
  moreover have "set (accounts w) \<subseteq> set (db_users d)" using CreateUser_cases [OF c] by (auto split: sum.splits)
  ultimately show ?thesis unfolding advances_def w' using same_account_refl by fastforce
qed

lemma map_same_accounts:
  assumes "\<And>q. q \<in> set rows \<Longrightarrow> same_account q (f q) \<and> (b \<longrightarrow> du_PasswordHash (f q) = du_PasswordHash q)"
    and "accounts_ok rows \<Longrightarrow> accounts_ok (map f rows)"
  shows "advances b rows (map f rows)"
  using assms unfolding advances_def by auto

lemma other_columns_ok:
  assumes "\<And>r. du_UserID (f r) = du_UserID r \<and> du_Email (f r) = du_Email r \<and> du_Username (f r) = du_Username r \<and>
      du_UserType (f r) = du_UserType r" "accounts_ok rows"
  shows "accounts_ok (map (\<lambda>r. if has_id u r then f r else r) rows)"
  using assms users_ok_other_columns [of rows f u] by (auto simp: accounts_ok_def)

lemma UpdateLogin_table [table_step]:
  assumes "on_db (UpdateLogin sc u) w = (w', r)"
  shows "advances b (accounts w) (accounts w')"
proof (rule on_dbE [OF assms])
  fix d assume c: "UpdateLogin sc u (w_db w) = (d, r)" and w': "w' = w\<lparr>w_db := d\<rparr>"
  show ?thesis
    using UpdateUserLogin_users [OF c [unfolded UpdateLogin_def]] unfolding w'
    by (auto intro!: map_same_accounts other_columns_ok simp: same_account_def)
qed

lemma UpdatePassword_table [table_step]:
  assumes "on_db (UpdatePassword sc u h) w = (w', r)"
  shows "advances False (accounts w) (accounts w')"
proof (rule on_dbE [OF assms])
  fix d assume c: "UpdatePassword sc u h (w_db w) = (d, r)" and w': "w' = w\<lparr>w_db := d\<rparr>"
  show ?thesis
    using UpdatePasswordRow_users [OF c [unfolded UpdatePassword_def]] unfolding w'
    by (auto intro!: map_same_accounts other_columns_ok simp: same_account_def)
qed

lemma UpdateUsername_table [table_step]:
  assumes "on_db (UpdateUsername sc u n) w = (w', r)" "name_ok n"
  shows "advances b (accounts w) (accounts w')"
proof (rule on_dbE [OF assms(1)])
  fix d assume c: "UpdateUsername sc u n (w_db w) = (d, r)" and w': "w' = w\<lparr>w_db := d\<rparr>"
  note c' = c [unfolded UpdateUsername_def]
  have ok: "users_ok (accounts w) \<Longrightarrow> users_ok (db_users d)" by (rule UpdateUsernameRow_ok [OF _ c'])
  show ?thesis
    using UpdateUsernameRow_users [OF c'] ok assms(2) unfolding w'
    by (auto intro!: map_same_accounts simp: same_account_def accounts_ok_def)
qed

subsection \<open>The operations\<close>

lemma HashPassword_table [same_table]: "HashPassword s p w = (w', x) \<Longrightarrow> accounts w' = accounts w"
  by (auto simp: HashPassword_def same_table split: if_splits)

lemma generateTokenPair_table [same_table]: "generateTokenPair s u w = (w', x) \<Longrightarrow> accounts w' = accounts w"
  by (auto simp: generateTokenPair_def dest!: on_ext_table split: prod.splits sum.splits)

lemma with_tokens_table [same_table]: "with_tokens s u w = (w', x) \<Longrightarrow> accounts w' = accounts w"
  by (auto simp: with_tokens_def dest!: generateTokenPair_table split: prod.splits sum.splits)

lemma on_ext_other: "on_ext f w = (w', x) \<Longrightarrow> w_db w' = w_db w \<and> w_redis w' = w_redis w"
  by (auto simp: on_ext_def split: prod.splits)

lemma with_tokens_other: "with_tokens s u w = (w', x) \<Longrightarrow> w_db w' = w_db w \<and> w_redis w' = w_redis w"
  by (auto simp: with_tokens_def generateTokenPair_def dest!: on_ext_other split: prod.splits sum.splits)

lemma suffix_loop_other: "suffix_loop s n w = (w', x) \<Longrightarrow> w_db w' = w_db w \<and> w_redis w' = w_redis w"
  by (induction n arbitrary: w w' x) (auto dest!: on_ext_other split: prod.splits)

lemma suffix_loop_table [same_table]: "suffix_loop s n w = (w', x) \<Longrightarrow> accounts w' = accounts w"
  by (induction n arbitrary: w w' x) (auto dest!: on_ext_table split: prod.splits)

lemma guest_loop_table [same_table]: "guest_loop s n w = (w', x) \<Longrightarrow> accounts w' = accounts w"
proof (induction n arbitrary: w w' x)
  case (Suc n)
  then show ?case
    by (auto simp: Let_def dest!: same_table split: prod.splits option.splits if_splits sum.splits)
qed simp

subsection \<open>Suggestions\<close>

definition free_name :: "string \<Rightarrow> UserRow list \<Rightarrow> bool" where
  "free_name c rows \<longleftrightarrow> (\<forall>r \<in> set rows. du_Username r \<noteq> Some c)"

lemma GetByUsername_result:
  assumes "on_db (GetByUsername c) w = (w', r)" "db_faults (w_db w) = []"
  shows "db_faults (w_db w') = [] \<and> (case r of Inl e \<Rightarrow> free_name c (accounts w) | Inr q \<Rightarrow> \<not> free_name c (accounts w))"
proof (rule on_dbE [OF assms(1)])
  fix d assume c: "GetByUsername c (w_db w) = (d, r)" and w': "w' = w\<lparr>w_db := d\<rparr>"
  have e: "db_error (w_db w) = None" using assms(2) by (simp add: db_error_def)
  show ?thesis
    using one_user_cases [OF c [unfolded GetByUsername_def GetUserByUsername_def]] assms(2) e unfolding w'
    by (auto simp: db_next_def free_name_def find_None_iff same_text_iff dest!: find_Some split: sum.splits)
qed

text \<open>What a loop of suggestions for \<open>u\<close>, started with \<open>acc\<close>, ends with.\<close>

definition suggests :: "string \<Rightarrow> string list \<Rightarrow> ('r, 'e, 'x) world \<Rightarrow> ('r, 'e, 'x) world \<times> string list \<Rightarrow> bool" where
  "suggests u acc w r \<longleftrightarrow> accounts (fst r) = accounts w \<and> (length acc \<le> 3 \<longrightarrow> length (snd r) \<le> 3) \<and>
     (distinct acc \<longrightarrow> distinct (snd r)) \<and> (\<forall>c \<in> set (snd r). c \<in> set acc \<or> (\<exists>i. c = candidate_name u i)) \<and>
     (db_faults (w_db w) = [] \<longrightarrow> db_faults (w_db (fst r)) = [] \<and> (\<forall>c \<in> set (snd r). c \<in> set acc \<or> free_name c (accounts w)))"

lemma suggests_refl [simp]: "suggests u acc w (w, acc)"
  by (simp add: suggests_def)

lemma suggests_trans:
  assumes "suggests u acc w (w1, acc1)" "suggests u acc1 w1 r"
  shows "suggests u acc w r"
  using assms unfolding suggests_def by auto

lemma suggests_probe:
  assumes "on_db (GetByUsername (candidate_name u i)) w = (w1, r)" "candidate_name u i \<notin> set acc" "length acc < 3"
  shows "suggests u acc w (w1, case r of Inl e \<Rightarrow> acc @ [candidate_name u i] | Inr q \<Rightarrow> acc)"
  using read_table_name [OF assms(1)] GetByUsername_result [OF assms(1)] assms(2,3)
  by (auto simp: suggests_def split: sum.splits)

lemma suggests_draw: "on_ext f w = (w1, x) \<Longrightarrow> suggests u acc w (w1, acc)"
  by (auto simp: suggests_def on_ext_def split: prod.splits)

lemma candidate_name_inject [simp]: "candidate_name u i = candidate_name u j \<longleftrightarrow> i = j"
  by (simp add: candidate_name_def)

lemma suggest_first_suggests:
  assumes "set acc \<subseteq> candidate_name u ` {..<i}" "length acc < 3" "suggest_first u i n acc w = r"
  shows "suggests u acc w r"
  using assms
proof (induction u i n acc w arbitrary: r rule: suggest_first.induct)
  case (2 u i n acc w)
  obtain w1 x where x: "on_db (GetByUsername (candidate_name u i)) w = (w1, x)" by force
  have new: "candidate_name u i \<notin> set acc" using "2.prems"(1) by auto
  note probe = suggests_probe [OF x new "2.prems"(2)]
  have sub: "set acc \<subseteq> candidate_name u ` {..<Suc i}" "set (acc @ [candidate_name u i]) \<subseteq> candidate_name u ` {..<Suc i}"
    using "2.prems"(1) by auto
  show ?case
  proof (cases x)
    case (Inl e)
    then show ?thesis
      using "2.prems"(3) x probe suggests_trans [OF probe] "2.IH"(1) [OF x [symmetric] Inl refl] sub(2)
      by (auto simp: Let_def split: if_splits)
  next
    case (Inr q)
    then show ?thesis
      using "2.prems"(2,3) x suggests_trans [OF probe] "2.IH"(2) [OF x [symmetric] Inr] sub(1) by auto
  qed
qed auto

lemma suggest_rest_suggests:
  "suggest_rest s u acc w = Some r \<Longrightarrow> suggests u acc w r \<and> 3 \<le> length (snd r)"
proof (induction rule: suggest_rest.raw_induct [of "\<lambda>s u acc w r. suggests u acc w r \<and> 3 \<le> length (snd r)", rotated, consumes 1])
  case (1 rest s u acc w r)
  note IH = 1(1) and pr = 1(2)
  obtain w1 n where d: "on_ext (as_intn s 900) w = (w1, n)" by force
  obtain w2 x where x: "on_db (GetByUsername (candidate_name u (n + 100))) w1 = (w2, x)" by force
  consider "3 \<le> length acc" | "length acc < 3" "candidate_name u (n + 100) \<in> set acc"
    | "length acc < 3" "candidate_name u (n + 100) \<notin> set acc" by linarith
  then show ?case
  proof cases
    case 1
    with pr show ?thesis by auto
  next
    case 2
    with pr d have "rest s u acc w1 = Some r" by simp
    from IH [OF this] suggests_trans [OF suggests_draw [OF d]] show ?thesis by blast
  next
    case 3
    let ?acc = "case x of Inl e \<Rightarrow> acc @ [candidate_name u (n + 100)] | Inr q \<Rightarrow> acc"
    from 3 pr d x have "rest s u ?acc w2 = Some r" by simp
    from IH [OF this] suggests_trans [OF suggests_draw [OF d] suggests_trans [OF suggests_probe [OF x 3(2,1)]]]
    show ?thesis by blast
  qed
qed

lemma suggestions_suggest:
  assumes "GenerateUsernameSuggestions s u w = Some r"
  shows "suggests (normalizeUsername u) [] w r \<and> length (snd r) = 3"
proof -
  obtain w1 acc where f: "suggest_first (normalizeUsername u) 1 100 [] w = (w1, acc)" by force
  note a = suggest_first_suggests [OF _ _ f, simplified]
  from assms f have "suggest_rest s (normalizeUsername u) acc w1 = Some r" by (simp add: GenerateUsernameSuggestions_def Let_def)
  from suggest_rest_suggests [OF this] suggests_trans [OF a] have b: "suggests (normalizeUsername u) [] w r" "3 \<le> length (snd r)" by blast+
  then show ?thesis by (simp add: suggests_def)
qed

lemma GenerateUsernameSuggestions_table [same_table]:
  "GenerateUsernameSuggestions s u w = Some (w', x) \<Longrightarrow> accounts w' = accounts w"
  by (drule suggestions_suggest) (simp add: suggests_def)

subsection \<open>User names\<close>

lemma lower_utf8_spaces: "lower_utf8 (t @ replicate k (CHR '' '')) = lower_utf8 t @ replicate k (CHR '' '')"
proof (induction t rule: lower_utf8.induct)
  case 1
  have "lower_char (CHR '' '') = CHR '' ''" by (simp add: lower_char_def)
  then show ?case by (induction k) (simp_all add: prefix_Cons)
next
  case (2 c cs)
  have p: "prefix [x, y] (cs @ replicate k (CHR '' '')) \<longleftrightarrow> prefix [x, y] cs"
    if "x \<noteq> CHR '' ''" "y \<noteq> CHR '' ''" for x y
    using that by (cases cs; cases "tl cs"; cases k; cases "k - 1"; auto)
  have p1: "prefix [x] (cs @ replicate k (CHR '' '')) \<longleftrightarrow> prefix [x] cs" if "x \<noteq> CHR '' ''" for x
    using that by (cases cs; cases k) auto
  have len: "2 - length cs = 0" if "prefix [x, y] cs" for x y using prefix_length_le [OF that] by simp
  have len1: "Suc 0 - length cs = 0" if "prefix [x] cs" for x using prefix_length_le [OF that] by simp
  show ?case using 2 by (auto simp: p p1 prefix_Cons len len1)
qed

lemma lower_utf8_length: "length (lower_utf8 t) \<le> length t"
  by (induction t rule: lower_utf8.induct) auto

lemma trim_right_split: "\<exists>k. n = trim_right_spaces n @ replicate k (CHR '' '')"
proof -
  have "rev n = takeWhile (\<lambda>c. c = CHR '' '') (rev n) @ dropWhile (\<lambda>c. c = CHR '' '') (rev n)" by simp
  moreover have "takeWhile (\<lambda>c. c = CHR '' '') (rev n) = replicate (length (takeWhile (\<lambda>c. c = CHR '' '') (rev n))) (CHR '' '')"
    by (rule replicate_length_same [symmetric]) (blast dest: set_takeWhileD)
  ultimately show ?thesis
    unfolding trim_right_spaces_def by (metis rev_append rev_replicate rev_rev_ident)
qed

lemma trim_right_id: "t = [] \<or> last t \<noteq> CHR '' '' \<Longrightarrow> trim_right_spaces (t @ replicate k (CHR '' '')) = t"
  by (cases t rule: rev_cases) (auto simp: trim_right_spaces_def dropWhile_append)

lemma name_char_space [simp]: "\<not> name_char (CHR '' '')"
  by (simp add: name_char_def is_digit_def)

lemma valid_name:
  assumes "ValidateUsername n = None"
  shows "name_ok (normalizeUsername n)"
proof -
  let ?t = "trim_right_spaces n"
  have v: "length ?t \<le> maxUsernameLength" "usernameRegex (lower_utf8 ?t)"
    using assms by (auto simp: ValidateUsername_def Let_def split: if_splits)
  obtain k where n: "n = ?t @ replicate k (CHR '' '')" using trim_right_split by blast
  have "last (lower_utf8 ?t) \<noteq> CHR '' ''"
    using v(2) by (cases "lower_utf8 ?t" rule: rev_cases) (auto simp: usernameRegex_def)
  then have "normalizeUsername n = lower_utf8 ?t"
    by (subst n) (simp only: normalizeUsername_def lower_utf8_spaces, rule trim_right_id, blast)
  then show ?thesis using v lower_utf8_length [of ?t] by (simp add: name_ok_def)
qed

subsection \<open>Runs of the service\<close>

text \<open>The operations; between them other parts of the server may change Redis, other tables and the world
  outside.\<close>

datatype auth_op =
    ORegister RegisterRequest
  | OLogin LoginRequest
  | OGuest GuestRequest
  | OConvert ConvertGuestRequest
  | ORefresh string
  | OSetUsername uuid string
  | OForgot string
  | OReset string string
  | OOAuth string OAuthUserInfo

fun auth_exec :: "('r, 'x) AuthService \<Rightarrow> auth_op \<Rightarrow> ('r, 'e, 'x) world \<Rightarrow> ('r, 'e, 'x) world option" where
  "auth_exec s (ORegister req) w = Some (fst (Register s req w))"
| "auth_exec s (OLogin req) w = Some (fst (Login s req w))"
| "auth_exec s (OGuest req) w = Some (fst (CreateGuest s req w))"
| "auth_exec s (OConvert req) w = Some (fst (ConvertGuest s req w))"
| "auth_exec s (ORefresh t) w = Some (fst (RefreshToken s t w))"
| "auth_exec s (OSetUsername u n) w = map_option fst (SetUsername s u n w)"
| "auth_exec s (OForgot e) w = Some (fst (RequestPasswordReset s e w))"
| "auth_exec s (OReset t p) w = Some (fst (ResetPassword s t p w))"
| "auth_exec s (OOAuth provider info) w = Some (fst (CreateOrGetOAuthUser s provider info w))"

definition other_world :: "('r, 'e, 'x) world \<Rightarrow> ('r, 'e, 'x) world \<Rightarrow> bool" where
  "other_world w w' \<longleftrightarrow> accounts w' = accounts w"

text \<open>\<open>resets\<close>: whether passwords were reset on the way.\<close>

inductive auth_run :: "('r, 'x) AuthService \<Rightarrow> bool \<Rightarrow> ('r, 'e, 'x) world \<Rightarrow> ('r, 'e, 'x) world \<Rightarrow> bool"
  for s :: "('r, 'x) AuthService" and resets :: bool and w0 :: "('r, 'e, 'x) world" where
  start: "auth_run s resets w0 w0"
| op: "auth_run s resets w0 w \<Longrightarrow> auth_exec s oper w = Some w' \<Longrightarrow> (\<nexists>t p. oper = OReset t p) \<or> resets \<Longrightarrow> auth_run s resets w0 w'"
| other: "auth_run s resets w0 w \<Longrightarrow> other_world w w' \<Longrightarrow> auth_run s resets w0 w'"

lemma create_account_table: "create_account s what e p w = (w', r) \<Longrightarrow> advances b (accounts w) (accounts w')"
  by (auto simp: create_account_def dest!: same_table CreateUser_table split: prod.splits if_splits sum.splits)

lemma Login_table: "Login s req w = (w', r) \<Longrightarrow> advances b (accounts w) (accounts w')"
  by (auto simp: Login_def dest!: same_table UpdateLogin_table split: prod.splits sum.splits option.splits)

lemma CreateGuest_table: "CreateGuest s req w = (w', r) \<Longrightarrow> accounts w' = accounts w"
  by (auto simp: CreateGuest_def generateGuestUsername_def Let_def dest!: same_table split: prod.splits sum.splits option.splits)

lemma RefreshToken_table: "RefreshToken s t w = (w', r) \<Longrightarrow> accounts w' = accounts w"
  by (auto simp: RefreshToken_def dest!: same_table split: prod.splits sum.splits if_splits)

lemma RequestPasswordReset_table: "RequestPasswordReset s e w = (w', r) \<Longrightarrow> accounts w' = accounts w"
  by (auto simp: RequestPasswordReset_def Let_def dest!: same_table split: prod.splits sum.splits option.splits if_splits)

lemma ResetPassword_table: "ResetPassword s t p w = (w', r) \<Longrightarrow> advances False (accounts w) (accounts w')"
  by (auto simp: ResetPassword_def Let_def dest!: same_table UpdatePassword_table split: prod.splits sum.splits option.splits if_splits reply.splits doc.splits)

lemma OAuth_table: "CreateOrGetOAuthUser s provider info w = (w', r) \<Longrightarrow> advances b (accounts w) (accounts w')"
  by (auto simp: CreateOrGetOAuthUser_def dest!: same_table CreateUser_table split: prod.splits if_splits sum.splits)

lemma SetUsername_table: "SetUsername s u n w = Some (w', r) \<Longrightarrow> advances b (accounts w) (accounts w')"
  by (auto simp: SetUsername_def Let_def dest!: same_table UpdateUsername_table valid_name split: prod.splits sum.splits option.splits if_splits)

lemmas exec_same = CreateGuest_table [OF prod.collapse [symmetric]] RefreshToken_table [OF prod.collapse [symmetric]]
  RequestPasswordReset_table [OF prod.collapse [symmetric]]

lemmas exec_advance = create_account_table [OF prod.collapse [symmetric]] Login_table [OF prod.collapse [symmetric]]
  OAuth_table [OF prod.collapse [symmetric]] ResetPassword_table [OF prod.collapse [symmetric]]

lemma auth_exec_table:
  "auth_exec s oper w = Some w' \<Longrightarrow> (\<nexists>t p. oper = OReset t p) \<or> \<not> b \<Longrightarrow> advances b (accounts w) (accounts w')"
  by (cases oper) (auto simp: Register_def ConvertGuest_def exec_same intro!: exec_advance dest: SetUsername_table)

lemma auth_run_advances: "auth_run s resets w0 w \<Longrightarrow> advances (\<not> resets) (accounts w0) (accounts w)"
proof (induction rule: auth_run.induct)
  case (op w oper w')
  then show ?case using auth_exec_table [OF op.hyps(2), of "\<not> resets"] advances_trans by blast
qed (auto simp: other_world_def)

lemma accounts_ok_Nil [simp]: "accounts_ok []"
  by (simp add: accounts_ok_def)

subsection \<open>What the service relies on\<close>

text \<open>A password matches every hash that bcrypt made of it; a printed identifier parses to itself;
  \<open>rand.Intn(n)\<close> is below \<open>n\<close>.\<close>

locale auth_library = jwt_library "as_jwt s" for s :: "('r, 'x) AuthService" +
  assumes bcrypt_matches: "as_bcrypt s p cost x = (x', Inr h) \<Longrightarrow> as_compare s h p = None"
    and parse_us: "as_parse s (as_us s u) = Inr u"
    and intn_below: "0 < n \<Longrightarrow> snd (as_intn s n x) < n"
begin

lemma hash_matches: "HashPassword s p w = (w', Inr h) \<Longrightarrow> VerifyPassword s h p = None"
  by (auto simp: HashPassword_def VerifyPassword_def on_ext_def dest: bcrypt_matches split: if_splits prod.splits)

lemma tokens_ok: "\<exists>tp. generateTokenPair s u w = (fst (generateTokenPair s u w), Inr tp)"
proof -
  obtain w1 t1 where 1: "on_ext (as_now s) w = (w1, t1)" by force
  obtain w2 t2 where 2: "on_ext (as_now s) w1 = (w2, t2)" by force
  obtain acc where a: "GenerateAccessToken (as_jwt s) (as_us s) (as_tokenMgr s) t1 (jwt_user u) = Inr acc"
    using sign_ok by (auto simp: GenerateAccessToken_def)
  obtain ref where r: "GenerateRefreshToken (as_jwt s) (as_us s) (as_tokenMgr s) t2 (jwt_user u) = Inr ref"
    using sign_ok by (auto simp: GenerateRefreshToken_def)
  show ?thesis by (simp add: generateTokenPair_def 1 2 a r)
qed

lemma with_tokens_ok: "\<exists>tp. with_tokens s u w = (fst (generateTokenPair s u w), Inr (u, tp))"
proof -
  obtain tp where "generateTokenPair s u w = (fst (generateTokenPair s u w), Inr tp)" using tokens_ok by blast
  then show ?thesis by (cases "generateTokenPair s u w") (simp add: with_tokens_def)
qed

lemma login_ok:
  assumes "accounts_ok (accounts w)" "db_error (w_db w) = None" "r \<in> set (accounts w)" "same_email (du_Email r) (Some e)"
    and "du_PasswordHash r = Some h" "as_compare s h p = None"
  shows "\<exists>w' tp. Login s \<lparr>li_Email = e, li_Password = p\<rparr> w = (w', Inr (loaded_user r, tp))"
proof -
  have "List.find (\<lambda>q. same_email (du_Email q) (Some e)) (accounts w) = Some r"
    by (rule find_email [OF _ assms(3,4)]) (use assms(1) in \<open>simp add: accounts_ok_def\<close>)
  then have g: "on_db (GetUserByEmail (Some e)) w = (w\<lparr>w_db := db_next (w_db w)\<rparr>, Inr r)"
    using assms(2) by (simp add: on_db_def GetUserByEmail_def one_user_def stmt_def db_next_def)
  obtain w2 x where u: "on_db (UpdateLogin (as_scan s) (du_UserID r)) (w\<lparr>w_db := db_next (w_db w)\<rparr>) = (w2, x)" by force
  show ?thesis
    using with_tokens_ok [of "loaded_user r" w2] assms(5,6) by (auto simp: Login_def g u VerifyPassword_def)
qed

lemma suffix_loop_chars: "suffix_loop s n w = (w', cs) \<Longrightarrow> length cs = n \<and> list_all name_char cs"
proof (induction n arbitrary: w cs)
  case (Suc n)
  obtain w1 j where d: "on_ext (as_intn s (length guest_chars)) w = (w1, j)" by force
  then have "j < length guest_chars"
    using intn_below [of "length guest_chars" "w_ext w"] by (auto simp: on_ext_def guest_chars_def split: prod.splits)
  moreover have "list_all name_char guest_chars" by (simp add: guest_chars_def name_char_def is_digit_def)
  ultimately have "name_char (guest_chars ! j)" by (simp add: list_all_length)
  then show ?case using Suc d by (auto split: prod.splits)
qed simp

lemma guest_loop_name:
  assumes "guest_loop s n w = (w', Inr g)"
  shows "\<exists>suf. g = ''guest_'' @ suf \<and> 6 \<le> length suf \<and> length suf \<le> 8 \<and> list_all name_char suf"
  using assms
proof (induction n arbitrary: w)
  case (Suc n)
  obtain w1 l where d: "on_ext (as_intn s 3) w = (w1, l)" by force
  then have "l < 3" using intn_below [of 3 "w_ext w"] by (auto simp: on_ext_def split: prod.splits)
  moreover obtain w2 suf where x: "suffix_loop s (6 + l) w1 = (w2, suf)" by force
  ultimately show ?case
    using Suc suffix_loop_chars [OF x] d by (auto simp: Let_def split: prod.splits option.splits sum.splits if_splits)
qed simp

end

subsection \<open>A service that can run\<close>

text \<open>A clock that counts, hashes that show the password behind a mark, the server in memory.\<close>

definition ex_us :: "uuid \<Rightarrow> string" where
  "ex_us u = CHR ''u'' # show_nat (unat u)"

definition ex_parse_us :: "string \<Rightarrow> uuid res" where
  "ex_parse_us t = (if t \<noteq> [] \<and> hd t = CHR ''u'' \<and> list_all is_digit (tl t) then Inr (word_of_int (digits_val (tl t)))
     else Inl ''invalid UUID'')"

definition ex_auth :: "(mem, nat) AuthService" where
  "ex_auth = \<lparr>as_tokenMgr = NewTokenManager \<lparr>tc_AccessSecret = ''a'', tc_RefreshSecret = ''r'', tc_AccessTTL = 0,
       tc_RefreshTTL = 0, tc_Issuer = []\<rparr>,
     as_redis = Some mem_client,
     as_emailSvc = Some \<lparr>em_smtpHost = ''mail'', em_smtpPort = 587, em_smtpUsername = [], em_smtpPassword = [], em_fromEmail = []\<rparr>,
     as_jwt = ex_jwt, as_us = ex_us, as_parse = ex_parse_us, as_scan = (\<lambda>u. Inr (Some u)),
     as_now = (\<lambda>x. (Suc x, int x * second)), as_uuid = (\<lambda>x. (Suc x, of_nat x)), as_intn = (\<lambda>n x. (Suc x, x mod n)),
     as_rand = (\<lambda>n x. (Suc x, Inr (replicate n (digit (x mod 10))))),
     as_bcrypt = (\<lambda>p cost x. (Suc x, Inr (''$'' @ p))),
     as_compare = (\<lambda>h p. if h = ''$'' @ p then None else Some ''mismatch''),
     as_sendmail = (\<lambda>m x. (Suc x, None))\<rparr>"

lemma ex_auth_sel [simp]:
  "as_redis ex_auth = Some mem_client" "as_scan ex_auth = (\<lambda>u. Inr (Some u))" "as_uuid ex_auth = (\<lambda>x. (Suc x, of_nat x))"
  "as_bcrypt ex_auth = (\<lambda>p cost x. (Suc x, Inr (''$'' @ p)))" "as_intn ex_auth = (\<lambda>n x. (Suc x, x mod n))"
  "as_now ex_auth = (\<lambda>x. (Suc x, int x * second))" "as_jwt ex_auth = ex_jwt" "as_us ex_auth = ex_us"
  "as_compare ex_auth = (\<lambda>h p. if h = ''$'' @ p then None else Some ''mismatch'')" "as_parse ex_auth = ex_parse_us"
  by (simp_all add: ex_auth_def)

lemma ex_parse_us_id: "ex_parse_us (ex_us u) = Inr u"
  using show_nat_digits [of "unat u"] by (simp add: ex_us_def ex_parse_us_def)

interpretation ex_auth_lib: auth_library ex_auth
proof -
  have j: "jwt_library (as_jwt ex_auth)" using ex_jwt_lib.jwt_library_axioms by (simp add: ex_auth_def)
  show "auth_library ex_auth"
    by (intro auth_library.intro j auth_library_axioms.intro) (auto simp: ex_auth_def ex_parse_us_id)
qed

text \<open>An empty database and the state of the server in memory.\<close>

definition ex_auth_world :: "(mem, unit, nat) world" where
  "ex_auth_world = \<lparr>w_redis = \<lparr>mem_tab = Map.empty, mem_clk = 0, mem_lat = 1, mem_faults = []\<rparr>,
     w_db = \<lparr>db_users = [], db_matches = Map.empty, db_players = Map.empty, db_questions = Map.empty, db_snapshots = [],
        db_now = 0, db_uuids = (\<lambda>n. of_nat (n + 1)), db_drawn = 0, db_orders = (\<lambda>n. []), db_listed = 0, db_faults = []\<rparr>,
     w_ext = 0\<rparr>"

end
