(* ===== verification/SignIn.thy ===== *)
theory SignIn
  imports Accounts
begin

section \<open>Signing in: properties of the authentication service\<close>

text \<open>Theorems on whole operations and on runs of the service, over the lemmas of theory Accounts.\<close>

lemma create_account_result:
  assumes "auth_library s" "create_account s what e p w = (w1, Inr (u, tp))"
  shows "\<exists>row h. row \<in> set (accounts w1) \<and> du_Email row = Some e \<and> du_PasswordHash row = Some h \<and> as_compare s h p = None \<and>
    du_UserType row = ''registered'' \<and> u = registered_user row e"
proof -
  obtain w2 ex where g: "on_db (GetUserByEmail (Some e)) w = (w2, ex)" by force
  obtain w3 h where h: "HashPassword s p w2 = (w3, Inr h)"
    using assms(2) g by (auto simp: create_account_def split: if_splits prod.splits sum.splits)
  obtain w4 row where c: "on_db (CreateUser (registered_params e (Some h) None)) w3 = (w4, Inr row)"
    and t: "with_tokens s (registered_user row e) w4 = (w1, Inr (u, tp))"
    using assms(2) g h by (auto simp: create_account_def split: if_splits prod.splits sum.splits)
  from t have u: "u = registered_user row e" by (auto simp: with_tokens_def split: prod.splits sum.splits)
  have m: "as_compare s h p = None"
    using auth_library.hash_matches [OF assms(1) h] by (simp add: VerifyPassword_def)
  from c obtain d where d: "CreateUser (registered_params e (Some h) None) (w_db w3) = (d, Inr row)" "w4 = w3\<lparr>w_db := d\<rparr>"
    by (rule on_dbE)
  have "row \<in> set (accounts w1)" using CreateUser_cases [OF d(1)] with_tokens_table [OF t] d(2) by simp
  moreover have "du_Email row = Some e \<and> du_PasswordHash row = Some h \<and> du_UserType row = ''registered''"
    using CreateUser_cases [OF d(1)] by (auto simp: registered_params_def user_row_def)
  ultimately show ?thesis using u m by blast
qed

text \<open>C7: Who registered can sign in with the same password and the same e-mail address, in upper or lower
  case, after whatever the service did in between except resetting passwords, and is the same user.\<close>

theorem register_then_login:
  assumes "auth_library s" "accounts_ok (accounts w)" "Register s req w = (w1, Inr (u, tp))" "auth_run s False w1 w2"
    and "db_error (w_db w2) = None" "equal_fold email (rg_Email req)"
  shows "\<exists>w3 v tp2. Login s \<lparr>li_Email = email, li_Password = rg_Password req\<rparr> w2 = (w3, Inr (v, tp2)) \<and>
    au_ID v = au_ID u \<and> au_Email v = Some (rg_Email req) \<and> au_UserType v = ''registered'' \<and> \<not> au_IsGuest v"
proof -
  from assms(3) have c: "create_account s ''create user'' (rg_Email req) (rg_Password req) w = (w1, Inr (u, tp))"
    by (auto simp: Register_def split: if_splits)
  from create_account_result [OF assms(1) c] obtain row h where row:
    "row \<in> set (accounts w1)" "du_Email row = Some (rg_Email req)" "du_PasswordHash row = Some h"
    "as_compare s h (rg_Password req) = None" "du_UserType row = ''registered''" "u = registered_user row (rg_Email req)" by blast
  have a: "advances True (accounts w1) (accounts w2)" using auth_run_advances [OF assms(4)] by simp
  have ok: "accounts_ok (accounts w2)" using create_account_table [OF c, of True] a assms(2) by (simp add: advances_def)
  obtain r where r: "r \<in> set (accounts w2)" "same_account row r" "du_PasswordHash r = Some h"
    using a row(1,3) by (auto simp: advances_def)
  have "same_email (du_Email r) (Some email)"
    using r(2) row(2) assms(6) by (simp add: same_account_def same_email_def equal_fold_def)
  from auth_library.login_ok [OF assms(1) ok assms(5) r(1) this r(3) row(4)]
  show ?thesis using r(2) row by (auto simp: loaded_user_def registered_user_def same_account_def)
qed

definition ex_reg :: RegisterRequest where
  "ex_reg = \<lparr>rg_Email = ''a@b.c'', rg_Password = ''secret12''\<rparr>"

lemma ex_register: "\<exists>w1 u tp. Register ex_auth ex_reg ex_auth_world = (w1, Inr (u, tp)) \<and> db_error (w_db w1) = None"
proof -
  have "\<exists>u w0. Register ex_auth ex_reg ex_auth_world = with_tokens ex_auth u w0 \<and> db_error (w_db w0) = None"
    by (simp add: Register_def create_account_def ex_reg_def on_db_def GetUserByEmail_def one_user_def stmt_def db_error_def
        ex_auth_world_def found_user_def HashPassword_def minPasswordLength_def on_ext_def CreateUser_def registered_params_def
        user_types_def db_next_def no_rows_def Let_def)
      (rule exI, rule exI, rule conjI, rule refl, simp)
  then obtain u w0 where r: "Register ex_auth ex_reg ex_auth_world = with_tokens ex_auth u w0" "db_error (w_db w0) = None" by blast
  obtain w1 tp where t: "with_tokens ex_auth u w0 = (w1, Inr (u, tp))" using ex_auth_lib.with_tokens_ok by blast
  show ?thesis using r t with_tokens_other [OF t] by auto
qed

theorem register_then_login_witness:
  "\<exists>w1 u tp w3 v tp2. Register ex_auth ex_reg ex_auth_world = (w1, Inr (u, tp)) \<and>
     Login ex_auth \<lparr>li_Email = ''A@B.C'', li_Password = ''secret12''\<rparr> w1 = (w3, Inr (v, tp2)) \<and> au_ID v = au_ID u"
proof -
  obtain w1 u tp where r: "Register ex_auth ex_reg ex_auth_world = (w1, Inr (u, tp))" "db_error (w_db w1) = None"
    using ex_register by blast
  have ok: "accounts_ok (accounts ex_auth_world)" by (simp add: ex_auth_world_def)
  have f: "equal_fold ''A@B.C'' (rg_Email ex_reg)" by code_simp
  from register_then_login [OF ex_auth_lib.auth_library_axioms ok r(1) auth_run.start r(2) f] r(1)
  show ?thesis by (auto simp: ex_reg_def)
qed

text \<open>C6: In every run of the service the constraints of the accounts hold: identifiers, e-mail addresses
  and user names are unique and user names well-formed. And no account is lost: each keeps its
  identifier, e-mail address and type, its user name once it has one, and its password unless
  passwords were reset.\<close>

theorem accounts_are_permanent:
  assumes "accounts_ok (accounts w0)" "auth_run s resets w0 w"
  shows "accounts_ok (accounts w) \<and> (\<forall>r \<in> set (accounts w0). \<exists>!q. q \<in> set (accounts w) \<and> du_UserID q = du_UserID r \<and>
      du_Email q = du_Email r \<and> du_UserType q = du_UserType r \<and> (du_Username r \<noteq> None \<longrightarrow> du_Username q = du_Username r) \<and>
      (\<not> resets \<longrightarrow> du_PasswordHash q = du_PasswordHash r))"
proof -
  note a = auth_run_advances [OF assms(2)]
  have ok: "accounts_ok (accounts w)" using a assms(1) by (simp add: advances_def)
  then have u: "users_ok (accounts w)" by (simp add: accounts_ok_def)
  show ?thesis
  proof (intro conjI ok ballI)
    fix r assume "r \<in> set (accounts w0)"
    with a obtain q where q: "q \<in> set (accounts w)" "same_account r q" "\<not> resets \<longrightarrow> du_PasswordHash q = du_PasswordHash r"
      unfolding advances_def by blast
    show "\<exists>!q. q \<in> set (accounts w) \<and> du_UserID q = du_UserID r \<and>
      du_Email q = du_Email r \<and> du_UserType q = du_UserType r \<and> (du_Username r \<noteq> None \<longrightarrow> du_Username q = du_Username r) \<and>
      (\<not> resets \<longrightarrow> du_PasswordHash q = du_PasswordHash r)"
    proof (rule ex1I [of _ q])
      fix x assume "x \<in> set (accounts w) \<and> du_UserID x = du_UserID r \<and> du_Email x = du_Email r \<and> du_UserType x = du_UserType r \<and>
        (du_Username r \<noteq> None \<longrightarrow> du_Username x = du_Username r) \<and> (\<not> resets \<longrightarrow> du_PasswordHash x = du_PasswordHash r)"
      then show "x = q" using users_ok_unique [OF u _ q(1), of x] q(2) unfolding same_account_def by metis
    qed (use q in \<open>simp add: same_account_def\<close>)
  qed
qed

theorem accounts_are_permanent_witness:
  "\<exists>w. auth_run ex_auth False ex_auth_world w \<and> accounts_ok (accounts w) \<and> accounts w \<noteq> []"
proof -
  obtain w1 u tp where r: "Register ex_auth ex_reg ex_auth_world = (w1, Inr (u, tp))" using ex_register by blast
  then have run: "auth_run ex_auth False ex_auth_world w1"
    by (intro auth_run.op [OF auth_run.start, where oper = "ORegister ex_reg"]) auto
  have ok: "accounts_ok (accounts ex_auth_world)" by (simp add: ex_auth_world_def)
  have "create_account ex_auth ''create user'' (rg_Email ex_reg) (rg_Password ex_reg) ex_auth_world = (w1, Inr (u, tp))"
    using r by (simp add: Register_def ex_reg_def)
  from create_account_result [OF ex_auth_lib.auth_library_axioms this] have "accounts w1 \<noteq> []" by auto
  with run accounts_are_permanent [OF ok run] show ?thesis by blast
qed

subsection \<open>Resetting a password\<close>

lemma ResetPassword_success:
  assumes "redis_server rc tab clk" "as_redis s = Some rc" "ResetPassword s token p w = (w1, None)"
  shows "\<exists>m t0 u w2 w3 h w4. live t0 (tab (w_redis w)) (reset_key token) = Some (DObject m) \<and> clk (w_redis w) \<le> t0 \<and>
    (\<exists>i. map_of m ''user_id'' = Some i \<and> as_parse s i = Inr u) \<and> accounts w2 = accounts w \<and> HashPassword s p w2 = (w3, Inr h) \<and>
    on_db (UpdatePassword (as_scan s) u h) w3 = (w4, Inr ()) \<and> w1 = fst (on_redis (\<lambda>r. rc_Del rc r (reset_key token)) w4)"
proof -
  obtain r' x where g: "rc_Get rc (w_redis w) (reset_key token) = (r', x)" by force
  let ?w2 = "w\<lparr>w_redis := r'\<rparr>"
  have gw: "on_redis (\<lambda>r. rc_Get rc r (reset_key token)) w = (?w2, x)" using g by (simp add: on_redis_def)
  from assms(3) obtain d where x: "x = RVal d"
    by (cases x) (auto simp: ResetPassword_def assms(2) gw split: if_splits)
  from assms(3) obtain m where d: "d = DObject m"
    by (cases d) (auto simp: ResetPassword_def assms(2) gw x split: if_splits)
  from assms(3) obtain i u where i: "map_of m ''user_id'' = Some i" "as_parse s i = Inr u"
    by (auto simp: ResetPassword_def assms(2) gw x d split: if_splits option.splits sum.splits)
  from assms(3) i obtain w3 h where h: "HashPassword s p ?w2 = (w3, Inr h)"
    by (auto simp: ResetPassword_def assms(2) gw x d split: if_splits prod.splits sum.splits)
  from assms(3) i h obtain w4 where u: "on_db (UpdatePassword (as_scan s) u h) w3 = (w4, Inr ())"
    "w1 = fst (on_redis (\<lambda>r. rc_Del rc r (reset_key token)) w4)"
    by (auto simp: ResetPassword_def assms(2) gw x d split: if_splits prod.splits sum.splits)
  note l = redis_server.get_val [OF assms(1) g [unfolded x d]]
    same_dataD(2) [OF redis_server.get_data [OF assms(1) g]]
  show ?thesis
    by (rule exI [of _ m], rule exI [of _ "clk r'"], rule exI [of _ u], rule exI [of _ ?w2], rule exI [of _ w3],
        rule exI [of _ h], rule exI [of _ w4]) (use l i h u in auto)
qed

lemma login_iff:
  assumes "auth_library s" "accounts_ok (accounts w)" "db_error (w_db w) = None" "r \<in> set (accounts w)" "same_email (du_Email r) (Some e)"
  shows "(\<exists>w' u tp. Login s \<lparr>li_Email = e, li_Password = q\<rparr> w = (w', Inr (u, tp)) \<and> au_ID u = du_UserID r) \<longleftrightarrow>
    (\<exists>h. du_PasswordHash r = Some h \<and> as_compare s h q = None)"
proof
  assume "\<exists>w' u tp. Login s \<lparr>li_Email = e, li_Password = q\<rparr> w = (w', Inr (u, tp)) \<and> au_ID u = du_UserID r"
  then obtain w' u tp where l: "Login s \<lparr>li_Email = e, li_Password = q\<rparr> w = (w', Inr (u, tp))" by blast
  have "List.find (\<lambda>q. same_email (du_Email q) (Some e)) (accounts w) = Some r"
    by (rule find_email [OF _ assms(4,5)]) (use assms(2) in \<open>simp add: accounts_ok_def\<close>)
  then have "on_db (GetUserByEmail (Some e)) w = (w\<lparr>w_db := db_next (w_db w)\<rparr>, Inr r)"
    using assms(3) by (simp add: on_db_def GetUserByEmail_def one_user_def stmt_def db_next_def)
  with l show "\<exists>h. du_PasswordHash r = Some h \<and> as_compare s h q = None"
    by (auto simp: Login_def VerifyPassword_def split: option.splits prod.splits)
next
  assume "\<exists>h. du_PasswordHash r = Some h \<and> as_compare s h q = None"
  then obtain h where h: "du_PasswordHash r = Some h" "as_compare s h q = None" by blast
  from auth_library.login_ok [OF assms(1-5) h]
  show "\<exists>w' u tp. Login s \<lparr>li_Email = e, li_Password = q\<rparr> w = (w', Inr (u, tp)) \<and> au_ID u = du_UserID r"
    by (fastforce simp: loaded_user_def)
qed

lemma UpdatePassword_table_result:
  assumes "on_db (UpdatePassword sc u h) w = (w', Inr ())"
  shows "accounts w' = map (\<lambda>q. if has_id (scan_uuid sc u) q then q\<lparr>du_PasswordHash := Some h, du_UpdatedAt := db_now (w_db w)\<rparr> else q) (accounts w)"
  using assms by (auto simp: on_db_def UpdatePassword_def UpdatePasswordRow_def stmt_def db_next_def split: option.splits)

text \<open>C22: What a reset does to an account depends on \<open>pgtype.UUID.Scan\<close>, which turns the identifier of the account
  into the one of the statement. When a reset with the token that was stored for the account reports success:
  if the scan accepts the \<open>uuid.UUID\<close>, exactly the passwords that match a new hash, one the new password matches, sign
  the account in afterwards; if the scan rejects it, as pgx v5 documents for anything but text, the accounts are as
  before, and exactly the passwords that signed in before still do: the new one only if it matches the old
  hash.\<close>

theorem reset_then_login:
  assumes "auth_library s" "redis_server rc tab clk" "as_redis s = Some rc" "accounts_ok (accounts w)" "row \<in> set (accounts w)"
    and "du_Email row = Some e" "tab (w_redis w) (reset_key token) = Some (DObject [(''user_id'', as_us s (du_UserID row)), (''email'', e)], dl)"
    and "ResetPassword s token p w = (w1, None)" "db_error (w_db w1) = None"
  shows "(as_scan s (du_UserID row) = Inr (Some (du_UserID row)) \<longrightarrow> (\<exists>h. as_compare s h p = None \<and>
      (\<forall>q. (\<exists>w2 u tp. Login s \<lparr>li_Email = e, li_Password = q\<rparr> w1 = (w2, Inr (u, tp)) \<and> au_ID u = du_UserID row) \<longleftrightarrow>
        as_compare s h q = None))) \<and>
    ((\<exists>err. as_scan s (du_UserID row) = Inl err) \<longrightarrow> accounts w1 = accounts w \<and>
      (\<forall>q. (\<exists>w2 u tp. Login s \<lparr>li_Email = e, li_Password = q\<rparr> w1 = (w2, Inr (u, tp)) \<and> au_ID u = du_UserID row) \<longleftrightarrow>
        (\<exists>h. du_PasswordHash row = Some h \<and> as_compare s h q = None)))"
proof -
  from ResetPassword_success [OF assms(2,3,8)] obtain m t0 u w2 w3 h w4 i where
    l: "live t0 (tab (w_redis w)) (reset_key token) = Some (DObject m)" and i: "map_of m ''user_id'' = Some i" "as_parse s i = Inr u"
    and h: "accounts w2 = accounts w" "HashPassword s p w2 = (w3, Inr h)" and u: "on_db (UpdatePassword (as_scan s) u h) w3 = (w4, Inr ())"
    and w1: "w1 = fst (on_redis (\<lambda>r. rc_Del rc r (reset_key token)) w4)" by blast
  from l assms(7) have m: "m = [(''user_id'', as_us s (du_UserID row)), (''email'', e)]"
    by (auto simp: live_def split: option.splits if_splits)
  then have i': "u = du_UserID row" using i auth_library.parse_us [OF assms(1), of "du_UserID row"] by simp
  have a3: "accounts w3 = accounts w" using HashPassword_table [OF h(2)] h(1) by simp
  have ok: "accounts_ok (accounts w1)" using ResetPassword_table [OF assms(8)] assms(4) by (simp add: advances_def)
  note a1 = UpdatePassword_table_result [OF u, unfolded i' a3]
  show ?thesis
  proof (intro conjI impI)
    assume sc: "as_scan s (du_UserID row) = Inr (Some (du_UserID row))"
    let ?r = "row\<lparr>du_PasswordHash := Some h, du_UpdatedAt := db_now (w_db w3)\<rparr>"
    have "?r \<in> set (accounts w1)"
      unfolding w1 fst_on_redis_table a1 using assms(5) sc by (auto simp: scan_uuid_def has_id_def image_iff intro!: bexI [of _ row])
    from login_iff [OF assms(1) ok assms(9) this, of e] assms(6)
    have "(\<exists>w2 u tp. Login s \<lparr>li_Email = e, li_Password = q\<rparr> w1 = (w2, Inr (u, tp)) \<and> au_ID u = du_UserID row) \<longleftrightarrow> as_compare s h q = None" for q
      by (simp add: same_email_def)
    moreover have "as_compare s h p = None" using auth_library.hash_matches [OF assms(1) h(2)] by (simp add: VerifyPassword_def)
    ultimately show "\<exists>h. as_compare s h p = None \<and>
      (\<forall>q. (\<exists>w2 u tp. Login s \<lparr>li_Email = e, li_Password = q\<rparr> w1 = (w2, Inr (u, tp)) \<and> au_ID u = du_UserID row) \<longleftrightarrow>
        as_compare s h q = None)" by blast
  next
    assume "\<exists>err. as_scan s (du_UserID row) = Inl err"
    then show same: "accounts w1 = accounts w"
      unfolding w1 fst_on_redis_table a1 by (auto simp: scan_uuid_def has_id_def)
    with login_iff [OF assms(1) ok assms(9), of row e] assms(5,6)
    show "\<forall>q. (\<exists>w2 u tp. Login s \<lparr>li_Email = e, li_Password = q\<rparr> w1 = (w2, Inr (u, tp)) \<and> au_ID u = du_UserID row) \<longleftrightarrow>
        (\<exists>h. du_PasswordHash row = Some h \<and> as_compare s h q = None)" by (simp add: same_email_def)
  qed
qed

lemma reset_needs_token:
  assumes "redis_server rc tab clk" "as_redis s = Some rc" "\<And>t. clk (w_redis w) \<le> t \<Longrightarrow> live t (tab (w_redis w)) (reset_key token) = None"
  shows "snd (ResetPassword s token p w) \<noteq> None"
proof
  assume "snd (ResetPassword s token p w) = None"
  then have "ResetPassword s token p w = (fst (ResetPassword s token p w), None)" by (metis prod.collapse)
  from ResetPassword_success [OF assms(1,2) this] assms(3) show False by fastforce
qed

text \<open>A reset link ends: once its deadline has passed it is refused, and once it was used every later
  use is refused too, unless deleting the token reported an error, which the service only logs.\<close>

theorem reset_links_end:
  assumes "redis_server rc tab clk" "as_redis s = Some rc"
  shows "(tab (w_redis w) (reset_key token) = Some (d, Some t) \<and> t \<le> clk (w_redis w) \<longrightarrow> snd (ResetPassword s token p w) \<noteq> None) \<and>
    (ResetPassword s token p w = (w1, None) \<longrightarrow>
      (\<exists>w4 e. on_redis (\<lambda>r. rc_Del rc r (reset_key token)) w4 = (w1, Some e)) \<or>
      (\<forall>w2 q. tab (w_redis w2) (reset_key token) = tab (w_redis w1) (reset_key token) \<longrightarrow> snd (ResetPassword s token q w2) \<noteq> None))"
proof (intro conjI impI; (elim conjE)?)
  assume "tab (w_redis w) (reset_key token) = Some (d, Some t)" "t \<le> clk (w_redis w)"
  then show "snd (ResetPassword s token p w) \<noteq> None"
    by (intro reset_needs_token [OF assms(1,2)]) (simp add: live_def)
next
  assume r: "ResetPassword s token p w = (w1, None)"
  from ResetPassword_success [OF assms(1,2) r] obtain w4 where w1: "w1 = fst (on_redis (\<lambda>r. rc_Del rc r (reset_key token)) w4)" by blast
  obtain r' x where d: "rc_Del rc (w_redis w4) (reset_key token) = (r', x)" by force
  show "(\<exists>w4 e. on_redis (\<lambda>r. rc_Del rc r (reset_key token)) w4 = (w1, Some e)) \<or>
      (\<forall>w2 q. tab (w_redis w2) (reset_key token) = tab (w_redis w1) (reset_key token) \<longrightarrow> snd (ResetPassword s token q w2) \<noteq> None)"
  proof (cases x)
    case None
    have gone: "tab (w_redis w1) (reset_key token) = None"
      using becomesD(1) [OF redis_server.del_ok [OF assms(1) d [unfolded None]]] w1 d by (simp add: on_redis_def)
    have "snd (ResetPassword s token q w2) \<noteq> None"
      if "tab (w_redis w2) (reset_key token) = tab (w_redis w1) (reset_key token)" for w2 q
      using that gone by (intro reset_needs_token [OF assms(1,2)]) (simp add: live_def)
    then show ?thesis by blast
  next
    case (Some e)
    then have "on_redis (\<lambda>r. rc_Del rc r (reset_key token)) w4 = (w1, Some e)" using d w1 by (simp add: on_redis_def)
    then show ?thesis by blast
  qed
qed

text \<open>An account that has a reset link.\<close>

definition ex_row :: UserRow where
  "ex_row = \<lparr>du_UserID = 7, du_Email = Some ''a@b.c'', du_PasswordHash = Some ''$forgotten'', du_Username = None,
     du_UserType = ''registered'', du_Status = ''active'', du_CreatedAt = 0, du_UpdatedAt = 0, du_LastLoginAt = None, du_Metadata = []\<rparr>"

definition ex_link :: doc where
  "ex_link = DObject [(''user_id'', ex_us 7), (''email'', ''a@b.c'')]"

definition ex_reset_world :: "(mem, unit, nat) world" where
  "ex_reset_world = ex_auth_world\<lparr>w_redis := (w_redis ex_auth_world)\<lparr>mem_tab := [reset_key ''t'' \<mapsto> (ex_link, Some 100)]\<rparr>,
     w_db := (w_db ex_auth_world)\<lparr>db_users := [ex_row]\<rparr>\<rparr>"

text \<open>The same service with a scanner that takes text only.\<close>

definition ex_rejecting :: "(mem, nat) AuthService" where
  "ex_rejecting = ex_auth\<lparr>as_scan := \<lambda>u. Inl ''cannot scan uuid.UUID''\<rparr>"

lemma ex_rejecting_sel [simp]:
  "as_redis ex_rejecting = Some mem_client" "as_us ex_rejecting = ex_us" "as_scan ex_rejecting = (\<lambda>u. Inl ''cannot scan uuid.UUID'')"
  "as_compare ex_rejecting = (\<lambda>h p. if h = ''$'' @ p then None else Some ''mismatch'')" "as_parse ex_rejecting = ex_parse_us"
  "as_bcrypt ex_rejecting = (\<lambda>p cost x. (Suc x, Inr (''$'' @ p)))"
  by (simp_all add: ex_rejecting_def)

lemma ex_rejecting_lib: "auth_library ex_rejecting"
proof -
  have j: "jwt_library (as_jwt ex_rejecting)" using ex_jwt_lib.jwt_library_axioms by (simp add: ex_rejecting_def)
  show ?thesis
    by (intro auth_library.intro j auth_library_axioms.intro) (auto simp: ex_rejecting_def ex_auth_def ex_parse_us_id)
qed

lemma ex_reset:
  assumes "s = ex_auth \<or> s = ex_rejecting"
  shows "\<exists>w1. ResetPassword s ''t'' ''secret12'' ex_reset_world = (w1, None) \<and> db_error (w_db w1) = None \<and>
    mem_tab (w_redis w1) (reset_key ''t'') = None"
  using assms
  by (auto simp: ResetPassword_def ex_reset_world_def minPasswordLength_def on_redis_def mem_client_def mem_fault_def mem_next_def
      live_def ex_auth_world_def ex_link_def ex_parse_us_id HashPassword_def on_ext_def on_db_def UpdatePassword_def
      UpdatePasswordRow_def stmt_def db_error_def scan_uuid_def update_users_def db_next_def Let_def mem_write_def)

lemma ex_reset_accounts: "accounts_ok (accounts ex_reset_world)" "accounts ex_reset_world = [ex_row]"
    "mem_tab (w_redis ex_reset_world) (reset_key ''t'') = Some (ex_link, Some 100)"
  by (simp_all add: ex_reset_world_def ex_row_def accounts_ok_def users_ok_def user_types_def)

theorem reset_then_login_witness:
  "(\<exists>w1 w2 u tp. ResetPassword ex_auth ''t'' ''secret12'' ex_reset_world = (w1, None) \<and>
     Login ex_auth \<lparr>li_Email = ''a@b.c'', li_Password = ''secret12''\<rparr> w1 = (w2, Inr (u, tp)) \<and> au_ID u = 7) \<and>
   (\<exists>w1 w2 u tp. ResetPassword ex_rejecting ''t'' ''secret12'' ex_reset_world = (w1, None) \<and>
     Login ex_rejecting \<lparr>li_Email = ''a@b.c'', li_Password = ''forgotten''\<rparr> w1 = (w2, Inr (u, tp)) \<and> au_ID u = 7 \<and>
     (\<nexists>w2 u tp. Login ex_rejecting \<lparr>li_Email = ''a@b.c'', li_Password = ''secret12''\<rparr> w1 = (w2, Inr (u, tp)) \<and> au_ID u = 7))"
proof -
  have link: "mem_tab (w_redis ex_reset_world) (reset_key ''t'') = Some (DObject [(''user_id'', ex_us (du_UserID ex_row)), (''email'', ''a@b.c'')], Some 100)"
    by (simp add: ex_reset_accounts(3) ex_link_def ex_row_def)
  have row: "ex_row \<in> set (accounts ex_reset_world)" "du_Email ex_row = Some ''a@b.c''" "du_UserID ex_row = 7" "du_PasswordHash ex_row = Some ''$forgotten''"
    unfolding ex_reset_accounts(2) by (simp_all add: ex_row_def)
  obtain w1 where r: "ResetPassword ex_auth ''t'' ''secret12'' ex_reset_world = (w1, None)" "db_error (w_db w1) = None"
    using ex_reset by blast
  obtain v1 where q: "ResetPassword ex_rejecting ''t'' ''secret12'' ex_reset_world = (v1, None)" "db_error (w_db v1) = None"
    using ex_reset by blast
  have a: "\<exists>h. as_compare ex_auth h ''secret12'' = None \<and> (\<forall>q. (\<exists>w2 u tp. Login ex_auth \<lparr>li_Email = ''a@b.c'', li_Password = q\<rparr> w1 = (w2, Inr (u, tp)) \<and>
      au_ID u = du_UserID ex_row) \<longleftrightarrow> as_compare ex_auth h q = None)"
    by (rule reset_then_login [OF ex_auth_lib.auth_library_axioms mem.redis_server_axioms _ ex_reset_accounts(1) row(1,2) _ r, THEN conjunct1, THEN mp])
      (simp_all add: link)
  have b: "accounts v1 = accounts ex_reset_world \<and> (\<forall>q. (\<exists>w2 u tp. Login ex_rejecting \<lparr>li_Email = ''a@b.c'', li_Password = q\<rparr> v1 = (w2, Inr (u, tp)) \<and>
      au_ID u = du_UserID ex_row) \<longleftrightarrow> (\<exists>h. du_PasswordHash ex_row = Some h \<and> as_compare ex_rejecting h q = None))"
    by (rule reset_then_login [OF ex_rejecting_lib mem.redis_server_axioms _ ex_reset_accounts(1) row(1,2) _ q, THEN conjunct2, THEN mp])
      (simp_all add: link)
  have new: "\<exists>w2 u tp. Login ex_auth \<lparr>li_Email = ''a@b.c'', li_Password = ''secret12''\<rparr> w1 = (w2, Inr (u, tp)) \<and> au_ID u = 7"
    using a unfolding row(3) by blast
  have old: "(\<exists>w2 u tp. Login ex_rejecting \<lparr>li_Email = ''a@b.c'', li_Password = x\<rparr> v1 = (w2, Inr (u, tp)) \<and> au_ID u = 7) \<longleftrightarrow> x = ''forgotten''" for x
    using spec [OF conjunct2 [OF b], of x] unfolding row(3,4) by simp
  have "''secret12'' \<noteq> ''forgotten''" by simp
  with new old r(1) q(1) show ?thesis by metis
qed

theorem reset_links_end_witness:
  "let late = ex_reset_world\<lparr>w_redis := (w_redis ex_reset_world)\<lparr>mem_clk := 100\<rparr>\<rparr>
   in accounts late = [ex_row] \<and> snd (ResetPassword ex_auth ''t'' ''secret12'' late) \<noteq> None"
proof -
  let ?late = "ex_reset_world\<lparr>w_redis := (w_redis ex_reset_world)\<lparr>mem_clk := 100\<rparr>\<rparr>"
  have "mem_tab (w_redis ?late) (reset_key ''t'') = Some (ex_link, Some 100) \<and> 100 \<le> mem_clk (w_redis ?late)"
    by (simp add: ex_reset_accounts)
  then have "snd (ResetPassword ex_auth ''t'' ''secret12'' ?late) \<noteq> None"
    by (rule conjunct1 [OF reset_links_end [OF mem.redis_server_axioms ex_auth_sel(1)], THEN mp])
  then show ?thesis by (simp add: ex_reset_accounts)
qed

subsection \<open>Identifiers that cannot be scanned\<close>

text \<open>What the repository sends to the database shows in its answer only through the rows: a password update or a
  login update that finds no row answers as one that does.\<close>

lemma UpdatePassword_outcome:
  "on_db (UpdatePassword sc u h) w = (w1, x) \<Longrightarrow> \<exists>d. on_db (UpdatePassword sc' u h) w = (w1\<lparr>w_db := d\<rparr>, x)"
  by (auto simp: on_db_def UpdatePassword_def UpdatePasswordRow_def stmt_def split: option.splits)

lemma UpdateLogin_outcome: "\<exists>d. fst (on_db (UpdateLogin sc u) w) = (fst (on_db (UpdateLogin sc' u) w))\<lparr>w_db := d\<rparr>"
  by (rule exI [of _ "w_db (fst (on_db (UpdateLogin sc u) w))"]) (simp add: on_db_def split: prod.split)

lemma on_redis_other_db: "on_redis f (w\<lparr>w_db := d\<rparr>) = ((fst (on_redis f w))\<lparr>w_db := d\<rparr>, snd (on_redis f w))"
  by (simp add: on_redis_def split: prod.split)

lemma with_tokens_other_db: "with_tokens s u (w\<lparr>w_db := d\<rparr>) = ((fst (with_tokens s u w))\<lparr>w_db := d\<rparr>, snd (with_tokens s u w))"
  by (auto simp: with_tokens_def generateTokenPair_def on_ext_def split: prod.split sum.split)

lemma same_with_db: "\<exists>d. (v :: ('r, 'e, 'x) world) = v\<lparr>w_db := d\<rparr>"
  by (rule exI [of _ "w_db v"]) simp

lemma ResetPassword_other_scan:
  "\<exists>d. ResetPassword (s\<lparr>as_scan := sc\<rparr>) token p w = ((fst (ResetPassword s token p w))\<lparr>w_db := d\<rparr>, snd (ResetPassword s token p w))"
    (is "\<exists>d. ?R = _")
proof -
  have hp: "HashPassword (s\<lparr>as_scan := sc\<rparr>) = HashPassword s" by (simp add: HashPassword_def fun_eq_iff)
  have unchanged: ?thesis if "?R = ResetPassword s token p w"
    using that same_with_db [of "fst (ResetPassword s token p w)"] by (metis prod.collapse)
  show ?thesis
  proof (cases "as_redis s")
    case None
    then show ?thesis by (intro unchanged) (simp add: ResetPassword_def)
  next
    case (Some rc)
    obtain w1 x where g: "on_redis (\<lambda>r. rc_Get rc r (reset_key token)) w = (w1, x)" by force
    show ?thesis
    proof (cases "\<exists>m i u w2 h. \<not> length p < minPasswordLength \<and> x = RVal (DObject m) \<and> map_of m ''user_id'' = Some i \<and>
        as_parse s i = Inr u \<and> HashPassword s p w1 = (w2, Inr h)")
      case False
      then show ?thesis
        by (intro unchanged) (auto simp: ResetPassword_def Some g hp split: reply.split doc.split option.split sum.split prod.split)
    next
      case True
      then obtain m i u w2 h where m: "\<not> length p < minPasswordLength" "x = RVal (DObject m)" "map_of m ''user_id'' = Some i"
        "as_parse s i = Inr u" "HashPassword s p w1 = (w2, Inr h)" by blast
      obtain w3 y where u: "on_db (UpdatePassword (as_scan s) u h) w2 = (w3, y)" by force
      from UpdatePassword_outcome [OF u, of sc] obtain d where "on_db (UpdatePassword sc u h) w2 = (w3\<lparr>w_db := d\<rparr>, y)" by blast
      with u show ?thesis
        by (intro exI [of _ d]) (simp add: ResetPassword_def Some g hp m on_redis_other_db split: sum.split)
    qed
  qed
qed

lemma Login_other_scan: "snd (Login (s\<lparr>as_scan := sc\<rparr>) req w) = snd (Login s req w)"
proof -
  have e: "VerifyPassword (s\<lparr>as_scan := sc\<rparr>) = VerifyPassword s" "with_tokens (s\<lparr>as_scan := sc\<rparr>) = with_tokens s"
    by (simp_all add: VerifyPassword_def with_tokens_def generateTokenPair_def fun_eq_iff split: prod.split sum.split)
  have t: "snd (with_tokens s v (fst (on_db (UpdateLogin sc u) w1))) = snd (with_tokens s v (fst (on_db (UpdateLogin (as_scan s) u) w1)))" for v u w1
    using UpdateLogin_outcome [of sc u w1 "as_scan s"] by (auto simp: with_tokens_other_db)
  show ?thesis by (simp add: Login_def e t case_prod_unfold split: sum.split option.split)
qed

text \<open>C34: The service and its repository drop the error of \<open>pgtype.UUID.Scan\<close>. Suppose the scan rejects every \<open>uuid.UUID\<close>, as
  pgx v5 documents for anything but text; compare with the same service and a scan that accepts them. A
  password reset and a login report exactly what they report with the working scan, success included, and leave
  Redis the same, so that a reset uses up its link; but they change no account: the password stays, and the time of the
  login is not recorded. Refreshing a valid token of a registered user always fails with 'user not found' (guests'
  tokens need no scan), and choosing a user name always fails, without changing an account.\<close>

theorem failed_scans_are_silent:
  assumes "\<forall>u. \<exists>e. as_scan s u = Inl e" "good = s\<lparr>as_scan := \<lambda>u. Inr (Some u)\<rparr>"
  shows "snd (ResetPassword s token p w) = snd (ResetPassword good token p w) \<and>
    w_redis (fst (ResetPassword s token p w)) = w_redis (fst (ResetPassword good token p w)) \<and>
    accounts (fst (ResetPassword s token p w)) = accounts w \<and>
    snd (Login s req w) = snd (Login good req w) \<and> accounts (fst (Login s req w)) = accounts w \<and>
    (\<forall>c. ValidateRefreshToken (as_jwt s) (as_tokenMgr s) (snd (as_now s (w_ext w))) ref = Inr c \<and> \<not> cl_IsGuest c \<longrightarrow>
       snd (RefreshToken s ref w) = Inl ''user not found'') \<and>
    (\<forall>w1 r. SetUsername s u n w = Some (w1, r) \<longrightarrow> (\<exists>e. r = Inl e) \<and> accounts w1 = accounts w)"
proof -
  have none: "scan_uuid (as_scan s) v = None" for v using spec [OF assms(1), of v] by (auto simp: scan_uuid_def)
  have pw: "accounts w2 = accounts w1" if "on_db (UpdatePassword (as_scan s) v h) w1 = (w2, x)" for v h w1 w2 x
    using that by (auto simp: on_db_def UpdatePassword_def none UpdatePasswordRow_def stmt_def has_id_def db_next_def
        split: option.splits)
  have lg: "accounts w2 = accounts w1" if "on_db (UpdateLogin (as_scan s) v) w1 = (w2, x)" for v w1 w2 x
    using that by (auto simp: on_db_def UpdateLogin_def none UpdateUserLogin_def stmt_def has_id_def db_next_def
        update_users_def split: option.splits)
  have byid: "\<exists>e. x = Inl e" if "on_db (GetUserByID None) w1 = (w2, x)" for w1 w2 x
    using that by (auto simp: on_db_def GetUserByID_def one_user_def stmt_def has_id_def find_None_iff split: option.splits prod.splits
        dest: find_Some)
  have name: "(\<exists>e. x = Inl e) \<and> accounts w2 = accounts w1" if "on_db (UpdateUsername (as_scan s) v m) w1 = (w2, x)" for v m w1 w2 x
    using that by (auto simp: on_db_def UpdateUsername_def none UpdateUsernameRow_def update_returning_def stmt_def has_id_def db_next_def
        split: option.splits prod.splits dest: find_Some)
  obtain d where "ResetPassword good token p w = ((fst (ResetPassword s token p w))\<lparr>w_db := d\<rparr>, snd (ResetPassword s token p w))"
    using ResetPassword_other_scan unfolding assms(2) by blast
  then have reset: "snd (ResetPassword s token p w) = snd (ResetPassword good token p w)"
    "w_redis (fst (ResetPassword s token p w)) = w_redis (fst (ResetPassword good token p w))" by simp_all
  have kept: "accounts w1 = accounts w" if "ResetPassword s token p w = (w1, r)" for w1 r
    using that by (auto simp: ResetPassword_def dest!: same_table pw split: prod.splits sum.splits option.splits if_splits reply.splits doc.splits)
  have login: "accounts w1 = accounts w" if "Login s req w = (w1, r)" for w1 r
    using that by (auto simp: Login_def dest!: same_table lg split: prod.splits sum.splits option.splits)
  have refresh: "snd (RefreshToken s ref w) = Inl ''user not found''"
    if "ValidateRefreshToken (as_jwt s) (as_tokenMgr s) (snd (as_now s (w_ext w))) ref = Inr c" "\<not> cl_IsGuest c" for c
    using that by (auto simp: RefreshToken_def none on_ext_def [of "as_now s" w] dest!: byid split: prod.splits sum.splits)
  have "(\<exists>e. r = Inl e) \<and> accounts w1 = accounts w" if "SetUsername s u n w = Some (w1, r)" for w1 r
    using that by (auto simp: SetUsername_def Let_def dest!: same_table name split: prod.splits sum.splits option.splits if_splits)
  with reset kept login refresh Login_other_scan [where s = s and sc = "\<lambda>u. Inr (Some u)" and req = req and w = w] show ?thesis
    unfolding assms(2) by (metis prod.collapse)
qed

theorem failed_scans_are_silent_witness:
  "snd (ResetPassword ex_rejecting ''t'' ''secret12'' ex_reset_world) = None \<and>
   accounts (fst (ResetPassword ex_rejecting ''t'' ''secret12'' ex_reset_world)) = [ex_row] \<and>
   mem_tab (w_redis (fst (ResetPassword ex_rejecting ''t'' ''secret12'' ex_reset_world))) (reset_key ''t'') = None"
proof -
  have s: "\<forall>u. \<exists>e. as_scan ex_rejecting u = Inl e" and g: "ex_auth = ex_rejecting\<lparr>as_scan := \<lambda>u. Inr (Some u)\<rparr>"
    by (simp_all add: ex_rejecting_def ex_auth_def)
  obtain w1 where r: "ResetPassword ex_auth ''t'' ''secret12'' ex_reset_world = (w1, None)" "mem_tab (w_redis w1) (reset_key ''t'') = None"
    using ex_reset by blast
  from failed_scans_are_silent [OF s g, of "''t''" "''secret12''" ex_reset_world] r show ?thesis
    by (simp add: ex_reset_accounts(2))
qed

subsection \<open>User names\<close>

lemma name_char_append: "list_all name_char (''guest_'' @ suf) \<longleftrightarrow> list_all name_char suf"
  by (simp add: name_char_def is_digit_def)

lemma CreateGuest_result:
  assumes "auth_library s" "CreateGuest s req w = (w1, Inr (g, tp))"
  shows "au_IsGuest g \<and> au_UserType g = ''guest'' \<and> (\<exists>suf. au_Username g = ''guest_'' @ suf \<and> 6 \<le> length suf \<and> length suf \<le> 8 \<and> list_all name_char suf)"
  using assms(2) auth_library.guest_loop_name [OF assms(1)]
  by (fastforce simp: CreateGuest_def generateGuestUsername_def with_tokens_def split: prod.splits sum.splits)

text \<open>A guest's name looks like a user name but is longer than any user may choose, so no account ever has
  it and no request to choose it is accepted; the search of \<open>SetUsername\<close> among the names of guests
  finds nothing.\<close>

theorem guest_names_are_apart:
  assumes "auth_library s" "CreateGuest s req w = (w1, Inr (g, tp))"
  shows "au_IsGuest g \<and> usernameRegex (au_Username g) \<and> 12 \<le> length (au_Username g) \<and> length (au_Username g) \<le> 14 \<and>
    ValidateUsername (au_Username g) \<noteq> None \<and> (\<forall>n. ValidateUsername n = None \<longrightarrow> normalizeUsername n \<noteq> au_Username g) \<and>
    (\<forall>r \<in> set (accounts w). accounts_ok (accounts w) \<longrightarrow> du_Username r \<noteq> Some (au_Username g))"
proof -
  from CreateGuest_result [OF assms] obtain suf where g: "au_IsGuest g" "au_Username g = ''guest_'' @ suf"
    "6 \<le> length suf" "length suf \<le> 8" "list_all name_char suf" by blast
  have rx: "usernameRegex (au_Username g)" using g(2,5) name_char_append [of suf] by (simp add: usernameRegex_def)
  have no: "\<not> name_ok (au_Username g)" using g(2,3) by (simp add: name_ok_def maxUsernameLength_def)
  have last: "last (au_Username g) \<noteq> CHR '' ''"
    using g(2,3,5) by (cases suf rule: rev_cases) auto
  have "trim_right_spaces (au_Username g) = au_Username g" using trim_right_id [of "au_Username g" 0] last by simp
  then have v: "ValidateUsername (au_Username g) \<noteq> None" using g(2,3) by (simp add: ValidateUsername_def maxUsernameLength_def minUsernameLength_def Let_def)
  have c: "\<forall>n. ValidateUsername n = None \<longrightarrow> normalizeUsername n \<noteq> au_Username g" using valid_name no by metis
  have t: "\<forall>r \<in> set (accounts w). accounts_ok (accounts w) \<longrightarrow> du_Username r \<noteq> Some (au_Username g)"
    using no by (auto simp: accounts_ok_def)
  show ?thesis using g rx v c t by simp
qed

lemma ex_guest: "\<exists>w1 g tp. CreateGuest ex_auth \<lparr>gr_DeviceFingerprint = []\<rparr> ex_auth_world = (w1, Inr (g, tp))"
proof -
  define wa where "wa = ex_auth_world\<lparr>w_ext := 1\<rparr>"
  have e: "mem_tab (w_redis wa) = Map.empty" "mem_faults (w_redis wa) = []" "db_users (w_db wa) = []" "db_faults (w_db wa) = []"
    by (simp_all add: wa_def ex_auth_world_def)
  obtain w2 l where l: "on_ext (\<lambda>x. (Suc x, x mod 3)) wa = (w2, l)" by force
  obtain w3 suf where x: "suffix_loop ex_auth (6 + l) w2 = (w3, suf)" by force
  have w3: "w_db w3 = w_db wa" "w_redis w3 = w_redis wa"
    using on_ext_other [OF l] suffix_loop_other [OF x] by simp_all
  have "\<exists>w1. guest_loop ex_auth (Suc n) wa = (w1, Inr (''guest_'' @ suf))" for n
    by (simp add: l x on_redis_def mem_client_def mem_read_def mem_fault_def mem_next_def live_def on_db_def GetByUsername_def
        GetUserByUsername_def one_user_def stmt_def db_error_def no_rows_def w3 e db_next_def Let_def)
  then obtain w1 n where g: "generateGuestUsername ex_auth wa = (w1, Inr n)"
    unfolding generateGuestUsername_def maxAttempts_def by (metis numeral_eq_Suc)
  let ?w = "fst (on_redis (\<lambda>r. rc_Set mem_client r (guest_key n) (DText (''guest-'' @ ex_us 0)) (24 * 3600 * second)) w1)"
  obtain tp where "with_tokens ex_auth \<lparr>au_ID = 0, au_Email = None, au_Username = n, au_UserType = ''guest'', au_IsGuest = True\<rparr> ?w
      = (fst (generateTokenPair ex_auth \<lparr>au_ID = 0, au_Email = None, au_Username = n, au_UserType = ''guest'', au_IsGuest = True\<rparr> ?w),
         Inr (\<lparr>au_ID = 0, au_Email = None, au_Username = n, au_UserType = ''guest'', au_IsGuest = True\<rparr>, tp))"
    using ex_auth_lib.with_tokens_ok by blast
  moreover have "on_ext (\<lambda>x. (Suc x, word_of_nat x)) ex_auth_world = (wa, 0 :: uuid)" by (simp add: on_ext_def ex_auth_world_def wa_def)
  ultimately show ?thesis by (simp add: CreateGuest_def g)
qed

theorem guest_names_are_apart_witness:
  "\<exists>w1 g tp. CreateGuest ex_auth \<lparr>gr_DeviceFingerprint = []\<rparr> ex_auth_world = (w1, Inr (g, tp)) \<and> 12 \<le> length (au_Username g)"
  using ex_guest guest_names_are_apart [OF ex_auth_lib.auth_library_axioms] by blast

text \<open>When a name is taken the service suggests three different names, each the name with a number behind
  an underscore and, if the database answers, free. A suggestion for a name of nine or ten
  characters is too long to be accepted.\<close>

theorem suggestions_may_be_refused:
  assumes "GenerateUsernameSuggestions s n w = Some (w1, names)"
  shows "length names = 3 \<and> distinct names \<and> (\<forall>c \<in> set names. \<exists>i. c = normalizeUsername n @ ''_'' @ show_nat i) \<and>
    (db_faults (w_db w) = [] \<longrightarrow> (\<forall>c \<in> set names. \<forall>r \<in> set (accounts w). du_Username r \<noteq> Some c)) \<and>
    (9 \<le> length (normalizeUsername n) \<longrightarrow> (\<forall>c \<in> set names. ValidateUsername c \<noteq> None))"
proof -
  from suggestions_suggest [OF assms] have s: "length names = 3" "distinct names" "\<forall>c \<in> set names. \<exists>i. c = candidate_name (normalizeUsername n) i"
    "db_faults (w_db w) = [] \<longrightarrow> (\<forall>c \<in> set names. free_name c (accounts w))"
    by (auto simp: suggests_def)
  have "ValidateUsername c \<noteq> None" if "c = candidate_name u i" "9 \<le> length u" for c u i
  proof -
    have "last c \<noteq> CHR '' ''"
      using show_nat_digits [of i] by (cases "show_nat i" rule: rev_cases) (auto simp: that(1) candidate_name_def is_digit_def)
    then have "trim_right_spaces c = c" using trim_right_id [of c 0] by simp
    then show ?thesis
      using that show_nat_nonempty [of i]
      by (cases "show_nat i") (auto simp: ValidateUsername_def candidate_name_def maxUsernameLength_def Let_def)
  qed
  then show ?thesis using s by (fastforce simp: candidate_name_def free_name_def)
qed

lemma GetByUsername_free:
  assumes "db_faults (w_db w) = []"
  shows "free_name c (accounts w) \<Longrightarrow> on_db (GetByUsername c) w = (w\<lparr>w_db := db_next (w_db w)\<rparr>, Inl no_rows)"
    and "\<not> free_name c (accounts w) \<Longrightarrow> \<exists>q. on_db (GetByUsername c) w = (w\<lparr>w_db := db_next (w_db w)\<rparr>, Inr q)"
  using assms
  by (auto simp: on_db_def GetByUsername_def GetUserByUsername_def one_user_def stmt_def db_error_def free_name_def db_next_def
      same_text_iff find_None_iff dest!: find_Some split: option.splits)

lemma suggest_first_length:
  assumes "db_faults (w_db w) = []" "length acc < 3"
  shows "length (snd (suggest_first u i n acc w)) =
    min 3 (length acc + length (filter (\<lambda>j. free_name (candidate_name u j) (accounts w)) [i..<i + n]))"
  using assms
proof (induction u i n acc w rule: suggest_first.induct)
  case (2 u i n acc w)
  let ?w1 = "w\<lparr>w_db := db_next (w_db w)\<rparr>"
  have w1: "db_faults (w_db ?w1) = []" "accounts ?w1 = accounts w" using "2.prems"(1) by (simp_all add: db_next_def)
  note g = GetByUsername_free [OF "2.prems"(1), of "candidate_name u i"]
  have up: "[i..<i + Suc n] = i # [Suc i..<Suc i + n]" using upt_rec [of i "i + Suc n"] by simp
  show ?case
  proof (cases "free_name (candidate_name u i) (accounts w)")
    case True
    with g(1) have x: "on_db (GetByUsername (candidate_name u i)) w = (?w1, Inl no_rows)" by blast
    show ?thesis
    proof (cases "length acc = 2")
      case l: True
      then show ?thesis unfolding up by (simp add: x True)
    next
      case l: False
      then have "length (acc @ [candidate_name u i]) < 3" using "2.prems"(2) by simp
      from "2.IH"(1) [OF x [symmetric] refl refl _ w1(1) this] l "2.prems"(2) show ?thesis
        unfolding up by (simp add: x True w1(2) del: upt_Suc)
    qed
  next
    case False
    with g(2) obtain q where x: "on_db (GetByUsername (candidate_name u i)) w = (?w1, Inr q)" by blast
    from "2.IH"(2) [OF x [symmetric] refl w1(1) "2.prems"(2)] False show ?thesis
      unfolding up by (simp add: x w1(2) del: upt_Suc)
  qed
qed simp

lemma suggest_rest_taken:
  assumes "auth_library s"
  shows "suggest_rest z u acc w = Some r \<Longrightarrow> z = s \<longrightarrow> db_faults (w_db w) = [] \<longrightarrow> length acc < 3 \<longrightarrow>
    (\<exists>i\<ge>100. i \<le> 999 \<and> free_name (candidate_name u i) (accounts w))"
proof (induction rule: suggest_rest.raw_induct [of "\<lambda>z u acc w r. z = s \<longrightarrow> db_faults (w_db w) = [] \<longrightarrow> length acc < 3 \<longrightarrow>
    (\<exists>i\<ge>100. i \<le> 999 \<and> free_name (candidate_name u i) (accounts w))", rotated, consumes 1])
  case (1 rest z u acc w r)
  note IH = 1(1) and pr = 1(2)
  show ?case
  proof (intro impI)
    assume z: "z = s" and f: "db_faults (w_db w) = []" and l: "length acc < 3"
    obtain w1 n where d: "on_ext (as_intn s 900) w = (w1, n)" by force
    then have n: "n < 900" using auth_library.intn_below [OF assms, of 900 "w_ext w"] by (auto simp: on_ext_def split: prod.splits)
    have w1: "db_faults (w_db w1) = []" "accounts w1 = accounts w" using on_ext_other [OF d] f by simp_all
    let ?c = "candidate_name u (n + 100)" and ?w2 = "w1\<lparr>w_db := db_next (w_db w1)\<rparr>"
    have w2: "db_faults (w_db ?w2) = []" "accounts ?w2 = accounts w" using w1 by (simp_all add: db_next_def)
    show "\<exists>i\<ge>100. i \<le> 999 \<and> free_name (candidate_name u i) (accounts w)"
    proof (cases "free_name ?c (accounts w)")
      case True
      then show ?thesis using n by (intro exI [of _ "n + 100"]) simp
    next
      case False
      then obtain q where x: "on_db (GetByUsername ?c) w1 = (?w2, Inr q)"
        using GetByUsername_free(2) [OF w1(1), of ?c] unfolding w1(2) by blast
      have "rest s u acc (if ?c \<in> set acc then w1 else ?w2) = Some r" using pr z l d x by (auto split: if_splits)
      from IH [OF this] w1 w2 l show ?thesis by (auto split: if_splits)
    qed
  qed
qed

lemma suggestions_split:
  assumes "db_faults (w_db w) = []"
  shows "\<exists>w1 acc. GenerateUsernameSuggestions s n w = suggest_rest s (normalizeUsername n) acc w1 \<and> accounts w1 = accounts w \<and>
    db_faults (w_db w1) = [] \<and>
    length acc = min 3 (card {i. 1 \<le> i \<and> i \<le> 100 \<and> free_name (candidate_name (normalizeUsername n) i) (accounts w)})"
proof -
  let ?u = "normalizeUsername n"
  let ?free = "\<lambda>i. free_name (candidate_name ?u i) (accounts w)"
  obtain w1 acc where f: "suggest_first ?u 1 100 [] w = (w1, acc)" by force
  have len: "length acc = min 3 (length (filter ?free [1..<101]))" using suggest_first_length [OF assms, of "[]" ?u 1 100] f by simp
  have "{i. 1 \<le> i \<and> i \<le> 100 \<and> ?free i} = set (filter ?free [1..<101])" by auto
  then have card: "card {i. 1 \<le> i \<and> i \<le> 100 \<and> ?free i} = length (filter ?free [1..<101])"
    by (simp only: distinct_card distinct_filter distinct_upt)
  have s: "suggests ?u [] w (w1, acc)" by (rule suggest_first_suggests [OF _ _ f]) auto
  show ?thesis
    by (rule exI [of _ w1], rule exI [of _ acc])
      (use s assms card len in \<open>simp add: suggests_def GenerateUsernameSuggestions_def f [unfolded One_nat_def] Let_def\<close>)
qed

lemma suggestions_return:
  assumes "db_faults (w_db w) = []" "3 \<le> card {i. 1 \<le> i \<and> i \<le> 100 \<and> free_name (candidate_name (normalizeUsername n) i) (accounts w)}"
  shows "\<exists>r. GenerateUsernameSuggestions s n w = Some r"
proof -
  from suggestions_split [OF assms(1), of s n] assms(2) obtain w1 acc where
    g: "GenerateUsernameSuggestions s n w = suggest_rest s (normalizeUsername n) acc w1" "length acc = 3" by auto
  then show ?thesis by (subst g(1), subst suggest_rest.simps) simp
qed

text \<open>C28: The search for suggestions returns when three of the names with the numbers 1 to 100 are free, and it
  runs forever, and with it the request to choose a taken name, when the names with the numbers 1
  to 999 are all taken.\<close>

theorem suggestions_terminate:
  assumes "auth_library s" "db_faults (w_db w) = []"
  shows "(3 \<le> card {i. 1 \<le> i \<and> i \<le> 100 \<and> (\<forall>r \<in> set (accounts w). du_Username r \<noteq> Some (normalizeUsername n @ ''_'' @ show_nat i))} \<longrightarrow>
      (\<exists>r. GenerateUsernameSuggestions s n w = Some r)) \<and>
    ((\<forall>i. 1 \<le> i \<and> i \<le> 999 \<longrightarrow> (\<exists>r \<in> set (accounts w). du_Username r = Some (normalizeUsername n @ ''_'' @ show_nat i))) \<longrightarrow>
      GenerateUsernameSuggestions s n w = None)"
proof -
  let ?free = "\<lambda>i. free_name (candidate_name (normalizeUsername n) i) (accounts w)"
  from suggestions_split [OF assms(2), of s n] obtain w1 acc where
    g: "GenerateUsernameSuggestions s n w = suggest_rest s (normalizeUsername n) acc w1" and w1: "accounts w1 = accounts w" "db_faults (w_db w1) = []"
    and len: "length acc = min 3 (card {i. 1 \<le> i \<and> i \<le> 100 \<and> ?free i})" by blast
  have "GenerateUsernameSuggestions s n w = None" if t: "\<forall>i. 1 \<le> i \<and> i \<le> 999 \<longrightarrow> \<not> ?free i"
  proof (rule ccontr)
    assume "GenerateUsernameSuggestions s n w \<noteq> None"
    then obtain r where r: "suggest_rest s (normalizeUsername n) acc w1 = Some r" using g by auto
    have e: "{i. 1 \<le> i \<and> i \<le> 100 \<and> ?free i} = {}" using t by auto
    have "length acc < 3" using len unfolding e by simp
    with suggest_rest_taken [OF assms(1) r] t w1 show False by auto
  qed
  then show ?thesis using suggestions_return [OF assms(2), of n s] by (simp add: free_name_def candidate_name_def)
qed

lemma ex_faults: "db_faults (w_db ex_auth_world) = []"
  by (simp add: ex_auth_world_def)

lemma ex_free: "3 \<le> card {i. 1 \<le> i \<and> i \<le> 100 \<and> free_name (candidate_name u i) (accounts ex_auth_world)}"
proof -
  have "{i. 1 \<le> i \<and> i \<le> 100 \<and> free_name (candidate_name u i) (accounts ex_auth_world)} = {1..100}"
    by (auto simp: ex_auth_world_def free_name_def)
  then show ?thesis by simp
qed

theorem suggestions_terminate_witness:
  "\<exists>r. GenerateUsernameSuggestions ex_auth ''abcdefghi'' ex_auth_world = Some r"
  using suggestions_terminate [OF ex_auth_lib.auth_library_axioms, of ex_auth_world "''abcdefghi''"] ex_free [of "normalizeUsername ''abcdefghi''"]
  by (simp add: ex_auth_world_def free_name_def candidate_name_def)

theorem suggestions_may_be_refused_witness:
  "\<exists>w1 names. GenerateUsernameSuggestions ex_auth ''abcdefghi'' ex_auth_world = Some (w1, names) \<and> length names = 3 \<and>
     (\<forall>c \<in> set names. ValidateUsername c \<noteq> None)"
proof -
  obtain w1 names where g: "GenerateUsernameSuggestions ex_auth ''abcdefghi'' ex_auth_world = Some (w1, names)"
    using suggestions_return [OF ex_faults ex_free] by (metis surj_pair)
  have "9 \<le> length (normalizeUsername ''abcdefghi'')" by code_simp
  with suggestions_may_be_refused [OF g] g show ?thesis by blast
qed

subsection \<open>Sessions\<close>

lemma token_pair:
  assumes "generateTokenPair s u w = (w1, Inr tp)"
  shows "GenerateAccessToken (as_jwt s) (as_us s) (as_tokenMgr s) (snd (as_now s (w_ext w))) (jwt_user u) = Inr (tp_AccessToken tp)"
    and "GenerateRefreshToken (as_jwt s) (as_us s) (as_tokenMgr s) (snd (as_now s (fst (as_now s (w_ext w))))) (jwt_user u) = Inr (tp_RefreshToken tp)"
  using assms by (auto simp: generateTokenPair_def on_ext_def split: prod.splits sum.splits)

text \<open>C33: The refresh token of a guest, from its creation until a second before its time to live is over, always
  yields new tokens, without any account, and the new access token names the same guest.\<close>

theorem guest_sessions_refresh:
  assumes "auth_library s" "au_IsGuest g" "generateTokenPair s g w = (w1, Inr tp)"
    and "t = snd (as_now s (fst (as_now s (w_ext w))))" "t2 = snd (as_now s (w_ext w2))" "t3 = snd (as_now s (fst (as_now s (w_ext w2))))"
    and "t \<le> t2" "t2 + second \<le> t + tm_refreshTTL (as_tokenMgr s)" "t3 \<le> now" "now + second \<le> t3 + tm_accessTTL (as_tokenMgr s)"
  shows "\<exists>w3 tp2 c. RefreshToken s (tp_RefreshToken tp) w2 = (w3, Inr tp2) \<and>
    ValidateAccessToken (as_jwt s) (as_tokenMgr s) now (tp_AccessToken tp2) = Inr c \<and>
    cl_UserID c = au_ID g \<and> cl_Username c = au_Username g \<and> cl_IsGuest c"
proof -
  have j: "jwt_library (as_jwt s)" using assms(1) by (rule auth_library.axioms(1))
  obtain x where n: "on_ext (as_now s) w2 = (w2\<lparr>w_ext := x\<rparr>, t2)" "x = fst (as_now s (w_ext w2))"
    using assms(5) by (simp add: on_ext_def split: prod.splits)
  let ?g = "\<lparr>au_ID = au_ID g, au_Email = None, au_Username = au_Username g, au_UserType = ''guest'', au_IsGuest = True\<rparr>"
  note v = jwt_library.validate_own(1) [OF j token_pair(2) [OF assms(3), unfolded GenerateRefreshToken_def, folded assms(4)] assms(7,8)]
  obtain w3 tp2 where g: "generateTokenPair s ?g (w2\<lparr>w_ext := x\<rparr>) = (w3, Inr tp2)" using auth_library.tokens_ok [OF assms(1)] by blast
  have r: "RefreshToken s (tp_RefreshToken tp) w2 = (w3, Inr tp2)"
    using g assms(2) by (simp add: RefreshToken_def n(1) ValidateRefreshToken_def v claims_for_def jwt_user_def)
  have t3: "t3 = snd (as_now s (w_ext (w2\<lparr>w_ext := x\<rparr>)))" using assms(6) n(2) by simp
  note a = jwt_library.validate_own(1) [OF j token_pair(1) [OF g, unfolded GenerateAccessToken_def, folded t3] assms(9,10)]
  show ?thesis
    by (rule exI [of _ w3], rule exI [of _ tp2], rule exI, intro conjI, rule r, unfold ValidateAccessToken_def, rule a)
      (simp_all add: claims_for_def jwt_user_def)
qed

definition ex_guest_user :: AuthUser where
  "ex_guest_user = \<lparr>au_ID = 3, au_Email = None, au_Username = ''guest_abcdef'', au_UserType = ''guest'', au_IsGuest = True\<rparr>"

theorem guest_sessions_refresh_witness:
  "\<exists>w1 tp w3 tp2 c. generateTokenPair ex_auth ex_guest_user ex_auth_world = (w1, Inr tp) \<and>
     RefreshToken ex_auth (tp_RefreshToken tp) w1 = (w3, Inr tp2) \<and>
     ValidateAccessToken (as_jwt ex_auth) (as_tokenMgr ex_auth) (9 * second) (tp_AccessToken tp2) = Inr c \<and> cl_UserID c = 3"
proof -
  obtain w1 tp where g: "generateTokenPair ex_auth ex_guest_user ex_auth_world = (w1, Inr tp)" using ex_auth_lib.tokens_ok by blast
  then have x: "w_ext w1 = 2"
    by (auto simp: generateTokenPair_def on_ext_def ex_auth_world_def split: sum.splits)
  have m: "as_tokenMgr ex_auth = NewTokenManager \<lparr>tc_AccessSecret = ''a'', tc_RefreshSecret = ''r'', tc_AccessTTL = 0,
       tc_RefreshTTL = 0, tc_Issuer = []\<rparr>" by (simp add: ex_auth_def)
  have "\<exists>w3 tp2 c. RefreshToken ex_auth (tp_RefreshToken tp) w1 = (w3, Inr tp2) \<and>
    ValidateAccessToken (as_jwt ex_auth) (as_tokenMgr ex_auth) (9 * second) (tp_AccessToken tp2) = Inr c \<and>
    cl_UserID c = au_ID ex_guest_user \<and> cl_Username c = au_Username ex_guest_user \<and> cl_IsGuest c"
    by (rule guest_sessions_refresh [OF ex_auth_lib.auth_library_axioms _ g refl refl refl])
      (simp_all add: x ex_auth_world_def m NewTokenManager_def ex_guest_user_def)
  with g show ?thesis by (auto simp: ex_guest_user_def)
qed

text \<open>C15: Nobody learns from a request for a password link whether an account exists: the answer depends on the
  request alone. And every login that is refused, for an unknown address, an account without a
  password or a wrong password, is refused with the same words.\<close>

theorem accounts_stay_hidden:
  "snd (HttpForgotPassword s httpMethod body w) = snd (HttpForgotPassword s httpMethod body v) \<and>
   (Login s req w = (w1, Inl e) \<longrightarrow> e = ''invalid credentials'' \<or> (\<exists>m. e = ''generate tokens: '' @ m))"
proof
  show "snd (HttpForgotPassword s httpMethod body w) = snd (HttpForgotPassword s httpMethod body v)"
    by (simp add: HttpForgotPassword_def split: option.split prod.split)
  show "Login s req w = (w1, Inl e) \<longrightarrow> e = ''invalid credentials'' \<or> (\<exists>m. e = ''generate tokens: '' @ m)"
    by (simp add: Login_def with_tokens_def split: option.split prod.split sum.split) blast
qed

theorem accounts_stay_hidden_witness:
  "snd (HttpForgotPassword ex_auth ''POST'' (Some (JObject [(''email'', JString ''a@b.c'')])) ex_reset_world) =
     snd (HttpForgotPassword ex_auth ''POST'' (Some (JObject [(''email'', JString ''a@b.c'')])) ex_auth_world) \<and>
   snd (Login ex_auth \<lparr>li_Email = ''x'', li_Password = ''secret12''\<rparr> ex_auth_world) = Inl ''invalid credentials''"
proof -
  have l: "\<exists>w1. Login ex_auth \<lparr>li_Email = ''x'', li_Password = ''secret12''\<rparr> ex_auth_world = (w1, Inl ''invalid credentials'')"
    by (simp add: Login_def ex_auth_world_def on_db_def GetUserByEmail_def one_user_def stmt_def db_error_def)
  then show ?thesis using accounts_stay_hidden [of ex_auth "''POST''" "Some (JObject [(''email'', JString ''a@b.c'')])" ex_reset_world ex_auth_world] by auto
qed

lemma HandleOAuthCallback_google:
  "HandleOAuthCallback oa provider code w = (w1, Inr info) \<Longrightarrow> provider = OAuthProviderGoogle"
  by (auto simp: HandleOAuthCallback_def split: if_splits)

lemma CreateOrGetOAuthUser_email:
  "CreateOrGetOAuthUser s provider info w = (w1, Inr (u, tp)) \<Longrightarrow> oi_Email info \<noteq> [] \<and> au_Email u = Some (oi_Email info) \<and> \<not> au_IsGuest u"
  by (auto simp: CreateOrGetOAuthUser_def with_tokens_def registered_user_def split: if_splits prod.splits sum.splits)

text \<open>A callback of the OAuth flow signs a user in only with a code, with the cookie that the start of the flow set
  equal to its state, and as the user whose e-mail address Google returned for that code.\<close>

theorem oauth_needs_the_cookie:
  assumes "HttpOAuthCallback s oauth httpMethod path code state cookie w = (w1, JsonReply status body, cookies)"
  shows "httpMethod = ''GET'' \<and> code \<noteq> [] \<and> cookie = Some state \<and> oauth_provider path = ''google'' \<and>
    (\<exists>oa w0 info u tp. oauth = Some oa \<and> HandleOAuthCallback oa ''google'' code w = (w0, Inr info) \<and>
      oi_Email info \<noteq> [] \<and> au_Email u = Some (oi_Email info) \<and> \<not> au_IsGuest u \<and> JsonReply status body = signed_in s 200 u tp)"
proof -
  obtain oa where o: "httpMethod = ''GET''" "oauth = Some oa" "code \<noteq> []" "cookie = Some state"
    using assms by (auto simp: HttpOAuthCallback_def method_not_allowed_def split: if_splits option.splits)
  then obtain w0 info where h: "HandleOAuthCallback oa (oauth_provider path) code w = (w0, Inr info)"
    using assms by (auto simp: HttpOAuthCallback_def split: prod.splits sum.splits)
  then obtain u tp where c: "CreateOrGetOAuthUser s (oauth_provider path) info w0 = (w1, Inr (u, tp))" "JsonReply status body = signed_in s 200 u tp"
    using assms o by (auto simp: HttpOAuthCallback_def split: prod.splits sum.splits)
  have g: "oauth_provider path = ''google''" using HandleOAuthCallback_google [OF h] by (simp add: OAuthProviderGoogle_def)
  show ?thesis using o h c CreateOrGetOAuthUser_email [OF c(1)] unfolding g by blast
qed

definition ex_oauth :: "nat OAuthService" where
  "ex_oauth = NewOAuthService \<lparr>os_googleConfig = None, os_AuthCodeURL = (\<lambda>c st. st), os_Exchange = (\<lambda>c code x. (Suc x, Inr code)),
     os_Do = (\<lambda>url auth x. (Suc x, Inr (200, Some (JObject [(''id'', JString ''1''), (''email'', JString ''a@b.c'')]))))\<rparr> ''id'' ''secret'' ''url''"

theorem oauth_needs_the_cookie_witness:
  "\<exists>w1 status body cookies oa w0 info.
     HttpOAuthCallback ex_auth (Some ex_oauth) ''GET'' ''/v1/oauth/google/callback'' ''code'' ''st'' (Some ''st'') ex_reset_world =
       (w1, JsonReply status body, cookies) \<and>
     Some ex_oauth = Some oa \<and> HandleOAuthCallback oa ''google'' ''code'' ex_reset_world = (w0, Inr info) \<and> oi_Email info \<noteq> []"
proof -
  have p: "oauth_provider ''/v1/oauth/google/callback'' = ''google''" by code_simp
  let ?i = "\<lparr>oi_ProviderID = ''1'', oi_Email = ''a@b.c'', oi_Name = [], oi_AvatarURL = []\<rparr>"
  have d: "decode_google_user (Some (JObject [(''id'', JString ''1''), (''email'', JString ''a@b.c'')])) = Some ?i" by code_simp
  obtain w0 where h: "HandleOAuthCallback ex_oauth ''google'' ''code'' ex_reset_world = (w0, Inr ?i)" and db: "w_db w0 = w_db ex_reset_world"
    by (simp add: HandleOAuthCallback_def OAuthProviderGoogle_def ex_oauth_def NewOAuthService_def on_ext_def d)
  have "on_db (GetUserByEmail (Some ''a@b.c'')) w0 = (w0\<lparr>w_db := db_next (w_db w0)\<rparr>, Inr ex_row)"
    by (simp add: on_db_def GetUserByEmail_def one_user_def stmt_def db db_error_def db_next_def)
      (simp add: ex_reset_world_def ex_auth_world_def same_email_def ex_row_def db_next_def)
  then obtain u w2 where c: "CreateOrGetOAuthUser ex_auth ''google'' ?i w0 = with_tokens ex_auth u w2"
    by (simp add: CreateOrGetOAuthUser_def found_user_def ex_row_def)
  obtain w1 tp where t: "with_tokens ex_auth u w2 = (w1, Inr (u, tp))" using ex_auth_lib.with_tokens_ok by blast
  obtain st b where r: "signed_in ex_auth 200 u tp = JsonReply st b" by (simp add: signed_in_def)
  have "\<exists>cs. HttpOAuthCallback ex_auth (Some ex_oauth) ''GET'' ''/v1/oauth/google/callback'' ''code'' ''st'' (Some ''st'') ex_reset_world =
       (w1, JsonReply st b, cs)"
    by (simp add: HttpOAuthCallback_def p h c t r)
  then obtain cs where e: "HttpOAuthCallback ex_auth (Some ex_oauth) ''GET'' ''/v1/oauth/google/callback'' ''code'' ''st'' (Some ''st'') ex_reset_world =
       (w1, JsonReply st b, cs)" by blast
  from oauth_needs_the_cookie [OF e] e show ?thesis by blast
qed

subsection \<open>Details\<close>

text \<open>The minimal length is checked before the name is lowered: three bytes that are one letter pass.\<close>

lemma kelvin_sign_is_a_name:
  "ValidateUsername [CHR 0xE2, CHR 0x84, CHR 0xAA] = None \<and> normalizeUsername [CHR 0xE2, CHR 0x84, CHR 0xAA] = ''k''"
  by code_simp

text \<open>The identity of the guest who converts is ignored, and under the key \<open>guest_id\<close> not even decoded.\<close>

lemma key_folds:
  "\<not> equal_fold ''guest_id'' ''GuestID''" "\<not> equal_fold ''guest_id'' ''Email''" "\<not> equal_fold ''guest_id'' ''Password''"
  "\<not> equal_fold ''email'' ''GuestID''" "equal_fold ''email'' ''Email''" "\<not> equal_fold ''email'' ''Password''"
  "\<not> equal_fold ''password'' ''GuestID''" "\<not> equal_fold ''password'' ''Email''" "equal_fold ''password'' ''Password''"
  "equal_fold ''token'' ''Token''" "\<not> equal_fold ''new_password'' ''NewPassword''" "\<not> equal_fold ''token'' ''NewPassword''"
  "\<not> equal_fold ''new_password'' ''Token''"
  by code_simp+

lemma conversion_forgets_the_guest:
  "ConvertGuest s (req\<lparr>cg_GuestID := g\<rparr>) w = ConvertGuest s req w"
  "decode_ConvertGuest parse (Some (JObject [(''guest_id'', JString i), (''email'', JString e), (''password'', JString p)])) =
     Some \<lparr>cg_GuestID = 0, cg_Email = e, cg_Password = p\<rparr>"
  by (simp_all add: ConvertGuest_def decode_ConvertGuest_def request_fields_def object_fields_def string_field_def into_string_def key_folds)

text \<open>Under the key \<open>new_password\<close> the new password of a reset is not decoded either.\<close>

lemma snake_case_password_is_missing:
  "decode_ResetPassword (Some (JObject [(''token'', JString t), (''new_password'', JString p)])) = Some (t, [])"
  by (simp add: decode_ResetPassword_def request_fields_def object_fields_def string_field_def into_string_def key_folds)

end
