(* ===== verification/RateLimiter.thy ===== *)
theory RateLimiter
  imports Prelude
begin

section \<open>The rate limiter of the Gemini wrapper (examples/ai/gemini-wrapper/main.go)\<close>

text \<open>
  \<open>RateLimiter\<close> holds a bucket of tokens, a queue of waiting requests and a goroutine that wakes at
  every tick. Each \<open>select\<close> of the code is one step here, and steps of any number of requests and of
  the goroutine interleave freely. A request is named by a number; \<open>st_ready\<close> are the requests whose
  channel holds a token they have not received yet. Time is left out: a tick, and a request's
  giving up, may happen at any moment, so what holds of every run holds of the timed ones.

  The lemmas: at most as many requests pass as the bucket holds and ticks came; and once a request
  is queued while the bucket is empty, no request passes any more.
\<close>

subsection \<open>Configuration\<close>

record RateLimiter =
  rl_rpm :: nat
  rl_maxWait :: duration
  rl_refillRate :: duration

text \<open>\<open>time.NewTicker\<close> panics on an interval that is not positive.\<close>

definition NewRateLimiter :: "int \<Rightarrow> int \<Rightarrow> RateLimiter" where
  "NewRateLimiter rpm maxWaitSeconds =
     (let rpm = (if rpm \<le> 0 then 10 else rpm);
          maxWaitSeconds = (if maxWaitSeconds \<le> 0 then 30 else maxWaitSeconds)
      in \<lparr>rl_rpm = nat rpm, rl_maxWait = maxWaitSeconds * second, rl_refillRate = (60 div rpm) * second\<rparr>)"

definition ticker_panics :: "RateLimiter \<Rightarrow> bool" where
  "ticker_panics rl \<longleftrightarrow> rl_refillRate rl \<le> 0"

subsection \<open>State\<close>

datatype request = Missed | Waiting | Acquired | Refused

text \<open>What the goroutine is about to do: wait for a tick; try a token for a request; put a request back;
  hand a token to a request; put a token back; add a token; or nothing more.\<close>

datatype refiller =
    Idle
  | HasRequest nat
  | ReturnsRequest nat
  | HasToken nat
  | ReturnsToken
  | AddsToken
  | Stopped

record limiter =
  st_tokens :: nat
  st_queue :: "nat list"
  st_ready :: "nat set"
  st_requests :: "nat \<rightharpoonup> request"
  st_refill :: refiller
  st_ticks :: nat

definition queue_size :: nat where "queue_size = 100"

definition new_limiter :: "nat \<Rightarrow> limiter" where
  "new_limiter rpm = \<lparr>st_tokens = rpm, st_queue = [], st_ready = {}, st_requests = Map.empty, st_refill = Idle, st_ticks = 0\<rparr>"

definition set_request :: "nat \<Rightarrow> request \<Rightarrow> limiter \<Rightarrow> limiter" where
  "set_request r x s = s\<lparr>st_requests := (st_requests s)(r \<mapsto> x)\<rparr>"

subsection \<open>Acquire\<close>

text \<open>The three \<open>select\<close>s of \<open>Acquire\<close>: a token at once; a place in the queue; the token from the channel
  or the end of the wait.\<close>

definition try_token :: "nat \<Rightarrow> limiter \<Rightarrow> limiter" where
  "try_token r s =
     (if st_tokens s > 0 then set_request r Acquired (s\<lparr>st_tokens := st_tokens s - 1\<rparr>) else set_request r Missed s)"

definition join_queue :: "nat \<Rightarrow> limiter \<Rightarrow> limiter" where
  "join_queue r s =
     (if length (st_queue s) < queue_size then set_request r Waiting (s\<lparr>st_queue := st_queue s @ [r]\<rparr>)
      else set_request r Refused s)"

definition receive :: "nat \<Rightarrow> limiter \<Rightarrow> limiter" where
  "receive r s = set_request r Acquired (s\<lparr>st_ready := st_ready s - {r}\<rparr>)"

definition give_up :: "nat \<Rightarrow> limiter \<Rightarrow> limiter" where
  "give_up r s = set_request r Refused s"

subsection \<open>refill\<close>

definition add_token :: "nat \<Rightarrow> limiter \<Rightarrow> limiter" where
  "add_token rpm s = (if st_tokens s < rpm then s\<lparr>st_tokens := st_tokens s + 1\<rparr> else s)"

definition tick :: "limiter \<Rightarrow> limiter" where
  "tick s =
     (let s = s\<lparr>st_ticks := st_ticks s + 1\<rparr>
      in case st_queue s of
           [] \<Rightarrow> s\<lparr>st_refill := AddsToken\<rparr>
         | r # q \<Rightarrow> s\<lparr>st_queue := q, st_refill := HasRequest r\<rparr>)"

definition refill_step :: "nat \<Rightarrow> limiter \<Rightarrow> limiter" where
  "refill_step rpm s =
     (case st_refill s of
        Idle \<Rightarrow> tick s
      | HasRequest r \<Rightarrow>
          if st_tokens s > 0 then s\<lparr>st_tokens := st_tokens s - 1, st_refill := HasToken r\<rparr>
          else s\<lparr>st_refill := ReturnsRequest r\<rparr>
      | ReturnsRequest r \<Rightarrow>
          (if length (st_queue s) < queue_size then s\<lparr>st_queue := st_queue s @ [r], st_refill := Idle\<rparr>
           else s\<lparr>st_refill := Idle\<rparr>)
      | HasToken r \<Rightarrow>
          (if r \<notin> st_ready s then s\<lparr>st_ready := insert r (st_ready s), st_refill := Idle\<rparr>
           else s\<lparr>st_refill := ReturnsToken\<rparr>)
      | ReturnsToken \<Rightarrow> (add_token rpm s)\<lparr>st_refill := Idle\<rparr>
      | AddsToken \<Rightarrow> (add_token rpm s)\<lparr>st_refill := Idle\<rparr>
      | Stopped \<Rightarrow> s)"

definition stop_refill :: "limiter \<Rightarrow> limiter" where
  "stop_refill s = (if st_refill s = Idle then s\<lparr>st_refill := Stopped\<rparr> else s)"

inductive rl_steps :: "nat \<Rightarrow> limiter \<Rightarrow> limiter \<Rightarrow> bool" for rpm :: nat and s0 :: limiter where
  start: "rl_steps rpm s0 s0"
| attempt: "rl_steps rpm s0 s \<Longrightarrow> st_requests s r = None \<Longrightarrow> rl_steps rpm s0 (try_token r s)"
| join: "rl_steps rpm s0 s \<Longrightarrow> st_requests s r = Some Missed \<Longrightarrow> rl_steps rpm s0 (join_queue r s)"
| receive: "rl_steps rpm s0 s \<Longrightarrow> st_requests s r = Some Waiting \<Longrightarrow> r \<in> st_ready s \<Longrightarrow> rl_steps rpm s0 (receive r s)"
| give_up: "rl_steps rpm s0 s \<Longrightarrow> st_requests s r = Some Waiting \<Longrightarrow> rl_steps rpm s0 (give_up r s)"
| refill: "rl_steps rpm s0 s \<Longrightarrow> rl_steps rpm s0 (refill_step rpm s)"
| stop: "rl_steps rpm s0 s \<Longrightarrow> rl_steps rpm s0 (stop_refill s)"

inductive_cases rl_stepsE: "rl_steps rpm s0 s"

definition passed :: "limiter \<Rightarrow> nat set" where
  "passed s = {r. st_requests s r = Some Acquired}"

subsection \<open>No more pass than tokens\<close>

text \<open>Tokens that the goroutine holds.\<close>

definition held :: "refiller \<Rightarrow> nat" where
  "held p = (case p of HasToken r \<Rightarrow> 1 | ReturnsToken \<Rightarrow> 1 | AddsToken \<Rightarrow> 1 | _ \<Rightarrow> 0)"

definition limiter_inv :: "nat \<Rightarrow> limiter \<Rightarrow> bool" where
  "limiter_inv rpm s \<longleftrightarrow> finite (dom (st_requests s)) \<and> finite (st_ready s) \<and> st_tokens s \<le> rpm \<and> length (st_queue s) \<le> queue_size \<and>
     st_tokens s + card (passed s) + card (st_ready s) + held (st_refill s) \<le> rpm + st_ticks s"

lemma passed_upd:
  "passed (set_request r x s) = (if x = Acquired then insert r (passed s) else passed s - {r})"
  by (auto simp: passed_def set_request_def)

lemma passed_other [simp]:
  "passed (s\<lparr>st_tokens := n\<rparr>) = passed s" "passed (s\<lparr>st_queue := q\<rparr>) = passed s" "passed (s\<lparr>st_ready := d\<rparr>) = passed s"
  "passed (s\<lparr>st_refill := p\<rparr>) = passed s" "passed (s\<lparr>st_ticks := t\<rparr>) = passed s"
  by (simp_all add: passed_def)

lemma passed_finite: "finite (dom (st_requests s)) \<Longrightarrow> finite (passed s)"
  by (rule finite_subset [of _ "dom (st_requests s)"]) (auto simp: passed_def)

lemma set_request_sel [simp]:
  "st_tokens (set_request r x s) = st_tokens s" "st_queue (set_request r x s) = st_queue s" "st_ready (set_request r x s) = st_ready s"
  "st_refill (set_request r x s) = st_refill s" "st_ticks (set_request r x s) = st_ticks s"
  "dom (st_requests (set_request r x s)) = insert r (dom (st_requests s))"
  by (simp_all add: set_request_def)

lemma limiter_inv_refill: "limiter_inv rpm s \<Longrightarrow> limiter_inv rpm (refill_step rpm s)"
  by (auto simp: limiter_inv_def refill_step_def tick_def add_token_def held_def Let_def card_insert_if split: refiller.splits list.splits)

lemma limiter_inv_steps: "rl_steps rpm s0 s \<Longrightarrow> limiter_inv rpm s0 \<Longrightarrow> limiter_inv rpm s"
proof (induction rule: rl_steps.induct)
  case (attempt s r)
  then have "r \<notin> passed s" by (simp add: passed_def)
  with attempt show ?case
    by (auto simp: limiter_inv_def try_token_def passed_upd passed_finite card_insert_if)
next
  case (receive s r)
  then have "r \<notin> passed s" "0 < card (st_ready s)" by (auto simp: passed_def limiter_inv_def card_gt_0_iff)
  with receive show ?case
    by (auto simp: limiter_inv_def receive_def passed_upd passed_finite card_insert_if)
next
  case (join s r)
  then have "passed s - {r} = passed s" by (auto simp: passed_def)
  with join show ?case by (auto simp: limiter_inv_def join_queue_def passed_upd)
next
  case (give_up s r)
  then have "passed s - {r} = passed s" by (auto simp: passed_def)
  with give_up show ?case by (auto simp: limiter_inv_def give_up_def passed_upd)
next
  case (refill s)
  then show ?case using limiter_inv_refill by blast
next
  case (stop s)
  then show ?case by (auto simp: limiter_inv_def stop_refill_def held_def)
qed

lemma new_limiter_inv: "limiter_inv rpm (new_limiter rpm)"
  by (simp add: limiter_inv_def new_limiter_def passed_def held_def)

text \<open>C23: In every interleaving, the requests that pass are at most as many as the bucket holds and ticks have
  come; the bucket and the queue never exceed their size.\<close>

theorem rate_is_bounded:
  assumes "rl_steps rpm (new_limiter rpm) s"
  shows "card {r. st_requests s r = Some Acquired} \<le> rpm + st_ticks s \<and> st_tokens s \<le> rpm \<and> length (st_queue s) \<le> 100"
  using limiter_inv_steps [OF assms new_limiter_inv] by (auto simp: limiter_inv_def passed_def queue_size_def)

theorem rate_is_bounded_witness:
  "card {r. st_requests (try_token 7 (new_limiter 2)) r = Some Acquired} \<le> 2 \<and> st_tokens (try_token 7 (new_limiter 2)) = 1"
proof -
  have "rl_steps 2 (new_limiter 2) (try_token 7 (new_limiter 2))"
    by (rule rl_steps.attempt [OF rl_steps.start]) (simp add: new_limiter_def)
  from rate_is_bounded [OF this] show ?thesis by (simp add: new_limiter_def try_token_def set_request_def)
qed

subsection \<open>Starvation\<close>

text \<open>An empty bucket with a request that the goroutine takes out of the queue and puts back.\<close>

definition starved :: "limiter \<Rightarrow> bool" where
  "starved s \<longleftrightarrow> st_tokens s = 0 \<and> st_ready s = {} \<and>
     (case st_refill s of Idle \<Rightarrow> st_queue s \<noteq> [] | HasRequest r \<Rightarrow> True | ReturnsRequest r \<Rightarrow> True | Stopped \<Rightarrow> True | _ \<Rightarrow> False)"

lemma starved_refill: "starved s \<Longrightarrow> starved (refill_step rpm s) \<and> passed (refill_step rpm s) = passed s"
  by (auto simp: starved_def refill_step_def tick_def queue_size_def Let_def split: refiller.splits list.splits)

lemma not_passed: "st_requests s r \<noteq> Some Acquired \<Longrightarrow> passed s - {r} = passed s"
  by (auto simp: passed_def)

lemma starved_steps: "rl_steps rpm s0 s \<Longrightarrow> starved s0 \<Longrightarrow> starved s \<and> passed s = passed s0"
proof (induction rule: rl_steps.induct)
  case (attempt s r)
  then have "passed s - {r} = passed s" using not_passed [of s r] by simp
  with attempt show ?case by (auto simp: starved_def try_token_def passed_upd split: refiller.splits)
next
  case (join s r)
  then have "passed s - {r} = passed s" using not_passed [of s r] by simp
  with join show ?case by (auto simp: starved_def join_queue_def passed_upd split: refiller.splits)
next
  case (give_up s r)
  then have "passed s - {r} = passed s" using not_passed [of s r] by simp
  with give_up show ?case by (auto simp: starved_def give_up_def passed_upd split: refiller.splits)
next
  case (refill s)
  then show ?case using starved_refill [of s rpm] by simp
next
  case (stop s)
  then show ?case by (auto simp: starved_def stop_refill_def)
qed (auto simp: starved_def)

text \<open>A burst: the requests 0, ..., n-1, one after the other.\<close>

definition burst :: "nat \<Rightarrow> limiter \<Rightarrow> limiter" where
  "burst n s = fold try_token [0..<n] s"

lemma burst_steps:
  "n \<le> rpm \<Longrightarrow> rl_steps rpm (new_limiter rpm) (burst n (new_limiter rpm)) \<and>
    burst n (new_limiter rpm) = (new_limiter rpm)\<lparr>st_tokens := rpm - n, st_requests := (\<lambda>r. if r < n then Some Acquired else None)\<rparr>"
proof (induction n)
  case 0
  show ?case by (simp add: burst_def new_limiter_def rl_steps.start)
next
  case (Suc n)
  then have run: "rl_steps rpm (new_limiter rpm) (burst n (new_limiter rpm))" by linarith
  from Suc have b: "burst n (new_limiter rpm) = (new_limiter rpm)\<lparr>st_tokens := rpm - n, st_requests := (\<lambda>r. if r < n then Some Acquired else None)\<rparr>"
    by linarith
  have e: "burst (Suc n) (new_limiter rpm) = try_token n (burst n (new_limiter rpm))" by (simp add: burst_def)
  have "rl_steps rpm (new_limiter rpm) (burst (Suc n) (new_limiter rpm))"
    unfolding e by (rule rl_steps.attempt [OF run]) (simp add: b)
  moreover have "(\<lambda>r. if r < n then Some Acquired else None)(n \<mapsto> Acquired) = (\<lambda>r. if r < Suc n then Some Acquired else None)"
    by (auto simp: less_Suc_eq)
  ultimately show ?case using Suc.prems by (auto simp: e b try_token_def set_request_def Suc_diff_Suc)
qed

text \<open>C14: One request more than the bucket holds, before the first tick, and the limiter is dead: it queues, and
  from then on, whatever happens and however long one waits, no request passes any more, neither
  the queued one nor any later one.\<close>

theorem limiter_starves:
  "\<exists>s. rl_steps rpm (new_limiter rpm) s \<and> st_ticks s = 0 \<and> st_requests s rpm = Some Waiting \<and> {r. st_requests s r = Some Acquired} = {..<rpm} \<and>
     (\<forall>s'. rl_steps rpm s s' \<longrightarrow> {r. st_requests s' r = Some Acquired} = {..<rpm})"
proof -
  let ?b = "burst rpm (new_limiter rpm)"
  let ?s = "join_queue rpm (try_token rpm ?b)"
  have run0: "rl_steps rpm (new_limiter rpm) ?b" using burst_steps [of rpm rpm] by blast
  have b: "?b = (new_limiter rpm)\<lparr>st_tokens := 0, st_requests := (\<lambda>r. if r < rpm then Some Acquired else None)\<rparr>"
    using burst_steps [of rpm rpm] by simp
  have run1: "rl_steps rpm (new_limiter rpm) (try_token rpm ?b)"
    by (rule rl_steps.attempt [OF run0]) (simp add: b)
  have run: "rl_steps rpm (new_limiter rpm) ?s"
    by (rule rl_steps.join [OF run1]) (use b in \<open>simp add: try_token_def set_request_def\<close>)
  have s: "starved ?s" "st_ticks ?s = 0" "st_requests ?s rpm = Some Waiting" "passed ?s = {..<rpm}"
    using b by (auto simp: starved_def join_queue_def try_token_def set_request_def queue_size_def new_limiter_def passed_def split: if_splits)
  show ?thesis using run s starved_steps [OF _ s(1)] by (intro exI [of _ ?s]) (auto simp: passed_def)
qed

theorem limiter_starves_witness:
  "\<exists>s. rl_steps 10 (new_limiter 10) s \<and> st_requests s 10 = Some Waiting \<and> st_requests (refill_step 10 s) 10 \<noteq> Some Acquired"
proof -
  obtain s where s: "rl_steps 10 (new_limiter 10) s" "st_requests s 10 = Some Waiting"
      "\<forall>s'. rl_steps 10 s s' \<longrightarrow> {r. st_requests s' r = Some Acquired} = {..<10}"
    using limiter_starves [of 10] by blast
  have "{r. st_requests (refill_step 10 s) r = Some Acquired} = {..<10}"
    using s(3) rl_steps.refill [OF rl_steps.start] by blast
  then show ?thesis using s(1,2) by blast
qed

subsection \<open>The rate\<close>

text \<open>A limiter that refills every 60 div rpm seconds never adds fewer than rpm tokens a minute, and exactly rpm
  only when rpm divides 60; above 60 the interval is zero and starting the ticker panics.\<close>

theorem refill_interval:
  assumes "0 < rpm"
  shows "rl_rpm (NewRateLimiter rpm w) = nat rpm \<and> rpm * rl_refillRate (NewRateLimiter rpm w) \<le> 60 * second \<and>
    (rpm * rl_refillRate (NewRateLimiter rpm w) = 60 * second \<longleftrightarrow> rpm dvd 60) \<and> (ticker_panics (NewRateLimiter rpm w) \<longleftrightarrow> 60 < rpm)"
proof -
  have r: "rl_refillRate (NewRateLimiter rpm w) = (60 div rpm) * second" "rl_rpm (NewRateLimiter rpm w) = nat rpm"
    using assms by (simp_all add: NewRateLimiter_def)
  have le: "rpm * (60 div rpm) \<le> 60" using minus_mod_eq_mult_div [of 60 rpm] pos_mod_sign [OF assms, of 60] by linarith
  have "rpm * (60 div rpm) = 60 \<longleftrightarrow> rpm dvd 60" by (metis dvd_mult_div_cancel dvd_triv_left)
  moreover have "60 div rpm \<le> 0 \<longleftrightarrow> 60 < rpm"
    using assms pos_imp_zdiv_pos_iff [of rpm 60] by linarith
  ultimately show ?thesis using le r by (simp add: ticker_panics_def mult.assoc [symmetric])
qed

theorem refill_interval_witness:
  "rl_refillRate (NewRateLimiter 40 0) = second \<and> \<not> ticker_panics (NewRateLimiter 40 0) \<and> ticker_panics (NewRateLimiter 61 0)"
  using refill_interval [of 40 0] refill_interval [of 61 0] by (simp add: NewRateLimiter_def)

end
