(* ===== verification/Gemini.thy ===== *)
theory Gemini
  imports RateLimiter Json Domain Redis
begin

section \<open>The Gemini wrapper (examples/ai/gemini-wrapper/main.go)\<close>

text \<open>
  The wrapper turns a request for trivia questions into a prompt, asks Gemini up to three times, cuts
  the JSON out of the answer and returns the questions. \<open>gw_Do\<close> is the HTTP call (status and decoded
  body), \<open>gw_parse\<close> the syntax of \<open>json.Unmarshal\<close> on a text, \<open>gw_order\<close> the order of the next loop over a map, \<open>gw_sleep\<close> is \<open>time.Sleep\<close>; the decoding
  into structs is that of theory Json; a nil slice, encoded as \<open>null\<close>, and an empty one are both \<open>[]\<close>. The messages of errors from libraries are their own. Starting
  the process and its HTTP server is left out.
\<close>

subsection \<open>Requests and answers\<close>

record generateRequest =
  ge_Category :: string
  ge_Difficulty :: string
  ge_Count :: int
  ge_Seed :: string
  ge_DifficultyCounts :: counts

record questionPayload =
  qn_ID :: string
  qn_Prompt :: string
  qn_Options :: "string list"
  qn_Answer :: string

text \<open>\<open>map[string]int\<close>: an object adds to the map; \<open>null\<close> makes it nil, which has no entries either.\<close>

fun into_entries :: "(string \<times> json) list \<Rightarrow> counts \<Rightarrow> counts option" where
  "into_entries [] m = Some m"
| "into_entries ((k, j) # kvs) m =
     (case into_int j 0 of None \<Rightarrow> None | Some n \<Rightarrow> into_entries kvs (upd_assoc k n m))"

definition into_counts :: "json \<Rightarrow> counts \<Rightarrow> counts option" where
  "into_counts j old = (case j of JObject kvs \<Rightarrow> into_entries kvs old | JNull \<Rightarrow> Some [] | _ \<Rightarrow> None)"

definition decode_generateRequest :: "json option \<Rightarrow> generateRequest option" where
  "decode_generateRequest body =
     Option.bind (Option.bind body object_fields) (\<lambda>kvs.
     Option.bind (string_field ''category'' kvs) (\<lambda>c.
     Option.bind (string_field ''difficulty'' kvs) (\<lambda>d.
     Option.bind (int_field ''count'' kvs) (\<lambda>n.
     Option.bind (string_field ''seed'' kvs) (\<lambda>s.
     map_option (\<lambda>m. \<lparr>ge_Category = c, ge_Difficulty = d, ge_Count = n, ge_Seed = s, ge_DifficultyCounts = m\<rparr>)
       (field into_counts ''difficulty_counts'' kvs []))))))"

definition no_question :: questionPayload where
  "no_question = \<lparr>qn_ID = [], qn_Prompt = [], qn_Options = [], qn_Answer = []\<rparr>"

definition into_question :: "json \<Rightarrow> questionPayload \<Rightarrow> questionPayload option" where
  "into_question j old =
     Option.bind (object_fields j) (\<lambda>kvs.
     Option.bind (field into_string ''id'' kvs (qn_ID old)) (\<lambda>i.
     Option.bind (field into_string ''prompt'' kvs (qn_Prompt old)) (\<lambda>p.
     Option.bind (field (into_list into_string []) ''options'' kvs (qn_Options old)) (\<lambda>opts.
     map_option (\<lambda>a. \<lparr>qn_ID = i, qn_Prompt = p, qn_Options = opts, qn_Answer = a\<rparr>)
       (field into_string ''answer'' kvs (qn_Answer old))))))"

definition decode_generateResponse :: "json option \<Rightarrow> questionPayload list option" where
  "decode_generateResponse body = Option.bind (Option.bind body object_fields)
     (\<lambda>kvs. field (into_list into_question no_question) ''questions'' kvs [])"

definition decode_questionList :: "json option \<Rightarrow> questionPayload list option" where
  "decode_questionList body = Option.bind body (\<lambda>j. into_list into_question no_question j [])"

definition encode_question :: "questionPayload \<Rightarrow> json" where
  "encode_question q = JObject [(''id'', JString (qn_ID q)), (''prompt'', JString (qn_Prompt q)),
     (''options'', JArray (map JString (qn_Options q))), (''answer'', JString (qn_Answer q))]"

definition encode_generateResponse :: "questionPayload list \<Rightarrow> json" where
  "encode_generateResponse qs = JObject [(''questions'', JArray (map encode_question qs))]"

text \<open>The texts of all parts of all candidates, in order.\<close>

definition into_part :: "json \<Rightarrow> string \<Rightarrow> string option" where
  "into_part j old = Option.bind (object_fields j) (\<lambda>kvs. field into_string ''text'' kvs old)"

definition into_content :: "json \<Rightarrow> string list \<Rightarrow> string list option" where
  "into_content j old = Option.bind (object_fields j) (\<lambda>kvs. field (into_list into_part []) ''parts'' kvs old)"

definition into_candidate :: "json \<Rightarrow> string list \<Rightarrow> string list option" where
  "into_candidate j old = Option.bind (object_fields j) (\<lambda>kvs. field into_content ''content'' kvs old)"

definition decode_geminiResponse :: "json option \<Rightarrow> string list option" where
  "decode_geminiResponse body = Option.bind (Option.bind body object_fields)
     (\<lambda>kvs. map_option concat (field (into_list into_candidate []) ''candidates'' kvs []))"

subsection \<open>The prompt\<close>

definition newline_str :: string where "newline_str = [CHR 0x0A]"
definition quote_str :: string where "quote_str = [CHR 0x22]"

definition quoted :: "string \<Rightarrow> string" where
  "quoted s = quote_str @ s @ quote_str"

text \<open>\<open>visited\<close> are the difficulty counts in the order of the loop over the map.\<close>

definition buildPrompt :: "generateRequest \<Rightarrow> counts \<Rightarrow> string" where
  "buildPrompt req visited =
     ''Return ONLY valid JSON. No text. No markdown. No explanations.'' @ newline_str @
     ''Structure: {'' @ quoted ''questions'' @ '':[{'' @ quoted ''id'' @ '':'' @ quoted ''uuid'' @ '','' @ quoted ''prompt'' @ '':'' @
       quoted ''string'' @ '','' @ quoted ''options'' @ '':['' @ quoted ''a'' @ '','' @ quoted ''b'' @ '','' @ quoted ''c'' @ '','' @
       quoted ''d'' @ ''],'' @ quoted ''answer'' @ '':'' @ quoted ''string'' @ ''}]}.'' @ newline_str @
     ''Task: Generate '' @ show_int (ge_Count req) @ '' trivia questions about '' @ [CHR 0x27] @ ge_Category req @ [CHR 0x27] @ ''.'' @ newline_str @
     (if ge_DifficultyCounts req \<noteq> []
      then ''Difficulty distribution:'' @ newline_str @
           concat (map (\<lambda>(diff, n). if n > 0 then ''- '' @ show_int n @ '' '' @ diff @ '' questions'' @ newline_str else []) visited)
      else ''Difficulty: '' @ ge_Difficulty req @ newline_str) @
     ''Rules:'' @ newline_str @
     ''- Only generate MCQ (Multiple Choice) questions.'' @ newline_str @
     ''- '' @ [CHR 0x27] @ ''options'' @ [CHR 0x27] @ '' must have exactly 4 choices.'' @ newline_str @
     ''- Ensure '' @ [CHR 0x27] @ ''answer'' @ [CHR 0x27] @ '' is exactly one of the '' @ [CHR 0x27] @ ''options'' @ [CHR 0x27] @ ''.'' @ newline_str @
     ''- Keep prompts concise.'' @ newline_str @
     ''- Use JSON format strictly.'' @ newline_str"

definition getDefaultDifficultyDistribution :: "int \<Rightarrow> counts" where
  "getDefaultDifficultyDistribution n =
     (if n = 5 then [(''easy'', 2), (''medium'', 2), (''hard'', 1)]
      else if n = 10 then [(''easy'', 5), (''medium'', 3), (''hard'', 2)]
      else if n = 15 then [(''easy'', 7), (''medium'', 5), (''hard'', 3)]
      else [(''easy'', 4), (''medium'', 3), (''hard'', 3)])"

definition encode_geminiRequest :: "string \<Rightarrow> json" where
  "encode_geminiRequest prompt = JObject
     [(''contents'', JArray [JObject [(''parts'', JArray [JObject [(''text'', JString prompt)]])]]),
      (''generationConfig'', JObject [(''maxOutputTokens'', JInt 8192), (''responseMimeType'', JString ''application/json''),
        (''temperature'', JNumber ''0.4'')])]"

subsection \<open>Cutting the JSON out of an answer\<close>

text \<open>\<open>strings.TrimSpace\<close> on ASCII; \<open>strings.Index\<close> and \<open>LastIndex\<close> of one character, -1 when it is absent.\<close>

definition is_white :: "char \<Rightarrow> bool" where
  "is_white c \<longleftrightarrow> c = CHR '' '' \<or> 9 \<le> (of_char c :: nat) \<and> (of_char c :: nat) \<le> 13"

definition trim_space :: "string \<Rightarrow> string" where
  "trim_space s = rev (dropWhile is_white (rev (dropWhile is_white s)))"

definition index_char :: "string \<Rightarrow> char \<Rightarrow> int" where
  "index_char s c = (if c \<in> set s then int (length (takeWhile (\<lambda>x. x \<noteq> c) s)) else -1)"

definition last_index_char :: "string \<Rightarrow> char \<Rightarrow> int" where
  "last_index_char s c = (if c \<in> set s then int (length s) - 1 - int (length (takeWhile (\<lambda>x. x \<noteq> c) (rev s))) else -1)"

definition json_start :: "string \<Rightarrow> int" where
  "json_start raw =
     (let iObj = index_char raw (CHR ''{''); iArr = index_char raw (CHR ''['')
      in if iObj \<ge> 0 \<and> (iArr = -1 \<or> iObj < iArr) then iObj else if iArr \<ge> 0 then iArr else -1)"

definition json_end :: "string \<Rightarrow> int" where
  "json_end raw =
     (let jObj = last_index_char raw (CHR ''}''); jArr = last_index_char raw (CHR '']'')
      in if jObj \<ge> 0 \<and> (jArr = -1 \<or> jObj > jArr) then jObj else if jArr \<ge> 0 then jArr else -1)"

definition fence :: string where "fence = replicate 3 (CHR 0x60)"

definition cleanJSON :: "string \<Rightarrow> string" where
  "cleanJSON raw =
     (let raw = trim_space raw;
          raw = trim_prefix (fence @ ''json'') raw;
          raw = trim_prefix fence raw;
          raw = trim_suffix fence raw;
          raw = trim_space raw;
          start = json_start raw;
          raw = (if start > 0 then drop (nat start) raw else raw);
          stop = json_end raw;
          raw = (if stop \<ge> 0 \<and> stop + 1 < int (length raw) then take (nat stop + 1) raw else raw)
      in trim_space raw)"

subsection \<open>Questions\<close>

definition normalize_question :: "nat \<Rightarrow> questionPayload \<Rightarrow> questionPayload" where
  "normalize_question i q =
     (let q = (if qn_ID q = [] then q\<lparr>qn_ID := ''gen-'' @ show_nat i\<rparr> else q);
          found = list_ex (\<lambda>opt. equal_fold opt (qn_Answer q)) (qn_Options q)
      in if \<not> found \<and> qn_Answer q \<noteq> [] then q\<lparr>qn_Options := qn_Options q @ [qn_Answer q]\<rparr> else q)"

definition normalizeQuestions :: "questionPayload list \<Rightarrow> questionPayload list" where
  "normalizeQuestions qs = map (\<lambda>(i, q). normalize_question i q) (enumerate 0 qs)"

record 'x gemini_server =
  gw_model :: string
  gw_apiKey :: string
  gw_Do :: "string \<Rightarrow> json \<Rightarrow> 'x \<Rightarrow> 'x \<times> (int \<times> json option) res"
  gw_parse :: "string \<Rightarrow> json option"
  gw_order :: "'x \<Rightarrow> 'x \<times> (counts \<Rightarrow> counts)"
  gw_sleep :: "duration \<Rightarrow> 'x \<Rightarrow> 'x"

abbreviation millisecond :: duration where "millisecond \<equiv> 1000000"

text \<open>The first part with questions, as an object or as a bare list.\<close>

definition parse_part :: "'x gemini_server \<Rightarrow> string \<Rightarrow> questionPayload list option" where
  "parse_part s t =
     (let j = gw_parse s (cleanJSON t)
      in case decode_generateResponse j of
           Some (q # qs) \<Rightarrow> Some (q # qs)
         | _ \<Rightarrow> (case decode_questionList j of Some (q # qs) \<Rightarrow> Some (q # qs) | _ \<Rightarrow> None))"

fun parse_parts :: "'x gemini_server \<Rightarrow> string list \<Rightarrow> questionPayload list option" where
  "parse_parts s [] = None"
| "parse_parts s (t # ts) = (case parse_part s t of Some qs \<Rightarrow> Some (normalizeQuestions qs) | None \<Rightarrow> parse_parts s ts)"

definition gemini_url :: "'x gemini_server \<Rightarrow> string" where
  "gemini_url s = ''https://generativelanguage.googleapis.com/v1beta/'' @ gw_model s @ '':generateContent?key='' @ gw_apiKey s"

text \<open>One pass of the retry loop: done, or the error it would return and the pause before the next one. The
  error of \<open>http.NewRequestWithContext\<close>, which the code ignores, is left out: only a model or a key with characters a URL refuses
  could cause it, and the header of the nil request it comes with would then be a panic.\<close>

definition attempt ::
  "'x gemini_server \<Rightarrow> json \<Rightarrow> 'x \<Rightarrow> 'x \<times> (questionPayload list + err option \<times> duration)" where
  "attempt s body x =
     (case gw_Do s (gemini_url s) body x of
        (x, Inl e) \<Rightarrow> (x, Inr (Some (''gemini request failed: '' @ e), 250 * millisecond))
      | (x, Inr (status, resp)) \<Rightarrow>
          if status \<ge> 300 then (x, Inr (Some (''gemini status '' @ show_int status), 500 * millisecond))
          else (case decode_geminiResponse resp of
                  None \<Rightarrow> (x, Inr (Some ''gemini decode failed: '', 200 * millisecond))
                | Some parts \<Rightarrow>
                    (case parse_parts s parts of
                       Some qs \<Rightarrow> (x, Inl qs)
                     | None \<Rightarrow> (x, Inr (None, 250 * millisecond)))))"

text \<open>The loop with \<open>n\<close> passes left; a failed request is an error on the last pass only, an answer that
  cannot be parsed pauses even then.\<close>

fun attempt_loop :: "'x gemini_server \<Rightarrow> json \<Rightarrow> nat \<Rightarrow> 'x \<Rightarrow> 'x \<times> questionPayload list res" where
  "attempt_loop s body 0 x = (x, Inl ''gemini returned malformed JSON after retries'')"
| "attempt_loop s body (Suc n) x =
     (case attempt s body x of
        (x, Inl qs) \<Rightarrow> (x, Inr qs)
      | (x, Inr (Some e, pause)) \<Rightarrow> if n = 0 then (x, Inl e) else attempt_loop s body n (gw_sleep s pause x)
      | (x, Inr (None, pause)) \<Rightarrow> attempt_loop s body n (gw_sleep s pause x))"

definition generateFromGemini :: "'x gemini_server \<Rightarrow> generateRequest \<Rightarrow> 'x \<Rightarrow> 'x \<times> questionPayload list res" where
  "generateFromGemini s req x =
     (case gw_order s x of (x, order) \<Rightarrow>
        attempt_loop s (encode_geminiRequest (buildPrompt req (order (ge_DifficultyCounts req)))) 3 x)"

subsection \<open>Handlers\<close>

text \<open>\<open>acquired\<close> is the answer of the rate limiter, \<open>admitted\<close> whether the semaphore was free before the
  client left. A text answer is its status and text.\<close>

definition handleGenerate ::
  "'x gemini_server \<Rightarrow> bool \<Rightarrow> bool \<Rightarrow> string \<Rightarrow> json option \<Rightarrow> 'x \<Rightarrow> 'x \<times> (int \<times> string + json)" where
  "handleGenerate s acquired admitted httpMethod body x =
     (if httpMethod \<noteq> ''POST'' then (x, Inl (405, ''method not allowed''))
      else case decode_generateRequest body of
        None \<Rightarrow> (x, Inl (400, ''invalid payload: ''))
      | Some req \<Rightarrow>
          let req = (if ge_DifficultyCounts req = []
                     then req\<lparr>ge_DifficultyCounts := getDefaultDifficultyDistribution (ge_Count req)\<rparr> else req)
          in if \<not> acquired then (x, Inl (429, ''rate limit exceeded: request queued for too long''))
             else if \<not> admitted then (x, Inl (408, ''client disconnected''))
             else case generateFromGemini s req x of
                    (x, Inl e) \<Rightarrow> (x, Inl (502, e))
                  | (x, Inr qs) \<Rightarrow> (x, Inr (encode_generateResponse qs)))"

definition handleEnqueue :: "string \<Rightarrow> int" where
  "handleEnqueue httpMethod = (if httpMethod \<noteq> ''POST'' then 405 else 202)"

definition getEnv :: "(string \<Rightarrow> string) \<Rightarrow> string \<Rightarrow> string \<Rightarrow> string" where
  "getEnv env key fallback = (if env key \<noteq> [] then env key else fallback)"

definition getEnvInt :: "(string \<Rightarrow> string) \<Rightarrow> string \<Rightarrow> int \<Rightarrow> int" where
  "getEnvInt env key defaultValue =
     (if env key \<noteq> [] then case atoi (env key) of Some i \<Rightarrow> i | None \<Rightarrow> defaultValue else defaultValue)"

subsection \<open>Answers lie among the options\<close>

lemma normalize_question_ok:
  "qn_ID (normalize_question i q) \<noteq> [] \<and> qn_Prompt (normalize_question i q) = qn_Prompt q \<and>
   qn_Answer (normalize_question i q) = qn_Answer q \<and>
   (qn_Answer q \<noteq> [] \<longrightarrow> (\<exists>opt \<in> set (qn_Options (normalize_question i q)). equal_fold opt (qn_Answer q)))"
  by (auto simp: normalize_question_def list_ex_iff Let_def)

lemma normalizeQuestions_sel:
  "length (normalizeQuestions qs) = length qs" "i < length qs \<Longrightarrow> normalizeQuestions qs ! i = normalize_question i (qs ! i)"
  by (simp_all add: normalizeQuestions_def nth_enumerate_eq)

lemma parse_part_nonempty: "parse_part s t \<noteq> Some []"
  by (auto simp: parse_part_def Let_def split: option.splits list.splits)

lemma parse_parts_Some: "parse_parts s ts = Some qs \<Longrightarrow> \<exists>t \<in> set ts. \<exists>ps. parse_part s t = Some ps \<and> ps \<noteq> [] \<and> qs = normalizeQuestions ps"
proof (induction ts)
  case (Cons t ts)
  then show ?case using parse_part_nonempty [of s t] by (cases "parse_part s t") auto
qed simp

lemma attempt_loop_Inr: "attempt_loop s body n x = (x', Inr qs) \<Longrightarrow> \<exists>y t ps. attempt s body y = (x', Inl qs) \<and> parse_part s t = Some ps \<and>
    ps \<noteq> [] \<and> qs = normalizeQuestions ps"
proof (induction n arbitrary: x)
  case (Suc n)
  obtain y r where a: "attempt s body x = (y, r)" by force
  show ?case
  proof (cases r)
    case (Inl ps)
    then have "\<exists>parts. parse_parts s parts = Some ps"
      using a by (auto simp: attempt_def split: prod.splits sum.splits if_splits option.splits)
    then show ?thesis using a Inl Suc.prems parse_parts_Some by (fastforce)
  next
    case (Inr p)
    then show ?thesis using a Suc by (cases p) (auto split: option.splits if_splits)
  qed
qed simp

lemma generated_ok:
  assumes "generateFromGemini s req x = (x', Inr qs)"
  shows "qs \<noteq> []" "\<forall>q \<in> set qs. qn_ID q \<noteq> [] \<and>
    (qn_Answer q \<noteq> [] \<longrightarrow> (\<exists>opt \<in> set (qn_Options q). equal_fold opt (qn_Answer q)))"
proof -
  from assms obtain y body where "attempt_loop s body 3 y = (x', Inr qs)" by (auto simp: generateFromGemini_def split: prod.splits)
  from attempt_loop_Inr [OF this] obtain ps where
    ps: "ps \<noteq> []" "qs = normalizeQuestions ps" by blast
  have "\<exists>i q'. q = normalize_question i q'" if "q \<in> set qs" for q
    using that ps(2) by (auto simp: normalizeQuestions_def)
  then show "qs \<noteq> []" "\<forall>q \<in> set qs. qn_ID q \<noteq> [] \<and>
    (qn_Answer q \<noteq> [] \<longrightarrow> (\<exists>opt \<in> set (qn_Options q). equal_fold opt (qn_Answer q)))"
    using ps normalizeQuestions_sel(1) [of ps] normalize_question_ok by fastforce+
qed

text \<open>C16: Whatever Gemini answers, a result of the wrapper has at least one question, and each question has an
  identifier and, when it has an answer, that answer among its options up to the case of letters.\<close>

theorem generated_questions_are_answerable:
  assumes "generateFromGemini s req x = (x', Inr qs)"
  shows "qs \<noteq> [] \<and> (\<forall>q \<in> set qs. qn_ID q \<noteq> [] \<and>
    (qn_Answer q \<noteq> [] \<longrightarrow> (\<exists>opt \<in> set (qn_Options q). equal_fold opt (qn_Answer q))))"
  using generated_ok [OF assms] by blast

text \<open>A Gemini that answers with one bare list in a code fence.\<close>

definition ex_gemini :: "nat gemini_server" where
  "ex_gemini = \<lparr>gw_model = ''m'', gw_apiKey = ''k'',
     gw_Do = (\<lambda>url body x. (Suc x, Inr (200, Some (JObject [(''candidates'', JArray [JObject [(''content'', JObject
       [(''parts'', JArray [JObject [(''text'', JString (fence @ ''json[]'' @ fence))]])])]])])))),
     gw_parse = (\<lambda>t. if t = ''[]'' then Some (JArray [JObject [(''prompt'', JString ''1+1?''), (''answer'', JString ''2'')]]) else None),
     gw_order = (\<lambda>x. (x, \<lambda>m. m)), gw_sleep = (\<lambda>d x. x)\<rparr>"

definition ex_gen_req :: generateRequest where
  "ex_gen_req = \<lparr>ge_Category = ''c'', ge_Difficulty = [], ge_Count = 1, ge_Seed = [], ge_DifficultyCounts = []\<rparr>"

lemma ex_gemini_run: "generateFromGemini ex_gemini req 0 =
    (1, Inr [\<lparr>qn_ID = ''gen-0'', qn_Prompt = ''1+1?'', qn_Options = [''2''], qn_Answer = ''2''\<rparr>])"
proof -
  have c: "cleanJSON (fence @ ''json[]'' @ fence) = ''[]''" by code_simp
  have d: "decode_geminiResponse (Some (JObject [(''candidates'', JArray [JObject [(''content'', JObject
       [(''parts'', JArray [JObject [(''text'', JString (fence @ ''json[]'' @ fence))]])])]])])) = Some [fence @ ''json[]'' @ fence]"
    by code_simp
  have p: "parse_part ex_gemini (fence @ ''json[]'' @ fence) = Some [\<lparr>qn_ID = [], qn_Prompt = ''1+1?'', qn_Options = [], qn_Answer = ''2''\<rparr>]"
    unfolding parse_part_def c by code_simp
  have n: "normalizeQuestions [\<lparr>qn_ID = [], qn_Prompt = ''1+1?'', qn_Options = [], qn_Answer = ''2''\<rparr>] =
    [\<lparr>qn_ID = ''gen-0'', qn_Prompt = ''1+1?'', qn_Options = [''2''], qn_Answer = ''2''\<rparr>]" by code_simp
  have "gw_Do ex_gemini u b 0 = (1, Inr (200, Some (JObject [(''candidates'', JArray [JObject [(''content'', JObject
       [(''parts'', JArray [JObject [(''text'', JString (fence @ ''json[]'' @ fence))]])])]])])))" for u b
    by (simp add: ex_gemini_def)
  then have "attempt ex_gemini body 0 = (1, Inl [\<lparr>qn_ID = ''gen-0'', qn_Prompt = ''1+1?'', qn_Options = [''2''], qn_Answer = ''2''\<rparr>])" for body
    by (simp only: attempt_def d p n parse_parts.simps prod.case sum.case option.case) simp
  moreover have "gw_order ex_gemini 0 = (0, \<lambda>m. m)" by (simp add: ex_gemini_def)
  ultimately show ?thesis unfolding generateFromGemini_def numeral_3_eq_3 by simp
qed

theorem generated_questions_are_answerable_witness:
  "\<exists>qs. generateFromGemini ex_gemini ex_gen_req 0 = (1, Inr qs) \<and> qs \<noteq> []"
  using generated_questions_are_answerable [OF ex_gemini_run] ex_gemini_run by blast

subsection \<open>At most three requests\<close>

lemma attempt_calls:
  assumes "\<And>u b x. calls (fst (gw_Do s u b x)) = calls x + (1::nat)"
  shows "calls (fst (attempt s body x)) = calls x + 1"
  using assms [of "gemini_url s" body x] by (auto simp: attempt_def split: prod.splits sum.splits option.splits)

lemma attempt_loop_calls:
  assumes "\<And>u b x. calls (fst (gw_Do s u b x)) = calls x + (1::nat)" "\<And>d x. calls (gw_sleep s d x) = calls x"
  shows "calls (fst (attempt_loop s body n x)) \<le> calls x + n \<and> (0 < n \<longrightarrow> calls x < calls (fst (attempt_loop s body n x)))"
proof (induction n arbitrary: x)
  case (Suc n)
  obtain y r where a: "attempt s body x = (y, r)" by force
  have y: "calls y = calls x + 1" using attempt_calls [where calls = calls, OF assms(1), of body x] a by simp
  show ?case
  proof (cases r)
    case (Inr p)
    obtain e d where p: "p = (e, d)" by force
    show ?thesis using Suc.IH [of "gw_sleep s d y"] y by (cases e) (auto simp: a Inr p assms(2))
  qed (simp add: a y)
qed simp

text \<open>A generation asks Gemini once, twice or three times, and not more: \<open>calls\<close> is any count that every HTTP
  call moves by one and nothing else moves.\<close>

theorem gemini_is_asked_at_most_three_times:
  assumes "\<forall>u b x. calls (fst (gw_Do s u b x)) = calls x + (1::nat)" "\<forall>d x. calls (gw_sleep s d x) = calls x"
    and "\<forall>x. calls (fst (gw_order s x)) = calls x"
  shows "calls x < calls (fst (generateFromGemini s req x)) \<and> calls (fst (generateFromGemini s req x)) \<le> calls x + 3"
  using attempt_loop_calls [where calls = calls and s = s and n = 3 and x = "fst (gw_order s x)"] assms
  by (auto simp: generateFromGemini_def split: prod.split)

theorem gemini_is_asked_at_most_three_times_witness:
  "fst (generateFromGemini (ex_gemini\<lparr>gw_Do := \<lambda>u b x. (Suc x, Inl ''timeout'')\<rparr>) ex_gen_req 0) \<le> 3"
  using gemini_is_asked_at_most_three_times [where calls = "\<lambda>x. x" and s = "ex_gemini\<lparr>gw_Do := \<lambda>u b x. (Suc x, Inl ''timeout'')\<rparr>"
      and x = 0 and req = ex_gen_req]
  by (simp add: ex_gemini_def)

subsection \<open>Cutting\<close>

text \<open>A text \<open>pre @ t @ post\<close> whose middle \<open>t\<close> begins with an opening and ends with a closing bracket, the rest being
  free of them.\<close>

definition opens :: "char \<Rightarrow> bool" where "opens c \<longleftrightarrow> c = CHR ''{'' \<or> c = CHR ''[''"
definition closes :: "char \<Rightarrow> bool" where "closes c \<longleftrightarrow> c = CHR ''}'' \<or> c = CHR '']''"

definition json_text :: "string \<Rightarrow> bool" where
  "json_text t \<longleftrightarrow> t \<noteq> [] \<and> opens (hd t) \<and> closes (last t)"

lemma white_bracket [simp]: "opens c \<Longrightarrow> \<not> is_white c" "closes c \<Longrightarrow> \<not> is_white c"
  by (auto simp: opens_def closes_def is_white_def)

lemma dropWhile_front: "t \<noteq> [] \<Longrightarrow> \<not> P (hd t) \<Longrightarrow> dropWhile P (a @ t @ b) = dropWhile P a @ t @ b"
  by (cases t) (simp_all add: dropWhile_append)

lemma set_dropWhile: "set (dropWhile P a) \<subseteq> set a"
  by (auto dest: set_dropWhileD)

lemma trim_space_frame:
  assumes "json_text t"
  shows "\<exists>a2 b2. trim_space (a @ t @ b) = a2 @ t @ b2 \<and> set a2 \<subseteq> set a \<and> set b2 \<subseteq> set b"
proof -
  have t: "t \<noteq> []" "\<not> is_white (hd t)" "\<not> is_white (hd (rev t))" using assms by (auto simp: json_text_def hd_rev)
  have "rev (dropWhile is_white (rev (dropWhile is_white a @ t @ b))) = dropWhile is_white a @ t @ rev (dropWhile is_white (rev b))"
    using dropWhile_front [of "rev t" is_white "rev b" "rev (dropWhile is_white a)"] t by simp
  then show ?thesis
    unfolding trim_space_def dropWhile_front [where P = is_white, OF t(1,2)] using set_dropWhile [of is_white a] set_dropWhile [of is_white "rev b"] by fastforce
qed

lemma prefix_frame: "prefix p (a @ t @ b) \<Longrightarrow> t \<noteq> [] \<Longrightarrow> hd t \<notin> set p \<Longrightarrow> prefix p a"
proof (induction a arbitrary: p)
  case Nil
  then show ?case by (cases t; cases p) auto
next
  case (Cons x a)
  then show ?case by (cases p) auto
qed

lemma trim_prefix_frame:
  assumes "json_text t" "\<forall>c \<in> set p. \<not> opens c"
  shows "\<exists>a2. trim_prefix p (a @ t @ b) = a2 @ t @ b \<and> set a2 \<subseteq> set a"
proof (cases "prefix p (a @ t @ b)")
  case True
  then have "prefix p a" using assms prefix_frame [of p a t b] by (auto simp: json_text_def)
  then have "drop (length p) (a @ t @ b) = drop (length p) a @ t @ b" by (simp add: prefix_length_le)
  with True show ?thesis using set_drop_subset [of "length p" a] by (auto simp: trim_prefix_def)
qed (auto simp: trim_prefix_def)

lemma trim_suffix_frame:
  assumes "json_text t" "\<forall>c \<in> set p. \<not> closes c"
  shows "\<exists>b2. trim_suffix p (a @ t @ b) = a @ t @ b2 \<and> set b2 \<subseteq> set b"
proof (cases "suffix p (a @ t @ b)")
  case True
  then have "prefix (rev p) (rev b @ rev t @ rev a)" by (simp add: suffix_to_prefix)
  then have "prefix (rev p) (rev b)" using assms prefix_frame [of "rev p" "rev b" "rev t" "rev a"] by (auto simp: json_text_def hd_rev)
  then have "length p \<le> length b" using prefix_length_le by fastforce
  then have "take (length (a @ t @ b) - length p) (a @ t @ b) = a @ t @ take (length b - length p) b" by simp
  then have "trim_suffix p (a @ t @ b) = a @ t @ take (length b - length p) b" using True by (simp only: trim_suffix_def if_True)
  then show ?thesis using set_take_subset [of "length b - length p" b] by blast
qed (auto simp: trim_suffix_def)

lemma takeWhile_front: "t \<noteq> [] \<Longrightarrow> hd t = c \<Longrightarrow> c \<notin> set a \<Longrightarrow> takeWhile (\<lambda>x. x \<noteq> c) (a @ t @ b) = a"
  by (cases t) (auto simp: takeWhile_append)

lemma takeWhile_later: "t \<noteq> [] \<Longrightarrow> hd t \<noteq> c \<Longrightarrow> c \<notin> set a \<Longrightarrow> length a < length (takeWhile (\<lambda>x. x \<noteq> c) (a @ t @ b))"
  by (cases t) (auto simp: takeWhile_append)

lemma json_start_frame:
  assumes "json_text t" "\<forall>c \<in> set a. \<not> opens c"
  shows "json_start (a @ t @ b) = int (length a)"
proof -
  have t: "t \<noteq> []" "hd t \<in> set t" "hd t = CHR ''{'' \<or> hd t = CHR ''[''" using assms(1) by (auto simp: json_text_def opens_def)
  have a: "CHR ''{'' \<notin> set a" "CHR ''['' \<notin> set a" using assms(2) by (auto simp: opens_def)
  from t(3) show ?thesis
  proof
    assume h: "hd t = CHR ''{''"
    with t(2) takeWhile_front [OF t(1) h a(1)] takeWhile_later [OF t(1) _ a(2), of b] show ?thesis
      by (auto simp: json_start_def index_char_def Let_def)
  next
    assume h: "hd t = CHR ''[''"
    with t(2) takeWhile_front [OF t(1) h a(2)] takeWhile_later [OF t(1) _ a(1), of b] show ?thesis
      by (auto simp: json_start_def index_char_def Let_def)
  qed
qed

lemma json_end_frame:
  assumes "json_text t" "\<forall>c \<in> set b. \<not> closes c"
  shows "json_end (t @ b) = int (length t) - 1"
proof -
  have t: "rev t \<noteq> []" "last t \<in> set t" "hd (rev t) = CHR ''}'' \<or> hd (rev t) = CHR '']''" "hd (rev t) = last t"
    using assms(1) by (auto simp: json_text_def closes_def hd_rev)
  have b: "CHR ''}'' \<notin> set (rev b)" "CHR '']'' \<notin> set (rev b)" using assms(2) by (auto simp: closes_def)
  have w: "takeWhile (\<lambda>x. x \<noteq> c) (rev (t @ b)) = rev b" if "hd (rev t) = c" "c \<notin> set (rev b)" for c
    using takeWhile_front [OF t(1) that, of "[]"] by simp
  have l: "length b < length (takeWhile (\<lambda>x. x \<noteq> c) (rev (t @ b)))" if "hd (rev t) \<noteq> c" "c \<notin> set (rev b)" for c
    using takeWhile_later [OF t(1) that, of "[]"] by simp
  from t(3) show ?thesis
  proof
    assume h: "hd (rev t) = CHR ''}''"
    then have m: "CHR ''}'' \<in> set (t @ b)" using t(2,4) by auto
    have "hd (rev t) \<noteq> CHR '']''" using h by simp
    with w [OF h b(1)] l [OF this b(2)] m show ?thesis by (auto simp: json_end_def last_index_char_def Let_def simp del: rev_append)
  next
    assume h: "hd (rev t) = CHR '']''"
    then have m: "CHR '']'' \<in> set (t @ b)" using t(2,4) by auto
    have "hd (rev t) \<noteq> CHR ''}''" using h by simp
    with w [OF h b(2)] l [OF this b(1)] m show ?thesis by (auto simp: json_end_def last_index_char_def Let_def simp del: rev_append)
  qed
qed

text \<open>C35: From an answer that wraps a JSON object or list in any text without brackets, code fences included,
  the wrapper cuts exactly that object or list.\<close>

theorem cleanJSON_extracts:
  assumes "t \<noteq> []" "hd t \<in> set ''{[''" "last t \<in> set ''}]''" "\<forall>c \<in> set pre. c \<notin> set ''{[''" "\<forall>c \<in> set post. c \<notin> set ''}]''"
  shows "cleanJSON (pre @ t @ post) = t"
proof -
  have t: "json_text t" using assms(1-3) by (auto simp: json_text_def opens_def closes_def)
  have f: "\<forall>c \<in> set (fence @ ''json''). \<not> opens c" "\<forall>c \<in> set fence. \<not> opens c" "\<forall>c \<in> set fence. \<not> closes c"
    by (auto simp: fence_def opens_def closes_def)
  obtain a1 b1 where 1: "trim_space (pre @ t @ post) = a1 @ t @ b1" "set a1 \<subseteq> set pre" "set b1 \<subseteq> set post"
    using trim_space_frame [OF t] by blast
  obtain a2 where 2: "trim_prefix (fence @ ''json'') (a1 @ t @ b1) = a2 @ t @ b1" "set a2 \<subseteq> set a1"
    using trim_prefix_frame [OF t f(1)] by blast
  obtain a3 where 3: "trim_prefix fence (a2 @ t @ b1) = a3 @ t @ b1" "set a3 \<subseteq> set a2"
    using trim_prefix_frame [OF t f(2)] by blast
  obtain b2 where 4: "trim_suffix fence (a3 @ t @ b1) = a3 @ t @ b2" "set b2 \<subseteq> set b1"
    using trim_suffix_frame [OF t f(3)] by blast
  obtain a b where 5: "trim_space (a3 @ t @ b2) = a @ t @ b" "set a \<subseteq> set a3" "set b \<subseteq> set b2"
    using trim_space_frame [OF t] by blast
  have a: "\<forall>c \<in> set a. \<not> opens c" using assms(4) subset_trans [OF subset_trans [OF 5(2) 3(2)] subset_trans [OF 2(2) 1(2)]] by (auto simp: opens_def)
  have b: "\<forall>c \<in> set b. \<not> closes c" using assms(5) subset_trans [OF subset_trans [OF 5(3) 4(2)] 1(3)] by (auto simp: closes_def)
  obtain n where len: "length t = Suc n" using assms(1) by (cases t) auto
  have cut: "(if json_start (a @ t @ b) > 0 then drop (nat (json_start (a @ t @ b))) (a @ t @ b) else a @ t @ b) = t @ b"
    unfolding json_start_frame [OF t a] by simp
  have stop: "(if json_end (t @ b) \<ge> 0 \<and> json_end (t @ b) + 1 < int (length (t @ b)) then take (nat (json_end (t @ b)) + 1) (t @ b) else t @ b) = t"
    unfolding json_end_frame [OF t b] using len by auto
  obtain x y where "trim_space t = x @ t @ y" "x = []" "y = []" using trim_space_frame [OF t, of "[]" "[]"] by auto
  then have "trim_space t = t" by simp
  then show ?thesis unfolding cleanJSON_def Let_def 1(1) 2(1) 3(1) 4(1) 5(1) cut stop by simp
qed

theorem cleanJSON_extracts_witness:
  "cleanJSON ((fence @ ''json '') @ ''[1]'' @ ('' '' @ fence @ '' done'')) = ''[1]''"
  by (rule cleanJSON_extracts) (simp_all add: fence_def)

end
