(* ===== verification/AIGen.thy ===== *)
theory AIGen
  imports Gemini Questions
begin

section \<open>The AI generator client (internal/question/ai/generator.go)\<close>

text \<open>
  \<open>Generator\<close> implements the interface \<open>question.AIGenerator\<close> by HTTP calls of a generator service.
  \<open>gn_Do\<close> posts a body with an Authorization header (empty when there is none) and yields the status
  and the decoded body; \<open>gn_uuid\<close> is \<open>uuid.NewString\<close>. The wrapper of theory Gemini is such a service;
  \<open>wrapped\<close> connects the two.
\<close>

record AIConfig =
  ac_GeneratorURL :: string
  ac_GeneratorKey :: string
  ac_Timeout :: duration

record 'x Generator =
  gn_config :: AIConfig
  gn_timeout :: duration
  gn_generateURL :: string
  gn_enqueueURL :: string
  gn_Do :: "string \<Rightarrow> string \<Rightarrow> json \<Rightarrow> 'x \<Rightarrow> 'x \<times> (int \<times> json option) res"
  gn_uuid :: "'x \<Rightarrow> 'x \<times> string"

definition NewGenerator :: "'x Generator \<Rightarrow> AIConfig \<Rightarrow> 'x Generator" where
  "NewGenerator lib cfg =
     (let base = trim_suffix ''/'' (ac_GeneratorURL cfg)
      in lib\<lparr>gn_config := cfg, gn_timeout := (if ac_Timeout cfg \<le> 0 then 6 * second else ac_Timeout cfg),
           gn_generateURL := base @ ''/generate'', gn_enqueueURL := base @ ''/enqueue''\<rparr>)"

subsection \<open>Payloads\<close>

text \<open>A map is encoded in the order of its keys, a nil map as \<open>null\<close>.\<close>

definition encode_counts :: "counts \<Rightarrow> json" where
  "encode_counts m = (if m = [] then JNull else JObject (map (\<lambda>(k, n). (k, JInt n)) (sort_key fst m)))"

definition encode_generatorRequest :: "AIGenerateRequest \<Rightarrow> json" where
  "encode_generatorRequest req = JObject
     [(''category'', JString (ag_Category req)), (''difficulty'', JString (ag_Difficulty req)), (''count'', JInt (ag_Count req)),
      (''seed'', JString (ag_Seed req)), (''difficulty_counts'', encode_counts (ag_DifficultyCounts req))]"

record aiQuestion =
  aq_ID :: string
  aq_Prompt :: string
  aq_Options :: "string list"
  aq_Answer :: string

definition no_aiQuestion :: aiQuestion where
  "no_aiQuestion = \<lparr>aq_ID = [], aq_Prompt = [], aq_Options = [], aq_Answer = []\<rparr>"

definition into_aiQuestion :: "json \<Rightarrow> aiQuestion \<Rightarrow> aiQuestion option" where
  "into_aiQuestion j old =
     Option.bind (object_fields j) (\<lambda>kvs.
     Option.bind (field into_string ''id'' kvs (aq_ID old)) (\<lambda>i.
     Option.bind (field into_string ''prompt'' kvs (aq_Prompt old)) (\<lambda>p.
     Option.bind (field (into_list into_string []) ''options'' kvs (aq_Options old)) (\<lambda>opts.
     map_option (\<lambda>a. \<lparr>aq_ID = i, aq_Prompt = p, aq_Options = opts, aq_Answer = a\<rparr>)
       (field into_string ''answer'' kvs (aq_Answer old))))))"

definition decode_generatorResponse :: "json option \<Rightarrow> aiQuestion list option" where
  "decode_generatorResponse body = Option.bind (Option.bind body object_fields)
     (\<lambda>kvs. field (into_list into_aiQuestion no_aiQuestion) ''questions'' kvs [])"

subsection \<open>Operations\<close>

definition normalizeAIQuestion :: "'x Generator \<Rightarrow> aiQuestion \<Rightarrow> 'x \<Rightarrow> 'x \<times> Question" where
  "normalizeAIQuestion g q x =
     (let options = (if aq_Options q = [] then [aq_Answer q] else aq_Options q);
          found = list_ex (\<lambda>opt. equal_fold opt (aq_Answer q)) options;
          options = (if \<not> found \<and> aq_Answer q \<noteq> [] then options @ [aq_Answer q] else options);
          (x, i) = (if aq_ID q = [] then gn_uuid g x else (x, aq_ID q))
      in (x, \<lparr>q_ID = i, q_Prompt = aq_Prompt q, q_Options = options, q_Answer = aq_Answer q, q_Source = ''ai'', q_Token = []\<rparr>))"

fun normalize_loop :: "'x Generator \<Rightarrow> aiQuestion list \<Rightarrow> 'x \<Rightarrow> 'x \<times> Question list" where
  "normalize_loop g [] x = (x, [])"
| "normalize_loop g (q # qs) x =
     (case normalizeAIQuestion g q x of (x, r) \<Rightarrow> case normalize_loop g qs x of (x, rs) \<Rightarrow> (x, r # rs))"

definition auth_value :: "'x Generator \<Rightarrow> string" where
  "auth_value g = (if ac_GeneratorKey (gn_config g) \<noteq> [] then ''Bearer '' @ ac_GeneratorKey (gn_config g) else [])"

definition GeneratePack :: "'x Generator \<Rightarrow> AIGenerateRequest \<Rightarrow> 'x \<Rightarrow> 'x \<times> Question list res" where
  "GeneratePack g req x =
     (if ac_GeneratorURL (gn_config g) = [] then (x, Inl ''generator endpoint not configured'')
      else case gn_Do g (gn_generateURL g) (auth_value g) (encode_generatorRequest req) x of
        (x, Inl e) \<Rightarrow> (x, Inl e)
      | (x, Inr (status, body)) \<Rightarrow>
          if status \<ge> 300 then (x, Inl (''generator returned status '' @ show_int status))
          else (case decode_generatorResponse body of
                  None \<Rightarrow> (x, Inl ''decode generator payload: '')
                | Some qs \<Rightarrow>
                    (case normalize_loop g qs x of
                       (x, questions) \<Rightarrow>
                         if questions = [] then (x, Inl ''generator returned empty question set'') else (x, Inr questions))))"

definition EnqueuePack :: "'x Generator \<Rightarrow> AIGenerateRequest \<Rightarrow> 'x \<Rightarrow> 'x \<times> err option" where
  "EnqueuePack g req x =
     (if ac_GeneratorURL (gn_config g) = [] then (x, None)
      else case gn_Do g (gn_enqueueURL g) (auth_value g) (encode_generatorRequest req) x of
        (x, Inl e) \<Rightarrow> (x, Some e)
      | (x, Inr (status, body)) \<Rightarrow>
          if status \<ge> 300 then (x, Some (''enqueue returned status '' @ show_int status)) else (x, None))"

text \<open>What the question service is given.\<close>

definition ai_generator :: "'x Generator \<Rightarrow> 'x AIGenerator" where
  "ai_generator g = \<lparr>ai_GeneratePack = GeneratePack g, ai_EnqueuePack = EnqueuePack g\<rparr>"

subsection \<open>The two ends of the wire\<close>

lemma wire_keys:
  "\<not> equal_fold ''category'' ''difficulty''" "\<not> equal_fold ''category'' ''count''" "\<not> equal_fold ''category'' ''seed''"
  "\<not> equal_fold ''category'' ''difficulty_counts''" "\<not> equal_fold ''difficulty'' ''category''" "\<not> equal_fold ''difficulty'' ''count''"
  "\<not> equal_fold ''difficulty'' ''seed''" "\<not> equal_fold ''difficulty'' ''difficulty_counts''" "\<not> equal_fold ''count'' ''category''"
  "\<not> equal_fold ''count'' ''difficulty''" "\<not> equal_fold ''count'' ''seed''" "\<not> equal_fold ''count'' ''difficulty_counts''"
  "\<not> equal_fold ''seed'' ''category''" "\<not> equal_fold ''seed'' ''difficulty''" "\<not> equal_fold ''seed'' ''count''"
  "\<not> equal_fold ''seed'' ''difficulty_counts''" "\<not> equal_fold ''difficulty_counts'' ''category''"
  "\<not> equal_fold ''difficulty_counts'' ''difficulty''" "\<not> equal_fold ''difficulty_counts'' ''count''" "\<not> equal_fold ''difficulty_counts'' ''seed''"
  "\<not> equal_fold ''id'' ''prompt''" "\<not> equal_fold ''id'' ''options''" "\<not> equal_fold ''id'' ''answer''"
  "\<not> equal_fold ''prompt'' ''id''" "\<not> equal_fold ''prompt'' ''options''" "\<not> equal_fold ''prompt'' ''answer''"
  "\<not> equal_fold ''options'' ''id''" "\<not> equal_fold ''options'' ''prompt''" "\<not> equal_fold ''options'' ''answer''"
  "\<not> equal_fold ''answer'' ''id''" "\<not> equal_fold ''answer'' ''prompt''" "\<not> equal_fold ''answer'' ''options''"
  by code_simp+

definition small :: "int \<Rightarrow> bool" where
  "small i \<longleftrightarrow> - (2 ^ 63) \<le> i \<and> i < 2 ^ 63"

definition request_ok :: "AIGenerateRequest \<Rightarrow> bool" where
  "request_ok req \<longleftrightarrow> distinct (map fst (ag_DifficultyCounts req)) \<and> small (ag_Count req) \<and>
     (\<forall>p \<in> set (ag_DifficultyCounts req). small (snd p))"

definition to_wrapper :: "AIGenerateRequest \<Rightarrow> generateRequest" where
  "to_wrapper req = \<lparr>ge_Category = ag_Category req, ge_Difficulty = ag_Difficulty req, ge_Count = ag_Count req, ge_Seed = ag_Seed req,
     ge_DifficultyCounts = sort_key fst (ag_DifficultyCounts req)\<rparr>"

lemma upd_assoc_new: "k \<notin> fst ` set m \<Longrightarrow> upd_assoc k n m = m @ [(k, n)]"
  by (induction k n m rule: upd_assoc.induct) auto

lemma into_int_small: "small i \<Longrightarrow> into_int (JInt i) old = Some i"
  by (simp add: into_int_def small_def)

lemma into_entries_ints:
  "distinct (map fst (m @ kvs)) \<Longrightarrow> \<forall>p \<in> set kvs. small (snd p) \<Longrightarrow> into_entries (map (\<lambda>(k, n). (k, JInt n)) kvs) m = Some (m @ kvs)"
proof (induction kvs arbitrary: m)
  case (Cons p kvs)
  obtain k n where p: "p = (k, n)" by force
  with Cons.prems have "k \<notin> fst ` set m" "small n" by auto
  then show ?case using Cons.IH [of "m @ [(k, n)]"] Cons.prems by (simp add: p into_int_small upd_assoc_new)
qed simp

lemma request_roundtrip:
  assumes "request_ok req"
  shows "decode_generateRequest (Some (encode_generatorRequest req)) = Some (to_wrapper req)"
proof -
  let ?m = "sort_key fst (ag_DifficultyCounts req)"
  have "distinct (map fst ?m)"
    using assms by (metis distinct_map distinct_sort request_ok_def set_sort)
  then have "into_entries (map (\<lambda>(k, n). (k, JInt n)) ?m) [] = Some ?m"
    using into_entries_ints [of "[]" ?m] assms by (simp add: request_ok_def)
  then have "into_counts (encode_counts (ag_DifficultyCounts req)) [] = Some ?m"
    by (simp add: into_counts_def encode_counts_def)
  then show ?thesis
    using assms
    by (simp add: decode_generateRequest_def encode_generatorRequest_def object_fields_def string_field_def int_field_def into_string_def
        wire_keys into_int_small request_ok_def to_wrapper_def)
qed

definition ai_of :: "questionPayload \<Rightarrow> aiQuestion" where
  "ai_of q = \<lparr>aq_ID = qn_ID q, aq_Prompt = qn_Prompt q, aq_Options = qn_Options q, aq_Answer = qn_Answer q\<rparr>"

lemma into_strings: "into_elements into_string [] (map JString xs) = Some xs"
  by (rule into_elements_map) (simp add: into_string_def)

lemma question_roundtrip: "into_aiQuestion (encode_question q) old = Some (ai_of q)"
  by (simp add: into_aiQuestion_def encode_question_def object_fields_def into_string_def wire_keys into_list_def into_strings ai_of_def)

lemma response_roundtrip: "decode_generatorResponse (Some (encode_generateResponse qs)) = Some (map ai_of qs)"
proof -
  have "into_elements into_aiQuestion no_aiQuestion (map encode_question qs) = Some (map ai_of qs)"
    by (induction qs) (simp_all add: question_roundtrip)
  then show ?thesis by (simp add: decode_generatorResponse_def encode_generateResponse_def object_fields_def into_list_def)
qed

subsection \<open>The client over the wrapper\<close>

definition over_http :: "'x \<times> (int \<times> string + json) \<Rightarrow> 'x \<times> (int \<times> json option) res" where
  "over_http r = (case r of (x, Inl (status, t)) \<Rightarrow> (x, Inr (status, None)) | (x, Inr j) \<Rightarrow> (x, Inr (200, Some j)))"

definition wrapped :: "'x gemini_server \<Rightarrow> (string \<Rightarrow> bool \<times> bool) \<Rightarrow> 'x Generator \<Rightarrow> bool" where
  "wrapped s admit g \<longleftrightarrow> (\<forall>auth body x. gn_Do g (gn_generateURL g) auth body x =
     over_http (handleGenerate s (fst (admit auth)) (snd (admit auth)) ''POST'' (Some body) x))"

text \<open>What the client makes of a question of the wrapper.\<close>

definition received :: "questionPayload \<Rightarrow> Question" where
  "received p = \<lparr>q_ID = qn_ID p, q_Prompt = qn_Prompt p, q_Options = (if qn_Options p = [] then [[]] else qn_Options p),
     q_Answer = qn_Answer p, q_Source = ''ai'', q_Token = []\<rparr>"

lemma normalize_complete:
  assumes "qn_ID q \<noteq> []" "qn_Answer q \<noteq> [] \<longrightarrow> (\<exists>opt \<in> set (qn_Options q). equal_fold opt (qn_Answer q))"
  shows "normalizeAIQuestion g (ai_of q) x = (x, received q)"
  using assms by (auto simp: normalizeAIQuestion_def ai_of_def received_def list_ex_iff Let_def)

lemma normalize_loop_received:
  "\<forall>q \<in> set qs. qn_ID q \<noteq> [] \<and> (qn_Answer q \<noteq> [] \<longrightarrow> (\<exists>opt \<in> set (qn_Options q). equal_fold opt (qn_Answer q))) \<Longrightarrow>
   normalize_loop g (map ai_of qs) x = (x, map received qs)"
  by (induction qs) (simp_all add: normalize_complete)

text \<open>C13: The client and the wrapper understand each other. The request the wrapper decodes is the one the client encoded,
  with its category, difficulty, count, seed and difficulty counts. When the client gets a pack, the wrapper
  admitted the call and generated questions for that request, where a request without counts gets the default
  distribution of its count. The pack is what was generated, question by
  question in order: identifier, prompt, answer and options are the same, the source is 'ai' and there is no token
  yet. The one exception is a question that has neither options nor an answer: the client gives it the empty
  answer as its only option.\<close>

theorem packs_come_from_gemini:
  assumes "wrapped s admit g" "request_ok req" "GeneratePack g req x = (x', Inr qs)"
  shows "admit (auth_value g) = (True, True) \<and> (\<exists>gr ps. decode_generateRequest (Some (encode_generatorRequest req)) = Some gr \<and>
    ge_Category gr = ag_Category req \<and> ge_Difficulty gr = ag_Difficulty req \<and> ge_Count gr = ag_Count req \<and> ge_Seed gr = ag_Seed req \<and>
    mset (ge_DifficultyCounts gr) = mset (ag_DifficultyCounts req) \<and>
    generateFromGemini s (if ag_DifficultyCounts req = []
      then gr\<lparr>ge_DifficultyCounts := getDefaultDifficultyDistribution (ag_Count req)\<rparr> else gr) x = (x', Inr ps) \<and>
    qs = map (\<lambda>p. \<lparr>q_ID = qn_ID p, q_Prompt = qn_Prompt p,
        q_Options = (if qn_Options p = [] \<and> qn_Answer p = [] then [[]] else qn_Options p),
        q_Answer = qn_Answer p, q_Source = ''ai'', q_Token = []\<rparr>) ps)"
proof -
  define gr where "gr = (let r = to_wrapper req in if ge_DifficultyCounts r = []
      then r\<lparr>ge_DifficultyCounts := getDefaultDifficultyDistribution (ge_Count r)\<rparr> else r)"
  obtain y out where h: "handleGenerate s (fst (admit (auth_value g))) (snd (admit (auth_value g))) ''POST'' (Some (encode_generatorRequest req)) x = (y, out)"
    by force
  have d: "gn_Do g (gn_generateURL g) (auth_value g) (encode_generatorRequest req) x = over_http (y, out)"
    using assms(1) h by (simp add: wrapped_def)
  have adm: "fst (admit (auth_value g))" "snd (admit (auth_value g))" "\<exists>ps. generateFromGemini s gr x = (y, Inr ps) \<and> out = Inr (encode_generateResponse ps)"
  proof -
    have "\<exists>j. out = Inr j"
    proof (cases out)
      case (Inl e)
      obtain st t where e: "e = (st, t)" by force
      have "300 \<le> st" using h by (auto simp: Inl e handleGenerate_def Let_def split: option.splits if_splits prod.splits sum.splits)
      then show ?thesis using assms(3) d by (simp add: Inl e GeneratePack_def over_http_def split: if_splits)
    qed simp
    then show "fst (admit (auth_value g))" "snd (admit (auth_value g))" "\<exists>ps. generateFromGemini s gr x = (y, Inr ps) \<and> out = Inr (encode_generateResponse ps)"
      using h by (auto simp: handleGenerate_def request_roundtrip [OF assms(2)] gr_def Let_def split: if_splits prod.splits sum.splits)
  qed
  then obtain ps where ps: "generateFromGemini s gr x = (y, Inr ps)" "out = Inr (encode_generateResponse ps)" by blast
  note ok = generated_ok(2) [OF ps(1)]
  have n: "x' = y" "qs = map received ps"
    using assms(3) d normalize_loop_received [OF ok, of g y]
    by (auto simp: GeneratePack_def over_http_def ps(2) response_roundtrip split: if_splits)
  have "qs = map (\<lambda>p. \<lparr>q_ID = qn_ID p, q_Prompt = qn_Prompt p,
        q_Options = (if qn_Options p = [] \<and> qn_Answer p = [] then [[]] else qn_Options p),
        q_Answer = qn_Answer p, q_Source = ''ai'', q_Token = []\<rparr>) ps"
    unfolding n(2) using ok by (auto simp: received_def)
  moreover have e: "sort_key fst (ag_DifficultyCounts req) = [] \<longleftrightarrow> ag_DifficultyCounts req = []" by (metis mset_sort mset_zero_iff)
  have "gr = (if ag_DifficultyCounts req = []
      then (to_wrapper req)\<lparr>ge_DifficultyCounts := getDefaultDifficultyDistribution (ag_Count req)\<rparr> else to_wrapper req)"
    using e by (simp add: gr_def to_wrapper_def Let_def)
  ultimately show ?thesis using ps(1) n(1) adm(1,2) request_roundtrip [OF assms(2)]
    by (intro conjI exI [of _ "to_wrapper req"] exI [of _ ps]) (auto simp: prod_eq_iff to_wrapper_def)
qed

text \<open>A client of the example wrapper, and a request without difficulty counts.\<close>

definition ex_generator :: "nat Generator" where
  "ex_generator = NewGenerator \<lparr>gn_config = \<lparr>ac_GeneratorURL = [], ac_GeneratorKey = [], ac_Timeout = 0\<rparr>, gn_timeout = 0,
     gn_generateURL = [], gn_enqueueURL = [],
     gn_Do = (\<lambda>url auth body x. over_http (handleGenerate ex_gemini True True ''POST'' (Some body) x)),
     gn_uuid = (\<lambda>x. (Suc x, show_nat x))\<rparr> \<lparr>ac_GeneratorURL = ''http://gemini/'', ac_GeneratorKey = ''k'', ac_Timeout = 0\<rparr>"

definition ex_ai_req :: AIGenerateRequest where
  "ex_ai_req = \<lparr>ag_Category = ''c'', ag_Difficulty = ''hard'', ag_Count = 1, ag_Seed = [], ag_DifficultyCounts = []\<rparr>"

lemma ex_wrapped: "wrapped ex_gemini (\<lambda>_. (True, True)) ex_generator"
  by (simp add: wrapped_def ex_generator_def NewGenerator_def Let_def)

lemma ex_ai_ok: "request_ok ex_ai_req"
  by (simp add: request_ok_def ex_ai_req_def small_def)

lemma ex_generate: "GeneratePack ex_generator ex_ai_req 0 =
    (1, Inr [\<lparr>q_ID = ''gen-0'', q_Prompt = ''1+1?'', q_Options = [''2''], q_Answer = ''2'', q_Source = ''ai'', q_Token = []\<rparr>])"
proof -
  let ?q = "\<lparr>qn_ID = ''gen-0'', qn_Prompt = ''1+1?'', qn_Options = [''2''], qn_Answer = ''2''\<rparr>"
  have h: "handleGenerate ex_gemini True True ''POST'' (Some (encode_generatorRequest ex_ai_req)) 0 = (1, Inr (encode_generateResponse [?q]))"
    by (simp add: handleGenerate_def request_roundtrip [OF ex_ai_ok] ex_gemini_run Let_def)
  have d: "gn_Do ex_generator u a b x = over_http (handleGenerate ex_gemini True True ''POST'' (Some b) x)" for u a b x
    by (simp add: ex_generator_def NewGenerator_def Let_def)
  have u: "ac_GeneratorURL (gn_config ex_generator) \<noteq> []" by (simp add: ex_generator_def NewGenerator_def Let_def)
  have n: "normalizeAIQuestion ex_generator (ai_of ?q) x =
      (x, \<lparr>q_ID = ''gen-0'', q_Prompt = ''1+1?'', q_Options = [''2''], q_Answer = ''2'', q_Source = ''ai'', q_Token = []\<rparr>)" for x
    using normalize_complete [of ?q ex_generator x] by (simp add: received_def)
  show ?thesis using u by (simp add: GeneratePack_def d h over_http_def response_roundtrip n)
qed

theorem packs_come_from_gemini_witness:
  "\<exists>gr ps. decode_generateRequest (Some (encode_generatorRequest ex_ai_req)) = Some gr \<and> ge_Category gr = ''c'' \<and> ge_Difficulty gr = ''hard'' \<and>
     generateFromGemini ex_gemini (gr\<lparr>ge_DifficultyCounts := getDefaultDifficultyDistribution 1\<rparr>) 0 = (1, Inr ps) \<and> map qn_ID ps = [''gen-0'']"
proof -
  have req: "ag_Category ex_ai_req = ''c''" "ag_Difficulty ex_ai_req = ''hard''" "ag_Count ex_ai_req = 1" "ag_DifficultyCounts ex_ai_req = []"
    by (simp_all add: ex_ai_req_def)
  from packs_come_from_gemini [OF ex_wrapped ex_ai_ok ex_generate, unfolded req] obtain gr ps where
    "decode_generateRequest (Some (encode_generatorRequest ex_ai_req)) = Some gr" "ge_Category gr = ''c''" "ge_Difficulty gr = ''hard''"
    "generateFromGemini ex_gemini (gr\<lparr>ge_DifficultyCounts := getDefaultDifficultyDistribution 1\<rparr>) 0 = (1, Inr ps)"
    "[\<lparr>q_ID = ''gen-0'', q_Prompt = ''1+1?'', q_Options = [''2''], q_Answer = ''2'', q_Source = ''ai'', q_Token = []\<rparr>] =
      map (\<lambda>p. \<lparr>q_ID = qn_ID p, q_Prompt = qn_Prompt p,
        q_Options = (if qn_Options p = [] \<and> qn_Answer p = [] then [[]] else qn_Options p),
        q_Answer = qn_Answer p, q_Source = ''ai'', q_Token = []\<rparr>) ps"
    by auto
  then show ?thesis by (auto simp: Cons_eq_map_conv)
qed

text \<open>An answer that differs from its option in the case of letters is not added, though grading compares exactly.\<close>

lemma fold_only_answer:
  "q_Answer (snd (normalizeAIQuestion g \<lparr>aq_ID = ''1'', aq_Prompt = p, aq_Options = [''paris'', ''rome''], aq_Answer = ''Paris''\<rparr> x)) \<notin>
   set (q_Options (snd (normalizeAIQuestion g \<lparr>aq_ID = ''1'', aq_Prompt = p, aq_Options = [''paris'', ''rome''], aq_Answer = ''Paris''\<rparr> x)))"
proof -
  have "equal_fold ''paris'' ''Paris''" by code_simp
  then show ?thesis by (simp add: normalizeAIQuestion_def Let_def)
qed

end
