(* ===== verification/App.thy ===== *)
theory App
  imports Platform SignIn AIGen
begin

section \<open>Configuration and wiring (internal/config/config.go, internal/app/app.go)\<close>

text \<open>
  \<open>config.App\<close> is the environment after parsing; the parser is a library. \<open>app.New\<close> builds every service
  from it. Its \<open>libs\<close> are the clients and the functions from outside, carried by one template per
  service, of which the constructors fill in what they are given; connecting to PostgreSQL may fail.
  The background workers and the shutdown of \<open>Run\<close> are left out.
\<close>

subsection \<open>Configuration\<close>

record PostgresConfig =
  pgc_Host :: string
  pgc_Port :: int
  pgc_User :: string
  pgc_Password :: string
  pgc_Database :: string
  pgc_SSLMode :: string

record RedisConfig =
  rdc_Addr :: string
  rdc_DB :: int
  rdc_PoolSize :: int

record RuntimeConfig =
  run_QuestionFetchTimeout :: duration
  run_DefaultQuestionCount :: int
  run_DefaultQuestionSeconds :: duration
  run_GlobalPaddingSeconds :: duration

record Security =
  sec_JWTSecret :: string
  sec_QuestionHMACSecret :: string

record LeaderboardConfig =
  lbc_SnapshotInterval :: duration
  lbc_SnapshotTopN :: int

record OAuthSettings =
  oac_GoogleClientID :: string
  oac_GoogleClientSecret :: string
  oac_GoogleRedirectURL :: string

record AISettings =
  aic_GeneratorURL :: string
  aic_GeneratorKey :: string
  aic_HTTPTimeout :: duration

record SMTPConfig =
  sm_Host :: string
  sm_Port :: int
  sm_Username :: string
  sm_Password :: string
  sm_FromEmail :: string

record CORS =
  crs_AllowedOrigins :: "string list"
  crs_AllowedMethods :: "string list"
  crs_AllowedHeaders :: "string list"
  crs_AllowCredentials :: bool
  crs_MaxAge :: int

record AppConfig =
  cf_Name :: string
  cf_Env :: string
  cf_HTTPAddr :: string
  cf_GracefulShutdownTimeout :: duration
  cf_Postgres :: PostgresConfig
  cf_Redis :: RedisConfig
  cf_Security :: Security
  cf_Runtime :: RuntimeConfig
  cf_OAuth :: OAuthSettings
  cf_Leaderboard :: LeaderboardConfig
  cf_AI :: AISettings
  cf_SMTP :: SMTPConfig
  cf_CORS :: CORS

subsection \<open>Constructors\<close>

definition NewQuestionService ::
  "('r, 'e, 'x) QService \<Rightarrow> ('r, 'e, 'x) PackCache \<Rightarrow> 'x AIGenerator option \<Rightarrow> string \<Rightarrow> 'r redis_client option \<Rightarrow> ('r, 'e, 'x) QService" where
  "NewQuestionService lib cache ai HMACSecret redis = lib\<lparr>qs_cache := cache, qs_ai := ai, qs_redis := redis, qs_hmacKey := HMACSecret\<rparr>"

text \<open>The state manager holds the Redis client; \<open>app.New\<close> passes no scoring configuration.\<close>

definition NewMatchService ::
  "('r, 'e, 'x) MService \<Rightarrow> ('r, 'e, 'x) QService \<Rightarrow> 'r redis_client \<Rightarrow> LbService option \<Rightarrow> string \<Rightarrow> ScoringConfig \<Rightarrow> ('r, 'e, 'x) MService" where
  "NewMatchService lib questionSvc stateRedis leaderboardSvc HMACSecret scoring =
     lib\<lparr>ms_q := questionSvc, ms_redis := stateRedis, ms_leaderboard := leaderboardSvc, ms_scoring := service_scoring scoring,
       ms_hmacKey := HMACSecret\<rparr>"

definition no_scoring :: ScoringConfig where
  "no_scoring = \<lparr>BaseScore = 0, MaxTimeBonus = 0, StreakBonusPercent = 0, MaxStreakBonus = 0\<rparr>"

record ('r, 'e, 'x) app_libs =
  lib_pool :: "string \<Rightarrow> err option"
  lib_redis :: "string \<Rightarrow> int \<Rightarrow> int \<Rightarrow> 'r redis_client"
  lib_auth :: "('r, 'x) AuthService"
  lib_oauth :: "'x OAuthService"
  lib_ai :: "'x Generator"
  lib_question :: "('r, 'e, 'x) QService"
  lib_match :: "('r, 'e, 'x) MService"
  lib_handler :: "('r, 'e, 'x) Handler"

record ('r, 'e, 'x) Application =
  ap_auth :: "('r, 'x) AuthService"
  ap_oauth :: "'x OAuthService option"
  ap_handler :: "('r, 'e, 'x) Handler"
  ap_leaderboard :: LbService
  ap_redis :: "'r redis_client"
  ap_cors :: CORS
  ap_snapshots :: "(duration \<times> int) option"

definition conn_string :: "PostgresConfig \<Rightarrow> string" where
  "conn_string p = ''host='' @ pgc_Host p @ '' port='' @ show_int (pgc_Port p) @ '' user='' @ pgc_User p @ '' password='' @ pgc_Password p @
     '' dbname='' @ pgc_Database p @ '' sslmode='' @ pgc_SSLMode p @ '' pool_max_conns=10''"

definition app_redis :: "('r, 'e, 'x) app_libs \<Rightarrow> AppConfig \<Rightarrow> 'r redis_client" where
  "app_redis lib cfg = lib_redis lib (rdc_Addr (cf_Redis cfg)) (rdc_DB (cf_Redis cfg)) (rdc_PoolSize (cf_Redis cfg))"

definition app_token_config :: "AppConfig \<Rightarrow> TokenConfig" where
  "app_token_config cfg =
     \<lparr>tc_AccessSecret = sec_JWTSecret (cf_Security cfg), tc_RefreshSecret = sec_JWTSecret (cf_Security cfg) @ ''_refresh'',
      tc_AccessTTL = 0, tc_RefreshTTL = 0, tc_Issuer = cf_Name cfg\<rparr>"

definition app_email :: "AppConfig \<Rightarrow> EmailService option" where
  "app_email cfg =
     (let c = cf_SMTP cfg in
      if sm_Host c \<noteq> [] \<and> sm_Username c \<noteq> []
      then Some (NewEmailService \<lparr>ec_SMTPHost = sm_Host c, ec_SMTPPort = sm_Port c, ec_SMTPUsername = sm_Username c,
             ec_SMTPPassword = sm_Password c, ec_FromEmail = sm_FromEmail c\<rparr>)
      else None)"

definition app_oauth :: "'x OAuthService \<Rightarrow> AppConfig \<Rightarrow> 'x OAuthService option" where
  "app_oauth lib cfg =
     (let c = cf_OAuth cfg in
      if oac_GoogleClientID c \<noteq> [] \<and> oac_GoogleClientSecret c \<noteq> []
      then Some (NewOAuthService lib (oac_GoogleClientID c) (oac_GoogleClientSecret c)
             (if oac_GoogleRedirectURL c = [] then ''http://'' @ cf_HTTPAddr cfg @ ''/v1/oauth/google/callback'' else oac_GoogleRedirectURL c))
      else None)"

definition app_ai :: "'x Generator \<Rightarrow> AppConfig \<Rightarrow> 'x AIGenerator option" where
  "app_ai lib cfg =
     (let c = cf_AI cfg in
      if aic_GeneratorURL c \<noteq> []
      then Some (ai_generator (NewGenerator lib \<lparr>ac_GeneratorURL = aic_GeneratorURL c, ac_GeneratorKey = aic_GeneratorKey c,
             ac_Timeout = aic_HTTPTimeout c\<rparr>))
      else None)"

definition NewApplication :: "('r, 'e, 'x) app_libs \<Rightarrow> AppConfig \<Rightarrow> ('r, 'e, 'x) Application res" where
  "NewApplication lib cfg =
     (case lib_pool lib (conn_string (cf_Postgres cfg)) of
        Some e \<Rightarrow> Inl (''connect postgres: '' @ e)
      | None \<Rightarrow>
          let redisClient = app_redis lib cfg; hmac = sec_QuestionHMACSecret (cf_Security cfg)
          in if hmac = [] then Inl ''QUESTION_HMAC_SECRET must be configured''
             else if sec_JWTSecret (cf_Security cfg) = []
             then Inl ''authentication service must be configured (set JWT_SECRET)''
             else
               let authSvc = NewAuthService (lib_auth lib) \<lparr>so_TokenConfig = app_token_config cfg, so_Redis = Some redisClient,
                     so_EmailSvc = app_email cfg\<rparr>;
                   questionSvc = NewQuestionService (lib_question lib) (redis_cache (NewCache redisClient 0)) (app_ai (lib_ai lib) cfg) hmac
                     (Some redisClient);
                   leaderboardSvc = NewLbService app_lb_options;
                   matchSvc = NewMatchService (lib_match lib) questionSvc redisClient (Some leaderboardSvc) hmac no_scoring
               in Inr \<lparr>ap_auth = authSvc, ap_oauth = app_oauth (lib_oauth lib) cfg,
                    ap_handler = (lib_handler lib)\<lparr>mh_service := matchSvc\<rparr>, ap_leaderboard = leaderboardSvc, ap_redis = redisClient,
                    ap_cors = cf_CORS cfg,
                    ap_snapshots = (if lbc_SnapshotInterval (cf_Leaderboard cfg) > 0
                      then Some (lbc_SnapshotInterval (cf_Leaderboard cfg), worker_topN (lbc_SnapshotTopN (cf_Leaderboard cfg))) else None)\<rparr>)"

subsection \<open>What the wiring gives\<close>

text \<open>C38: An application that starts uses one Redis server for tokens, packs, matches and histories, never
  signs with an empty key, and never accepts an access token as a refresh token or the other way
  round: the two secrets differ.\<close>

theorem bootstrap_wires:
  assumes "NewApplication lib cfg = Inr app" "redis_server (app_redis lib cfg) tab clk" "uuid_text (ms_us (lib_match lib))"
  shows "app_wired (mh_service (ap_handler app)) tab clk \<and> as_redis (ap_auth app) = Some (ms_redis (mh_service (ap_handler app))) \<and>
    ms_hmacKey (mh_service (ap_handler app)) \<noteq> [] \<and> qs_hmacKey (ms_q (mh_service (ap_handler app))) = ms_hmacKey (mh_service (ap_handler app)) \<and>
    tm_accessSecret (as_tokenMgr (ap_auth app)) \<noteq> [] \<and> tm_accessSecret (as_tokenMgr (ap_auth app)) \<noteq> tm_refreshSecret (as_tokenMgr (ap_auth app))"
  using assms
  by (auto simp: NewApplication_def Let_def app_wired_def NewMatchService_def NewQuestionService_def NewAuthService_def NewTokenManager_def
      app_token_config_def split: option.splits if_splits)

text \<open>The libraries the services are built on: the server in memory, a clock that counts.\<close>

definition ex_app_qs :: "(mem, LeaderboardEntry, nat) QService" where
  "ex_app_qs = \<lparr>qs_cache = redis_cache (NewCache mem_client 0), qs_ai = None, qs_redis = Some mem_client,
     qs_hmacKey = [], qs_hmac = (\<lambda>k m. m), qs_us = dec_us, qs_now = (\<lambda>x. (Suc x, int x * second)), qs_order = (\<lambda>x. (x, id))\<rparr>"

definition ex_app_ms :: "(mem, LeaderboardEntry, nat) MService" where
  "ex_app_ms = \<lparr>ms_q = ex_app_qs, ms_redis = mem_client, ms_leaderboard = None, ms_scoring = no_scoring, ms_hmacKey = [],
     ms_hmac = (\<lambda>k m. m), ms_us = dec_us, ms_uuid = (\<lambda>n. (Suc n, word_of_nat n)), ms_now = (\<lambda>n. (Suc n, int n * second)),
     ms_nows = (\<lambda>n. (n, \<lambda>_. int n * second)), ms_visit = (\<lambda>n. (n, id)), ms_scan = (\<lambda>u. Inr (Some u)), ms_int4 = Some,
     ms_numeric = Some\<rparr>"

definition ex_app_h :: "(mem, LeaderboardEntry, nat) Handler" where
  "ex_app_h = \<lparr>mh_service = ex_app_ms, mh_parse = (\<lambda>s. case atoi s of None \<Rightarrow> Inl ''invalid UUID'' | Some i \<Rightarrow> Inr (word_of_int i)),
     mh_rfc3339 = show_int, mh_order = (\<lambda>x. (x, \<lambda>m. sorted_list_of_set (dom m))), mh_grow = (\<lambda>n. 2 * n),
     mh_rnd = (\<lambda>x. (x, \<lambda>_. 0))\<rparr>"

definition ex_libs :: "(mem, LeaderboardEntry, nat) app_libs" where
  "ex_libs = \<lparr>lib_pool = (\<lambda>s. None), lib_redis = (\<lambda>a d n. mem_client), lib_auth = ex_auth, lib_oauth = ex_oauth, lib_ai = ex_generator,
     lib_question = ex_app_qs, lib_match = ex_app_ms, lib_handler = ex_app_h\<rparr>"

definition ex_cfg :: AppConfig where
  "ex_cfg = \<lparr>cf_Name = ''quiz'', cf_Env = ''development'', cf_HTTPAddr = ''0.0.0.0:8080'',
     cf_GracefulShutdownTimeout = 20 * second,
     cf_Postgres = \<lparr>pgc_Host = ''db'', pgc_Port = 5432, pgc_User = ''u'', pgc_Password = ''p'', pgc_Database = ''quiz'', pgc_SSLMode = ''disable''\<rparr>,
     cf_Redis = \<lparr>rdc_Addr = ''redis:6379'', rdc_DB = 0, rdc_PoolSize = 20\<rparr>,
     cf_Security = \<lparr>sec_JWTSecret = ''j'', sec_QuestionHMACSecret = ''q''\<rparr>,
     cf_Runtime = \<lparr>run_QuestionFetchTimeout = 4 * second, run_DefaultQuestionCount = 5, run_DefaultQuestionSeconds = 15 * second,
       run_GlobalPaddingSeconds = 20 * second\<rparr>,
     cf_OAuth = \<lparr>oac_GoogleClientID = [], oac_GoogleClientSecret = [], oac_GoogleRedirectURL = []\<rparr>,
     cf_Leaderboard = \<lparr>lbc_SnapshotInterval = 300 * second, lbc_SnapshotTopN = 50\<rparr>,
     cf_AI = \<lparr>aic_GeneratorURL = [], aic_GeneratorKey = [], aic_HTTPTimeout = 6 * second\<rparr>,
     cf_SMTP = \<lparr>sm_Host = [], sm_Port = 587, sm_Username = [], sm_Password = [], sm_FromEmail = []\<rparr>,
     cf_CORS = \<lparr>crs_AllowedOrigins = [''http://localhost:3000''], crs_AllowedMethods = [''GET'', ''POST''], crs_AllowedHeaders = [''Authorization''],
       crs_AllowCredentials = True, crs_MaxAge = 3600\<rparr>\<rparr>"

lemma ex_app: "\<exists>app. NewApplication ex_libs ex_cfg = Inr app"
  by (simp add: NewApplication_def ex_libs_def ex_cfg_def Let_def)

theorem bootstrap_wires_witness:
  "\<exists>app. NewApplication ex_libs ex_cfg = Inr app \<and> app_wired (mh_service (ap_handler app)) mem_tab mem_clk"
proof -
  obtain app where a: "NewApplication ex_libs ex_cfg = Inr app" using ex_app by blast
  have "redis_server (app_redis ex_libs ex_cfg) mem_tab mem_clk" "uuid_text (ms_us (lib_match ex_libs))"
    using mem.redis_server_axioms dec.uuid_text_axioms by (simp_all add: ex_libs_def ex_app_ms_def app_redis_def)
  from bootstrap_wires [OF a this] a show ?thesis by blast
qed

end
