(* ===== verification/Server.thy ===== *)
theory Server
  imports App
begin

section \<open>The HTTP server (internal/server/http.go)\<close>

text \<open>
  The root of a registered subtree without its slash is redirected. \<open>NewHTTPServer\<close> registers the handlers, behind the middleware that reads tokens where it does, and
  wraps all of them in the CORS middleware. \<open>route\<close> is the choice of \<open>http.ServeMux\<close> among the
  registered patterns for a clean path (an exact path, one segment in braces, or a path below a
  pattern that ends in a slash). A request has what the handlers read of it; a WebSocket request also
  has the outcome of the upgrade and the messages that will come. \<open>/metrics\<close> is a library's, and
  \<open>/v1/ping\<close> is given the outcome of its pings.
\<close>

record http_request =
  hq_Method :: string
  hq_Path :: string
  hq_Header :: "string \<Rightarrow> string"
  hq_Query :: "string \<Rightarrow> string"
  hq_Cookie :: "string \<Rightarrow> string option"
  hq_Body :: "json option"
  hq_Ping :: "err option"
  hq_Upgrade :: bool
  hq_Conn :: nat
  hq_Visit :: "Hub \<Rightarrow> uuid list"
  hq_Messages :: "ClientMessage list"

subsection \<open>Cross-origin requests\<close>

definition allowed_origin :: "CORS \<Rightarrow> string \<Rightarrow> string" where
  "allowed_origin cfg origin =
     (if origin \<noteq> [] then (case List.find (\<lambda>allowed. origin = allowed) (crs_AllowedOrigins cfg) of None \<Rightarrow> [] | Some a \<Rightarrow> origin) else [])"

definition cors_headers :: "CORS \<Rightarrow> string \<Rightarrow> (string \<times> string) list" where
  "cors_headers cfg origin =
     (if allowed_origin cfg origin \<noteq> [] then [(''Access-Control-Allow-Origin'', allowed_origin cfg origin)] else []) @
     (if crs_AllowedMethods cfg \<noteq> [] then [(''Access-Control-Allow-Methods'', join '','' (crs_AllowedMethods cfg))] else []) @
     (if crs_AllowedHeaders cfg \<noteq> [] then [(''Access-Control-Allow-Headers'', join '','' (crs_AllowedHeaders cfg))] else []) @
     (if crs_AllowCredentials cfg then [(''Access-Control-Allow-Credentials'', ''true'')] else []) @
     (if crs_MaxAge cfg > 0 then [(''Access-Control-Max-Age'', show_int (crs_MaxAge cfg))] else [])"

text \<open>\<open>preflight\<close> is the answer without a body to an OPTIONS request.\<close>

definition corsMiddleware :: "CORS \<Rightarrow> 'a \<Rightarrow> (http_request \<Rightarrow> 'a) \<Rightarrow> http_request \<Rightarrow> (string \<times> string) list \<times> 'a" where
  "corsMiddleware cfg preflight next req =
     (cors_headers cfg (hq_Header req ''Origin''), if hq_Method req = ''OPTIONS'' then preflight else next req)"

definition createWSOriginChecker :: "CORS \<Rightarrow> http_request \<Rightarrow> bool" where
  "createWSOriginChecker cfg req =
     (let origin = hq_Header req ''Origin'' in if origin = [] then True else origin \<in> set (crs_AllowedOrigins cfg))"

subsection \<open>Routes\<close>

datatype route =
    RHealth | RMetrics | RPing
  | RRegister | RLogin | RGuest | RConvert | RRefresh | RForgot | RReset | ROAuthStart | ROAuthCallback
  | RMe | RUsername | RWebSocket | RLeaderboards | RRooms | RRoom | RMoved

definition exact_routes :: "(string \<times> route) list" where
  "exact_routes =
     [(''/healthz'', RHealth), (''/metrics'', RMetrics), (''/v1/ping'', RPing), (''/v1/auth/register'', RRegister),
      (''/v1/auth/login'', RLogin), (''/v1/auth/guest'', RGuest), (''/v1/auth/convert'', RConvert), (''/v1/auth/refresh'', RRefresh),
      (''/v1/auth/forgot-password'', RForgot), (''/v1/auth/reset-password'', RReset), (''/v1/users/me'', RMe),
      (''/v1/users/me/username'', RUsername), (''/ws/matches'', RWebSocket), (''/v1/rooms'', RRooms)]"

definition oauth_route :: "string \<Rightarrow> route option" where
  "oauth_route path =
     (case split_str ''/'' path of
        [a, v, oa, provider, action] \<Rightarrow>
          if a = [] \<and> v = ''v1'' \<and> oa = ''oauth'' \<and> provider \<noteq> []
          then (if action = ''start'' then Some ROAuthStart else if action = ''callback'' then Some ROAuthCallback else None) else None
      | _ \<Rightarrow> None)"

definition route_of :: "string \<Rightarrow> route option" where
  "route_of path =
     (case map_of exact_routes path of
        Some r \<Rightarrow> Some r
      | None \<Rightarrow>
          (case oauth_route path of
             Some r \<Rightarrow> Some r
           | None \<Rightarrow>
               if path \<in> {''/v1/leaderboards'', ''/v1/leaderboards/private''} then Some RMoved
               else if prefix ''/v1/leaderboards/'' path then Some RLeaderboards
               else if prefix ''/v1/rooms/'' path then Some RRoom else None))"

subsection \<open>Answers\<close>

datatype answer =
    AReply http_reply "Cookie list"
  | ARoom int RoomResponse
  | ABoard lb_response
  | AText int string
  | AMoved string
  | AUpgraded
  | AOutside

type_synonym ('r, 'x) server_state = "('r, LeaderboardEntry, 'x) HState"

definition on_world ::
  "(('r, 'e, 'x) world \<Rightarrow> ('r, 'e, 'x) world \<times> 'a) \<Rightarrow> ('r, 'e, 'x) HState \<Rightarrow> ('r, 'e, 'x) HState \<times> 'a" where
  "on_world f st = (let (w, x) = f (hs_world st) in (st\<lparr>hs_world := w\<rparr>, x))"

definition respond_error :: "ErrorResponse \<Rightarrow> 's \<Rightarrow> ('s \<times> answer) option" where
  "respond_error e st = Some (st, AReply (ErrorReply e) [])"

definition plain ::
  "(('r, 'e, 'x) world \<Rightarrow> ('r, 'e, 'x) world \<times> http_reply) \<Rightarrow> ('r, 'e, 'x) HState \<Rightarrow> (('r, 'e, 'x) HState \<times> answer) option" where
  "plain f st = (let (st, r) = on_world f st in Some (st, AReply r []))"

text \<open>The middleware chain in front of a handler.\<close>

definition authenticated ::
  "('r, 'e, 'x) Application \<Rightarrow> http_request \<Rightarrow> (Claims option \<Rightarrow> ('r, 'e, 'x) HState \<Rightarrow> (('r, 'e, 'x) HState \<times> answer) option) \<Rightarrow>
   ('r, 'e, 'x) HState \<Rightarrow> (('r, 'e, 'x) HState \<times> answer) option" where
  "authenticated app req handler st =
     AuthMiddleware (\<lambda>t. on_world (ValidateToken (ap_auth app) t)) respond_error (RequireAuth respond_error handler)
       (hq_Header req ''Authorization'') st"

definition room_answer :: "ErrorResponse + int \<times> RoomResponse \<Rightarrow> answer" where
  "room_answer r = (case r of Inl e \<Rightarrow> AReply (ErrorReply e) [] | Inr (status, room) \<Rightarrow> ARoom status room)"

definition websocket ::
  "('r, 'e, 'x) Application \<Rightarrow> http_request \<Rightarrow> ('r, 'e, 'x) HState \<Rightarrow> ('r, 'e, 'x) HState \<times> answer" where
  "websocket app req st =
     (let (st, t) = (if hq_Query req ''token'' = [] then (st, 0) else on_clock (as_now (ap_auth app)) st)
      in case HandleWebSocket (ap_handler app) (ValidateAccessToken (as_jwt (ap_auth app)) (as_tokenMgr (ap_auth app)) t)
            (hq_Upgrade req \<and> createWSOriginChecker (ap_cors app) req) (hq_Query req ''token'') (hq_Visit req) (hq_Conn req)
            (hq_Messages req) st of
           (st, Some e) \<Rightarrow> (st, AReply (ErrorReply e) [])
         | (st, None) \<Rightarrow> (st, if hq_Upgrade req \<and> createWSOriginChecker (ap_cors app) req then AUpgraded else AOutside))"

definition leaderboard ::
  "('r, LeaderboardEntry, 'x) Application \<Rightarrow> (string \<Rightarrow> uuid) \<Rightarrow> http_request \<Rightarrow> ('r, 'x) server_state \<Rightarrow> ('r, 'x) server_state \<times> answer" where
  "leaderboard app mp req st =
     (case HandleGet (ap_leaderboard app) (as_us (ap_auth app)) mp (ap_redis app) (hq_Method req) (hq_Path req) (hq_Query req ''limit'')
         (w_redis (hs_world st), w_db (hs_world st)) of
        ((r, d), resp) \<Rightarrow> (st\<lparr>hs_world := (hs_world st)\<lparr>w_redis := r, w_db := d\<rparr>\<rparr>, ABoard resp))"

text \<open>\<open>mp\<close> is \<open>uuid.MustParse\<close>, which the leaderboards use. \<open>None\<close>: the handler does not return.\<close>

definition dispatch ::
  "('r, LeaderboardEntry, 'x) Application \<Rightarrow> (string \<Rightarrow> uuid) \<Rightarrow> http_request \<Rightarrow> ('r, 'x) server_state \<Rightarrow> (('r, 'x) server_state \<times> answer) option" where
  "dispatch app mp req st =
     (let s = ap_auth app; m = hq_Method req; body = hq_Body req
      in case route_of (hq_Path req) of
        None \<Rightarrow> Some (st, AText 404 ''404 page not found'')
      | Some RHealth \<Rightarrow> Some (st, AText 200 ''status ok'')
      | Some RMoved \<Rightarrow> Some (st, AMoved (hq_Path req @ ''/''))
      | Some RMetrics \<Rightarrow> Some (st, AOutside)
      | Some RPing \<Rightarrow>
          (case hq_Ping req of
             Some e \<Rightarrow> respond_error (RespondError 502 ErrCodeUpstreamError ''Upstream error'') st
           | None \<Rightarrow> Some (st, AText 200 ''pong''))
      | Some RRegister \<Rightarrow> plain (HttpRegister s m body) st
      | Some RLogin \<Rightarrow> plain (HttpLogin s m body) st
      | Some RGuest \<Rightarrow> plain (HttpCreateGuest s m body) st
      | Some RConvert \<Rightarrow> plain (HttpConvertGuest s m body) st
      | Some RRefresh \<Rightarrow> plain (HttpRefreshToken s m body) st
      | Some RForgot \<Rightarrow> plain (HttpForgotPassword s m body) st
      | Some RReset \<Rightarrow> plain (HttpResetPassword s m body) st
      | Some ROAuthStart \<Rightarrow>
          (case on_world (HttpOAuthStart s (ap_oauth app) m (hq_Path req)) st of (st, r, cookies) \<Rightarrow> Some (st, AReply r cookies))
      | Some ROAuthCallback \<Rightarrow>
          (case on_world (HttpOAuthCallback s (ap_oauth app) m (hq_Path req) (hq_Query req ''code'') (hq_Query req ''state'')
              (hq_Cookie req ''oauth_state'')) st of (st, r, cookies) \<Rightarrow> Some (st, AReply r cookies))
      | Some RMe \<Rightarrow> authenticated app req (\<lambda>claims. plain (HttpGetMe s m claims)) st
      | Some RUsername \<Rightarrow> authenticated app req (\<lambda>claims st.
          map_option (\<lambda>(w, r). (st\<lparr>hs_world := w\<rparr>, AReply r [])) (HttpSetUsername s m claims body (hs_world st))) st
      | Some RWebSocket \<Rightarrow> Some (websocket app req st)
      | Some RLeaderboards \<Rightarrow> Some (leaderboard app mp req st)
      | Some RRooms \<Rightarrow> authenticated app req (RequireRegistered respond_error (\<lambda>claims st.
          map_option (\<lambda>(st, r). (st, room_answer r)) (HttpCreateRoom (ap_handler app) m claims body st))) st
      | Some RRoom \<Rightarrow> Some (st, room_answer (HttpGetRoom (ap_handler app) m (hq_Path req) st)))"

text \<open>The server: the headers of the CORS middleware and the answer.\<close>

definition serve ::
  "('r, LeaderboardEntry, 'x) Application \<Rightarrow> (string \<Rightarrow> uuid) \<Rightarrow> http_request \<Rightarrow> ('r, 'x) server_state \<Rightarrow>
   (string \<times> string) list \<times> (('r, 'x) server_state \<times> answer) option" where
  "serve app mp req st = corsMiddleware (ap_cors app) (Some (st, AText 204 [])) (\<lambda>req. dispatch app mp req st) req"

subsection \<open>What gets past the middleware\<close>

lemma on_world_sel: "on_world f st = (st', x) \<Longrightarrow> hs_rooms st' = hs_rooms st \<and> hs_hub st' = hs_hub st \<and> hs_queue st' = hs_queue st"
  by (auto simp: on_world_def Let_def split: prod.splits)

lemma plain_sel: "plain f st = Some (st', a) \<Longrightarrow> hs_rooms st' = hs_rooms st \<and> hs_hub st' = hs_hub st \<and> hs_queue st' = hs_queue st"
  by (auto simp: plain_def Let_def dest: on_world_sel split: prod.splits)

text \<open>The claims with which a handler behind the middleware runs, and those of a WebSocket request; the
  token is validated at the instant the clock shows.\<close>

definition claims_of :: "('r, 'e, 'x) Application \<Rightarrow> string \<Rightarrow> ('r, 'e, 'x) HState \<Rightarrow> Claims res" where
  "claims_of app token st =
     ValidateAccessToken (as_jwt (ap_auth app)) (as_tokenMgr (ap_auth app)) (snd (as_now (ap_auth app) (w_ext (hs_world st)))) token"

definition bearer_claims :: "('r, 'e, 'x) Application \<Rightarrow> http_request \<Rightarrow> ('r, 'e, 'x) HState \<Rightarrow> Claims \<Rightarrow> bool" where
  "bearer_claims app req st c \<longleftrightarrow>
     (\<exists>token. split_str '' '' (hq_Header req ''Authorization'') = [''Bearer'', token] \<and> claims_of app token st = Inr c)"

text \<open>What only touched the world outside and the clock.\<close>

definition ticked :: "('r, 'e, 'x) HState \<Rightarrow> ('r, 'e, 'x) HState \<Rightarrow> bool" where
  "ticked st st' \<longleftrightarrow> (\<exists>w. st' = st\<lparr>hs_world := w\<rparr> \<and> w_redis w = w_redis (hs_world st) \<and> w_db w = w_db (hs_world st))"

lemma ticked_refl [simp]: "ticked st st"
  unfolding ticked_def by (rule exI [of _ "hs_world st"]) simp

lemma ticked_sel:
  "ticked st st' \<Longrightarrow> hs_rooms st' = hs_rooms st \<and> hs_hub st' = hs_hub st \<and> hs_queue st' = hs_queue st \<and>
     w_redis (hs_world st') = w_redis (hs_world st)"
  by (auto simp: ticked_def)

lemma ValidateToken_ticks:
  "on_world (ValidateToken (ap_auth app) token) st = (st', r) \<Longrightarrow> ticked st st' \<and> r = claims_of app token st"
  by (auto simp: on_world_def ValidateToken_def on_ext_def claims_of_def ticked_def Let_def split: prod.splits)

lemma on_clock_ticks: "on_clock f st = (st', x) \<Longrightarrow> ticked st st'"
  by (auto simp: on_clock_def on_ext_def ticked_def Let_def split: prod.splits)

lemma authenticated_cases:
  assumes "authenticated app req handler st = Some (st', a)"
  shows "ticked st st' \<or> (\<exists>c st1. bearer_claims app req st c \<and> ticked st st1 \<and> handler (Some c) st1 = Some (st', a))"
proof (cases "hq_Header req ''Authorization'' = []")
  case True
  with assms show ?thesis by (auto simp: authenticated_def AuthMiddleware_def RequireAuth_def respond_error_def)
next
  case False
  show ?thesis
  proof (cases "\<exists>token. split_str '' '' (hq_Header req ''Authorization'') = [''Bearer'', token]")
    case True
    then obtain token where t: "split_str '' '' (hq_Header req ''Authorization'') = [''Bearer'', token]" by blast
    obtain st1 r where v: "on_world (ValidateToken (ap_auth app) token) st = (st1, r)" by force
    show ?thesis
    proof (cases r)
      case (Inl e)
      with assms False t v Inl ValidateToken_ticks [OF v, THEN conjunct1] show ?thesis by (auto simp: authenticated_def AuthMiddleware_def respond_error_def)
    next
      case (Inr c)
      with t ValidateToken_ticks [OF v] have "bearer_claims app req st c" by (auto simp: bearer_claims_def)
      with assms False t v Inr ValidateToken_ticks [OF v, THEN conjunct1] show ?thesis
        by (auto simp: authenticated_def AuthMiddleware_def RequireAuth_def)
    qed
  next
    case f: False
    have "authenticated app req handler st = respond_error (RespondUnauthorized ErrCodeInvalidToken ''Invalid authorization header'') st"
      using False f by (auto simp: authenticated_def AuthMiddleware_def split: list.splits)
    with assms show ?thesis by (simp add: respond_error_def)
  qed
qed

end
