(* ===== verification/ServerRuns.thy ===== *)
theory ServerRuns
  imports Server
begin

section \<open>Requests as steps of the platform\<close>

text \<open>
  Every request the HTTP server answers moves the state of the matches along the steps of the platform,
  whatever it does to accounts: the authentication service writes other keys of Redis, so the
  invariants of the platform hold while the whole server runs. Rooms, queue and hub change only for
  requests with a token.
\<close>

text \<open>The keys of the matches are as they were, or gone.\<close>

definition kept :: "('r \<Rightarrow> table) \<Rightarrow> 'r \<Rightarrow> 'r \<Rightarrow> bool" where
  "kept tab r r' \<longleftrightarrow> (\<forall>k. prefix ''match:'' k \<longrightarrow> tab r' k = tab r k \<or> tab r' k = None)"

named_theorems keeps \<open>operations that keep the keys of the matches\<close>

lemma kept_refl [simp]: "kept tab r r"
  by (simp add: kept_def)

lemma kept_same: "tab r' = tab r1 \<Longrightarrow> kept tab r r1 \<Longrightarrow> kept tab r r'"
  by (simp add: kept_def)

lemma on_ext_keeps [keeps]: "on_ext f w = (w', x) \<Longrightarrow> kept tab r (w_redis w) \<Longrightarrow> kept tab r (w_redis w')"
  by (auto simp: on_ext_def split: prod.splits)

lemma on_db_keeps [keeps]: "on_db f w = (w', x) \<Longrightarrow> kept tab r (w_redis w) \<Longrightarrow> kept tab r (w_redis w')"
  by (auto simp: on_db_def split: prod.splits)

lemma redis_call:
  assumes "on_redis f w = (w', x)" "kept tab r (w_redis w)"
    and "\<And>s s' x. f s = (s', x) \<Longrightarrow> kept tab r s \<Longrightarrow> kept tab r s'"
  shows "kept tab r (w_redis w')"
  using assms by (auto simp: on_redis_def split: prod.splits)

lemma other_prefix [simp]: "\<not> prefix ''match:'' (guest_key n)" "\<not> prefix ''match:'' (reset_key t)"
  by (simp_all add: guest_key_def reset_key_def)

context redis_server
begin

lemma Exists_keeps: "on_redis (\<lambda>s. rc_Exists rc s k) w = (w', x) \<Longrightarrow> kept tab r (w_redis w) \<Longrightarrow> kept tab r (w_redis w')"
  by (erule (1) redis_call) (auto dest!: exists_data simp: same_data_def intro: kept_same)

lemma Get_keeps: "on_redis (\<lambda>s. rc_Get rc s k) w = (w', x) \<Longrightarrow> kept tab r (w_redis w) \<Longrightarrow> kept tab r (w_redis w')"
  by (erule (1) redis_call) (auto dest!: get_data simp: same_data_def intro: kept_same)

lemma Set_keeps:
  assumes "\<not> prefix ''match:'' k" "kept tab r (w_redis w)" "on_redis (\<lambda>s. rc_Set rc s k d ttl) w = (w', x)"
  shows "kept tab r (w_redis w')"
proof (rule redis_call [OF assms(3,2)])
  fix s s' x assume c: "rc_Set rc s k d ttl = (s', x)" and k: "kept tab r s"
  have "tab s' k' = tab s k'" if "prefix ''match:'' k'" for k'
    by (rule set_frame [OF c]) (use that assms(1) in auto)
  with k show "kept tab r s'" by (simp add: kept_def)
qed

lemma Del_keeps: 
  assumes "kept tab r (w_redis w)" "on_redis (\<lambda>s. rc_Del rc s k) w = (w', x)"
  shows "kept tab r (w_redis w')"
proof (rule redis_call [OF assms(2,1)])
  fix s s' x assume d: "rc_Del rc s k = (s', x)" and k: "kept tab r s"
  have "tab s' = tab s \<or> tab s' = (tab s)(k := None)"
    using d by (cases x) (auto dest!: del_ok del_err simp: same_data_def becomes_def)
  with k show "kept tab r s'" by (auto simp: kept_def split: if_splits)
qed

lemma Set_keeps_fst:
  "\<not> prefix ''match:'' k \<Longrightarrow> kept tab r (w_redis w) \<Longrightarrow> kept tab r (w_redis (fst (on_redis (\<lambda>s. rc_Set rc s k d ttl) w)))"
  using Set_keeps by (metis prod.collapse)

lemma Del_keeps_fst: "kept tab r (w_redis w) \<Longrightarrow> kept tab r (w_redis (fst (on_redis (\<lambda>s. rc_Del rc s k) w)))"
  using Del_keeps by (metis prod.collapse)

end

lemma HashPassword_keeps [keeps]: "HashPassword s p w = (w', x) \<Longrightarrow> kept tab r (w_redis w) \<Longrightarrow> kept tab r (w_redis w')"
  by (auto simp: HashPassword_def dest: keeps split: if_splits)

lemma with_tokens_keeps [keeps]: "with_tokens s u w = (w', x) \<Longrightarrow> kept tab r (w_redis w) \<Longrightarrow> kept tab r (w_redis w')"
  by (simp add: with_tokens_other)

lemma generateTokenPair_keeps [keeps]: "generateTokenPair s u w = (w', x) \<Longrightarrow> kept tab r (w_redis w) \<Longrightarrow> kept tab r (w_redis w')"
  by (auto simp: generateTokenPair_def dest!: on_ext_other split: prod.splits sum.splits)

lemma suffix_loop_keeps [keeps]: "suffix_loop s n w = (w', x) \<Longrightarrow> kept tab r (w_redis w) \<Longrightarrow> kept tab r (w_redis w')"
  by (simp add: suffix_loop_other)

lemma suggest_first_redis: "w_redis (fst (suggest_first u i n acc w)) = w_redis w"
proof (induction u i n acc w rule: suggest_first.induct)
  case (2 u i n acc w)
  obtain w1 x where x: "on_db (GetByUsername (candidate_name u i)) w = (w1, x)" by force
  then have "w_redis w1 = w_redis w" by (auto simp: on_db_def split: prod.splits)
  with "2.IH"(1) [OF x [symmetric]] "2.IH"(2) [OF x [symmetric]] x show ?case by (simp add: Let_def split: sum.split)
qed simp

lemma suggest_rest_redis: "suggest_rest s u acc w = Some r \<Longrightarrow> w_redis (fst r) = w_redis w"
proof (induction rule: suggest_rest.raw_induct [of "\<lambda>s u acc w r. w_redis (fst r) = w_redis w", rotated, consumes 1])
  case (1 rest s u acc w r)
  note IH = 1(1) and pr = 1(2)
  from pr show ?case
    by (auto dest!: IH simp: on_ext_def on_db_def Let_def split: prod.splits sum.splits if_splits)
qed

lemma Suggestions_keeps [keeps]:
  "GenerateUsernameSuggestions s u w = Some (w', x) \<Longrightarrow> kept tab r (w_redis w) \<Longrightarrow> kept tab r (w_redis w')"
  by (auto simp: GenerateUsernameSuggestions_def Let_def dest!: suggest_rest_redis split: prod.splits)
    (metis fst_conv suggest_first_redis)

subsection \<open>The authentication service\<close>

text \<open>The service runs on a Redis server.\<close>

locale redis_auth = redis_server rc tab clk for rc :: "'r redis_client" and tab :: "'r \<Rightarrow> table" and clk :: "'r \<Rightarrow> instant" +
  fixes s :: "('r, 'x) AuthService"
  assumes its_redis: "as_redis s = Some rc"
begin

lemmas Set_reset_keeps = Set_keeps [OF other_prefix(2), rotated]

lemma guest_tokens_keeps:
  "with_tokens s u (fst (on_redis (\<lambda>r. rc_Set rc r (guest_key n) d ttl) w)) = (w', x) \<Longrightarrow> kept tab r (w_redis w) \<Longrightarrow>
     kept tab r (w_redis w')"
  by (erule with_tokens_keeps) (simp add: Set_keeps_fst)

lemma guest_loop_keeps: "guest_loop s n w = (w', x) \<Longrightarrow> kept tab r (w_redis w) \<Longrightarrow> kept tab r (w_redis w')"
proof (induction n arbitrary: w w' x)
  case (Suc n)
  then show ?case
    by (auto simp: Let_def its_redis dest!: keeps Exists_keeps split: prod.splits option.splits if_splits sum.splits)
qed simp

lemma create_account_keeps: "create_account s what e p w = (w', x) \<Longrightarrow> kept tab r (w_redis w) \<Longrightarrow> kept tab r (w_redis w')"
  by (auto simp: create_account_def dest: keeps split: prod.splits if_splits sum.splits)

lemma Login_keeps: "Login s req w = (w', x) \<Longrightarrow> kept tab r (w_redis w) \<Longrightarrow> kept tab r (w_redis w')"
  by (auto simp: Login_def dest: keeps split: prod.splits sum.splits option.splits)

lemma CreateGuest_keeps: "CreateGuest s req w = (w', x) \<Longrightarrow> kept tab r (w_redis w) \<Longrightarrow> kept tab r (w_redis w')"
  by (auto simp: CreateGuest_def generateGuestUsername_def Let_def its_redis dest: keeps guest_loop_keeps guest_tokens_keeps
      split: prod.splits sum.splits option.splits if_splits)

lemma RefreshToken_keeps: "RefreshToken s t w = (w', x) \<Longrightarrow> kept tab r (w_redis w) \<Longrightarrow> kept tab r (w_redis w')"
  by (auto simp: RefreshToken_def dest: keeps split: prod.splits sum.splits if_splits)

lemma SetUsername_keeps: "SetUsername s u n w = Some (w', x) \<Longrightarrow> kept tab r (w_redis w) \<Longrightarrow> kept tab r (w_redis w')"
  by (auto simp: SetUsername_def Let_def its_redis dest: keeps Exists_keeps split: prod.splits sum.splits option.splits if_splits)

lemma Request_keeps: "RequestPasswordReset s e w = (w', x) \<Longrightarrow> kept tab r (w_redis w) \<Longrightarrow> kept tab r (w_redis w')"
  by (auto simp: RequestPasswordReset_def Let_def its_redis dest: keeps Set_reset_keeps
      split: prod.splits sum.splits option.splits if_splits)

lemma Reset_keeps: "ResetPassword s t p w = (w', x) \<Longrightarrow> kept tab r (w_redis w) \<Longrightarrow> kept tab r (w_redis w')"
  by (auto simp: ResetPassword_def Let_def its_redis dest: keeps Get_keeps intro: Del_keeps_fst
      split: prod.splits sum.splits option.splits if_splits reply.splits doc.splits)

lemma OAuth_keeps: "CreateOrGetOAuthUser s p info w = (w', x) \<Longrightarrow> kept tab r (w_redis w) \<Longrightarrow> kept tab r (w_redis w')"
  by (auto simp: CreateOrGetOAuthUser_def dest: keeps split: prod.splits if_splits sum.splits)

lemma http_keeps:
  assumes "kept tab r (w_redis w)"
  shows "HttpRegister s m body w = (w', x) \<Longrightarrow> kept tab r (w_redis w')" "HttpLogin s m body w = (w', x) \<Longrightarrow> kept tab r (w_redis w')"
    "HttpCreateGuest s m body w = (w', x) \<Longrightarrow> kept tab r (w_redis w')" "HttpConvertGuest s m body w = (w', x) \<Longrightarrow> kept tab r (w_redis w')"
    "HttpRefreshToken s m body w = (w', x) \<Longrightarrow> kept tab r (w_redis w')" "HttpForgotPassword s m body w = (w', x) \<Longrightarrow> kept tab r (w_redis w')"
    "HttpResetPassword s m body w = (w', x) \<Longrightarrow> kept tab r (w_redis w')" "HttpGetMe s m claims w = (w', x) \<Longrightarrow> kept tab r (w_redis w')"
    "HttpSetUsername s m claims body w = Some (w', x) \<Longrightarrow> kept tab r (w_redis w')"
  subgoal using assms by (auto simp: HttpRegister_def Register_def dest: create_account_keeps split: if_splits option.splits prod.splits sum.splits)
  subgoal using assms by (auto simp: HttpLogin_def dest: Login_keeps split: if_splits option.splits prod.splits sum.splits)
  subgoal using assms by (auto simp: HttpCreateGuest_def dest: CreateGuest_keeps split: if_splits option.splits prod.splits sum.splits)
  subgoal using assms by (auto simp: HttpConvertGuest_def ConvertGuest_def dest: create_account_keeps split: if_splits option.splits prod.splits sum.splits)
  subgoal using assms by (auto simp: HttpRefreshToken_def dest: RefreshToken_keeps split: if_splits option.splits prod.splits sum.splits)
  subgoal using assms by (auto simp: HttpForgotPassword_def dest: Request_keeps split: if_splits option.splits prod.splits sum.splits)
  subgoal using assms by (auto simp: HttpResetPassword_def dest: Reset_keeps split: if_splits option.splits prod.splits sum.splits)
  subgoal using assms by (auto simp: HttpGetMe_def Let_def dest: keeps split: if_splits option.splits prod.splits)
  subgoal using assms by (auto simp: HttpSetUsername_def dest: SetUsername_keeps split: if_splits option.splits prod.splits)
  done

lemma HttpOAuthStart_keeps: "HttpOAuthStart s oauth m path w = (w', x) \<Longrightarrow> kept tab r (w_redis w) \<Longrightarrow> kept tab r (w_redis w')"
  by (auto simp: HttpOAuthStart_def Let_def dest: keeps split: if_splits option.splits prod.splits sum.splits)

lemma HandleOAuthCallback_keeps: "HandleOAuthCallback oa p code w = (w', x) \<Longrightarrow> kept tab r (w_redis w) \<Longrightarrow> kept tab r (w_redis w')"
  by (auto simp: HandleOAuthCallback_def dest: keeps split: if_splits option.splits prod.splits sum.splits)

lemma HttpOAuthCallback_keeps:
  "HttpOAuthCallback s oauth m path code state cookie w = (w', x) \<Longrightarrow> kept tab r (w_redis w) \<Longrightarrow> kept tab r (w_redis w')"
  by (auto simp: HttpOAuthCallback_def Let_def dest: HandleOAuthCallback_keeps OAuth_keeps split: if_splits option.splits prod.splits sum.splits)

end
subsection \<open>What a request does\<close>

text \<open>A request only changes the world, or is a visit over a WebSocket, or creates a room.\<close>

definition world_request :: "('r \<Rightarrow> table) \<Rightarrow> ('r, 'e, 'x) HState \<Rightarrow> ('r, 'e, 'x) HState \<Rightarrow> bool" where
  "world_request tab st st' \<longleftrightarrow> (\<exists>w. st' = st\<lparr>hs_world := w\<rparr> \<and> kept tab (w_redis (hs_world st)) (w_redis w))"

definition visit_request ::
  "('r, 'e, 'x) Application \<Rightarrow> http_request \<Rightarrow> ('r, 'e, 'x) HState \<Rightarrow> ('r, 'e, 'x) HState \<Rightarrow> bool" where
  "visit_request app req st st' \<longleftrightarrow> hq_Path req = ''/ws/matches'' \<and> hq_Query req ''token'' \<noteq> [] \<and> createWSOriginChecker (ap_cors app) req \<and>
     (\<exists>c st1. claims_of app (hq_Query req ''token'') st = Inr c \<and> ticked st st1 \<and>
        st' = HandleConnection (ap_handler app) (hq_Visit req) (hq_Conn req) (cl_UserID c) (cl_Username c) (cl_IsGuest c) (hq_Messages req) st1)"

definition room_request_of ::
  "('r, 'e, 'x) Application \<Rightarrow> http_request \<Rightarrow> ('r, 'e, 'x) HState \<Rightarrow> ('r, 'e, 'x) HState \<Rightarrow> bool" where
  "room_request_of app req st st' \<longleftrightarrow> hq_Path req = ''/v1/rooms'' \<and>
     (\<exists>c st1 r. bearer_claims app req st c \<and> \<not> cl_IsGuest c \<and> ticked st st1 \<and>
        HttpCreateRoom (ap_handler app) (hq_Method req) (Some c) (hq_Body req) st1 = Some (st', r))"

lemma world_request_refl [simp]: "world_request tab st st"
  unfolding world_request_def by (rule exI [of _ "hs_world st"]) simp

lemma world_request_ticked: "ticked st st' \<Longrightarrow> world_request tab st st'"
  by (auto simp: ticked_def world_request_def)

lemma world_request_trans: "ticked st st1 \<Longrightarrow> world_request tab st1 st' \<Longrightarrow> world_request tab st st'"
  by (auto simp: ticked_def world_request_def)

lemma plain_request:
  assumes "plain f st = Some (st', a)" "\<And>w w' x. f w = (w', x) \<Longrightarrow> kept tab (w_redis w) (w_redis w')"
  shows "world_request tab st st'"
  using assms by (force simp: plain_def on_world_def world_request_def Let_def split: prod.splits)

lemma websocket_cases:
  assumes "websocket app req st = (st', a)" "hq_Path req = ''/ws/matches''"
  shows "world_request tab st st' \<or> visit_request app req st st'"
proof (cases "hq_Query req ''token'' = []")
  case True
  with assms show ?thesis by (simp add: websocket_def HandleWebSocket_def)
next
  case False
  obtain st1 t where c: "on_clock (as_now (ap_auth app)) st = (st1, t)" by force
  then have t: "ticked st st1" "t = snd (as_now (ap_auth app) (w_ext (hs_world st)))"
    using on_clock_ticks on_clock_sel [OF c] by auto
  from False assms(1) c have
    "st' = st1 \<or> hq_Upgrade req \<and> createWSOriginChecker (ap_cors app) req \<and>
       (\<exists>c. claims_of app (hq_Query req ''token'') st = Inr c \<and>
         st' = HandleConnection (ap_handler app) (hq_Visit req) (hq_Conn req) (cl_UserID c) (cl_Username c) (cl_IsGuest c) (hq_Messages req) st1)"
    by (auto simp: websocket_def HandleWebSocket_def claims_of_def t(2) Let_def split: sum.splits if_splits)
  with False t(1) assms(2) show ?thesis
    unfolding visit_request_def using world_request_ticked by blast
qed

lemma HandleGet_keeps:
  assumes R: "redis_server rc tab clk" and g: "HandleGet s us mp rc m path limit (r, d) = ((r', d'), x)"
  shows "tab r' = tab r"
proof -
  have meta: "tab r' = tab r" if "readMeta s us mp rc w m r = (r', y)" for w m r r' y
    using that by (auto simp: readMeta_def same_data_def split: prod.splits sum.splits dest!: redis_server.hgetall_data [OF R])
  have room_meta: "tab r' = tab r" if "readPrivateRoomMeta s us mp rc w m r = (r', y)" for w m r r' y
    using that by (auto simp: readPrivateRoomMeta_def same_data_def split: prod.splits sum.splits dest!: redis_server.hgetall_data [OF R])
  have entries: "tab r' = tab r" if "read_entries (readMeta s us mp rc w) zs r = (r', es)" for w zs r r' es
    by (rule read_entries_data [OF meta that])
  have room_entries: "tab r' = tab r" if "read_entries (readPrivateRoomMeta s us mp rc w) zs r = (r', es)" for w zs r r' es
    by (rule read_entries_data [OF room_meta that])
  have z: "tab r' = tab r" if "rc_ZRevRange rc r k lo hi = (r', y)" for r k lo hi r' y
    using redis_server.zrev_data [OF R that] by (simp add: same_data_def)
  have top: "tab r' = tab r" if "Top s us mp rc w n r = (r', y)" for w n r r' y
    using that by (auto simp: Top_def Let_def dest!: z entries split: prod.splits sum.splits)
  have room: "tab r' = tab r" if "GetPrivateRoomLeaderboard s us mp rc w n r = (r', y)" for w n r r' y
    using that by (auto simp: GetPrivateRoomLeaderboard_def Let_def dest!: z room_entries split: prod.splits sum.splits)
  from g show ?thesis
    by (auto simp: HandleGet_def HandleGetPrivateRoom_def Let_def dest!: top room split: prod.splits sum.splits if_splits)
qed

lemma route_paths:
  "route_of p = Some RWebSocket \<Longrightarrow> p = ''/ws/matches''" "route_of p = Some RRooms \<Longrightarrow> p = ''/v1/rooms''"
  by (auto simp: route_of_def exact_routes_def oauth_route_def split: option.splits if_splits list.splits)

lemma dispatch_cases:
  assumes A: "redis_auth rc tab clk (ap_auth app)" and rc: "ap_redis app = rc" and d: "dispatch app mp req st = Some (st', a)"
  shows "world_request tab st st' \<or> visit_request app req st st' \<or> room_request_of app req st st'"
proof -
  note keeps = redis_auth.http_keeps [OF A]
  have plain: "world_request tab st st'" if "plain (f (ap_auth app) (hq_Method req) (hq_Body req)) st = Some (st', a)"
      "f \<in> {HttpRegister, HttpLogin, HttpCreateGuest, HttpConvertGuest, HttpRefreshToken, HttpForgotPassword, HttpResetPassword}" for f
    by (rule plain_request [OF that(1)]) (use that(2) keeps(1-7) [OF kept_refl] in auto)
  note out = d [unfolded dispatch_def Let_def]
  show ?thesis
  proof (cases "route_of (hq_Path req)")
    case None
    with out show ?thesis by simp
  next
    case (Some r)
    note rt = Some
    show ?thesis
    proof (cases r)
      case RWebSocket
      with rt route_paths have p: "hq_Path req = ''/ws/matches''" by blast
      from out rt RWebSocket have "websocket app req st = (st', a)" by simp
      from websocket_cases [OF this p, where tab = tab] show ?thesis by blast
    next
      case RRooms
      with rt route_paths have p: "hq_Path req = ''/v1/rooms''" by blast
      from out rt RRooms have "authenticated app req (RequireRegistered respond_error (\<lambda>claims st.
          map_option (\<lambda>(st, r). (st, room_answer r)) (HttpCreateRoom (ap_handler app) (hq_Method req) claims (hq_Body req) st))) st = Some (st', a)"
        by simp
      from authenticated_cases [OF this] p show ?thesis
        by (auto simp: RequireRegistered_def respond_error_def room_request_of_def world_request_ticked split: if_splits)
    next
      case RMe
      with out rt have "authenticated app req (\<lambda>claims. plain (HttpGetMe (ap_auth app) (hq_Method req) claims)) st = Some (st', a)" by simp
      then consider "ticked st st'" | (get) c st1 where "ticked st st1"
          "plain (HttpGetMe (ap_auth app) (hq_Method req) (Some c)) st1 = Some (st', a)"
        using authenticated_cases by blast
      then show ?thesis
      proof cases
        case get
        have "world_request tab st1 st'" by (rule plain_request [OF get(2)]) (rule keeps(8) [OF kept_refl])
        with get(1) world_request_trans show ?thesis by blast
      qed (use world_request_ticked in blast)
    next
      case RUsername
      with out rt have "authenticated app req (\<lambda>claims st. map_option (\<lambda>(w, r). (st\<lparr>hs_world := w\<rparr>, AReply r []))
          (HttpSetUsername (ap_auth app) (hq_Method req) claims (hq_Body req) (hs_world st))) st = Some (st', a)" by simp
      then consider "ticked st st'" | (post) c st1 where "ticked st st1" "map_option (\<lambda>(w, r). (st1\<lparr>hs_world := w\<rparr>, AReply r []))
          (HttpSetUsername (ap_auth app) (hq_Method req) (Some c) (hq_Body req) (hs_world st1)) = Some (st', a)"
        using authenticated_cases by blast
      then show ?thesis
      proof cases
        case post
        then obtain w r where w: "HttpSetUsername (ap_auth app) (hq_Method req) (Some c) (hq_Body req) (hs_world st1) = Some (w, r)"
          "st' = st1\<lparr>hs_world := w\<rparr>" by auto
        from keeps(9) [OF kept_refl w(1)] w(2) have "world_request tab st1 st'" unfolding world_request_def by blast
        with post(1) world_request_trans show ?thesis by blast
      qed (use world_request_ticked in blast)
    next
      case ROAuthStart
      with out rt show ?thesis
        using redis_auth.HttpOAuthStart_keeps [OF A]
        by (force simp: on_world_def world_request_def Let_def split: prod.splits)
    next
      case ROAuthCallback
      with out rt show ?thesis
        using redis_auth.HttpOAuthCallback_keeps [OF A]
        by (force simp: on_world_def world_request_def Let_def split: prod.splits)
    next
      case RLeaderboards
      obtain r1 d1 x where g: "HandleGet (ap_leaderboard app) (as_us (ap_auth app)) mp (ap_redis app) (hq_Method req) (hq_Path req)
          (hq_Query req ''limit'') (w_redis (hs_world st), w_db (hs_world st)) = ((r1, d1), x)" by (metis prod.collapse)
      have "redis_server rc tab clk" using A by (simp add: redis_auth_def)
      from HandleGet_keeps [OF this g [unfolded rc]] have "kept tab (w_redis (hs_world st)) r1" by (simp add: kept_def)
      with out rt RLeaderboards g show ?thesis by (force simp: leaderboard_def world_request_def)
    qed (use out rt plain in \<open>auto simp: respond_error_def split: option.splits dest: plain\<close>)
  qed
qed

lemma HandleConnection_run:
  assumes "platform_run h tab st" "\<And>g. enumerates (order g) (hub_matches g)"
  shows "platform_run h tab (HandleConnection h order conn u name guest msgs st)"
proof -
  have "platform_run h tab (fold (\<lambda>msg st. fst (handleMessage h u name guest msg st)) msgs st1)" if "platform_run h tab st1" for st1
    using that
  proof (induction msgs arbitrary: st1)
    case (Cons m ms)
    have "platform_run h tab (fst (handleMessage h u name guest m st1))"
      by (rule platform_run.step [OF Cons.prems platform_step.message [OF prod.collapse [symmetric]]])
    with Cons.IH show ?case by simp
  qed simp
  from this [OF platform_run.step [OF assms(1) platform_step.opened]] show ?thesis
    unfolding HandleConnection_def by (rule platform_run.step [OF _ platform_step.closed]) (rule assms(2))
qed

lemma world_request_run: "platform_run h tab st \<Longrightarrow> world_request tab st st' \<Longrightarrow> platform_run h tab st'"
  by (auto simp: world_request_def kept_def intro!: platform_run.step [OF _ platform_step.elsewhere])

lemma wired_auth:
  assumes "NewApplication lib cfg = Inr app" "redis_server (app_redis lib cfg) tab clk"
  shows "redis_auth (app_redis lib cfg) tab clk (ap_auth app)" "ap_redis app = app_redis lib cfg"
  using assms by (auto simp: NewApplication_def NewAuthService_def Let_def redis_auth_def redis_auth_axioms_def split: option.splits if_splits)

lemma serve_cases:
  assumes "NewApplication lib cfg = Inr app" "redis_server (app_redis lib cfg) tab clk" "serve app mp req st = (headers, Some (st', a))"
  shows "world_request tab st st' \<or> visit_request app req st st' \<or> room_request_of app req st st'"
proof -
  note d = dispatch_cases [OF wired_auth [OF assms(1,2)]]
  from assms(3) have "st' = st \<or> dispatch app mp req st = Some (st', a)" by (auto simp: serve_def corsMiddleware_def split: if_splits)
  then show ?thesis using d world_request_refl by blast
qed

text \<open>C2: Whatever request the server answers - to register, sign in, play as a guest, reset a password, read
  a leaderboard, open a room, or a whole visit over a WebSocket with all its messages - the state of
  queue, rooms, hub and matches moves along the steps of the platform, so all its invariants hold
  while the server runs. The accounts share Redis with the matches without disturbing them.\<close>

theorem requests_are_platform_steps:
  assumes "NewApplication lib cfg = Inr app" "redis_server (app_redis lib cfg) tab clk"
    and "platform_run (ap_handler app) tab st" "\<And>g. enumerates (hq_Visit req g) (hub_matches g)"
    and "serve app mp req st = (headers, Some (st', a))"
  shows "platform_run (ap_handler app) tab st'"
proof -
  note run = world_request_run [OF assms(3)]
  from serve_cases [OF assms(1,2,5)] consider (world) "world_request tab st st'" | (visit) "visit_request app req st st'"
    | (room) "room_request_of app req st st'" by blast
  then show ?thesis
  proof cases
    case world
    with run show ?thesis by blast
  next
    case visit
    then show ?thesis unfolding visit_request_def using HandleConnection_run [OF run assms(4)] world_request_ticked by blast
  next
    case room
    then show ?thesis unfolding room_request_of_def using run world_request_ticked platform_step.room platform_run.step by blast
  qed
qed

text \<open>C3: Nobody plays without a token. If a request changes the queue or the hub it is a WebSocket request
  whose query holds an access token that is valid now and whose origin is absent or allowed; if it
  changes the rooms without being one, it is a POST to /v1/rooms with a valid bearer token of a
  registered account.\<close>

theorem playing_needs_a_token:
  assumes "NewApplication lib cfg = Inr app" "redis_server (app_redis lib cfg) tab clk"
    and "serve app mp req st = (headers, Some (st', a))"
    and "hs_queue st' \<noteq> hs_queue st \<or> hs_hub st' \<noteq> hs_hub st \<or> hs_rooms st' \<noteq> hs_rooms st"
  shows "hq_Path req = ''/ws/matches'' \<and> (\<exists>c. claims_of app (hq_Query req ''token'') st = Inr c) \<and>
      (hq_Header req ''Origin'' = [] \<or> hq_Header req ''Origin'' \<in> set (crs_AllowedOrigins (ap_cors app))) \<or>
    hq_Path req = ''/v1/rooms'' \<and> hq_Method req = ''POST'' \<and> hs_queue st' = hs_queue st \<and> hs_hub st' = hs_hub st \<and>
      (\<exists>c. bearer_claims app req st c \<and> \<not> cl_IsGuest c)"
proof -
  have "\<not> world_request tab st st'" using assms(4) by (auto simp: world_request_def)
  with serve_cases [OF assms(1-3)] consider (visit) "visit_request app req st st'" | (room) "room_request_of app req st st'" by blast
  then show ?thesis
  proof cases
    case visit
    then show ?thesis by (auto simp: visit_request_def createWSOriginChecker_def Let_def split: if_splits)
  next
    case room
    then obtain c st1 r where c: "hq_Path req = ''/v1/rooms''" "bearer_claims app req st c" "\<not> cl_IsGuest c" "ticked st st1"
      "HttpCreateRoom (ap_handler app) (hq_Method req) (Some c) (hq_Body req) st1 = Some (st', r)"
      unfolding room_request_of_def by blast
    note sel = ticked_sel [OF c(4)]
    from HttpCreateRoom_cases [OF c(5)] sel assms(4)
    have "hq_Method req = ''POST'' \<and> hs_queue st' = hs_queue st \<and> hs_hub st' = hs_hub st" by auto
    with c show ?thesis by blast
  qed
qed

text \<open>A request from a foreign origin is logged as blocked, but served like any other; only the header
  with the allowed origin is missing.\<close>

lemma foreign_origins_are_served:
  assumes "hq_Header req ''Origin'' \<notin> set (crs_AllowedOrigins (ap_cors app))" "hq_Method req \<noteq> ''OPTIONS''"
  shows "snd (serve app mp req st) = dispatch app mp req st"
    "\<forall>v. (''Access-Control-Allow-Origin'', v) \<notin> set (fst (serve app mp req st))"
  using assms by (auto simp: serve_def corsMiddleware_def cors_headers_def allowed_origin_def find_Some_iff in_set_conv_nth
      split: option.splits if_splits)

subsection \<open>An application that serves\<close>

definition ex_start :: "(mem, nat) server_state" where
  "ex_start = \<lparr>hs_world =
       \<lparr>w_redis = \<lparr>mem_tab = Map.empty, mem_clk = 0, mem_lat = 1, mem_faults = []\<rparr>,
        w_db = \<lparr>db_users = [], db_matches = Map.empty, db_players = Map.empty, db_questions = Map.empty, db_snapshots = [],
          db_now = 0, db_uuids = (\<lambda>n. of_nat (n + 1)), db_drawn = 0, db_orders = (\<lambda>n. []), db_listed = 0, db_faults = []\<rparr>,
        w_ext = 0\<rparr>, hs_queue = NewQueueManager 10,
     hs_rooms = NewRoomManager, hs_hub = NewHub\<rparr>"

text \<open>A request to the given path, with the given token in its query and nothing else.\<close>

definition ex_request :: "string \<Rightarrow> string \<Rightarrow> http_request" where
  "ex_request path token = \<lparr>hq_Method = ''POST'', hq_Path = path, hq_Header = (\<lambda>_. []),
     hq_Query = (\<lambda>k. if k = ''token'' then token else []), hq_Cookie = (\<lambda>_. None), hq_Body = Some (JObject []), hq_Ping = None,
     hq_Upgrade = True, hq_Conn = 7, hq_Visit = (\<lambda>g. sorted_list_of_set (dom (hub_matches g))), hq_Messages = []\<rparr>"

lemma ex_request_sel [simp]:
  "hq_Path (ex_request p t) = p" "hq_Header (ex_request p t) = (\<lambda>_. [])" "hq_Method (ex_request p t) = ''POST''"
  "hq_Query (ex_request p t) ''token'' = t" "hq_Upgrade (ex_request p t)" "hq_Messages (ex_request p t) = []" "hq_Conn (ex_request p t) = 7"
  by (simp_all add: ex_request_def)

lemma ex_visits: "enumerates (hq_Visit (ex_request p t) g) (hub_matches g)"
  by (simp add: ex_request_def enumerates_def)

lemma ex_start_run: "platform_run h mem_tab ex_start"
  unfolding ex_start_def by (rule platform_run.start) simp

lemma ex_libs_redis: "redis_server (app_redis ex_libs ex_cfg) mem_tab mem_clk"
  using mem.redis_server_axioms by (simp add: ex_libs_def app_redis_def)

lemma ex_app_auth:
  assumes "NewApplication ex_libs ex_cfg = Inr app"
  shows "as_jwt (ap_auth app) = ex_jwt" "as_now (ap_auth app) = (\<lambda>x. (Suc x, int x * second))"
    "as_tokenMgr (ap_auth app) = NewTokenManager (app_token_config ex_cfg)"
  using assms by (auto simp: NewApplication_def ex_libs_def Let_def NewAuthService_def ex_cfg_def split: if_splits)

theorem requests_are_platform_steps_witness:
  "\<exists>app headers st' a. serve app (\<lambda>_. 0) (ex_request ''/v1/auth/guest'' []) ex_start = (headers, Some (st', a)) \<and>
     platform_run (ap_handler app) mem_tab st'"
proof -
  obtain app where a: "NewApplication ex_libs ex_cfg = Inr app" using ex_app by blast
  let ?r = "ex_request ''/v1/auth/guest'' []"
  have r: "route_of (hq_Path ?r) = Some RGuest" by (simp add: route_of_def exact_routes_def)
  obtain headers st' x where s: "serve app (\<lambda>_. 0) ?r ex_start = (headers, Some (st', x))"
    by (cases "on_world (HttpCreateGuest (ap_auth app) (hq_Method ?r) (hq_Body ?r)) ex_start")
      (use r in \<open>simp add: serve_def corsMiddleware_def dispatch_def Let_def plain_def\<close>)
  from requests_are_platform_steps [OF a ex_libs_redis ex_start_run ex_visits s] s show ?thesis by blast
qed

theorem playing_needs_a_token_witness:
  "\<exists>app headers token st' a. token \<noteq> [] \<and> serve app (\<lambda>_. 0) (ex_request ''/ws/matches'' token) ex_start = (headers, Some (st', a)) \<and>
     hs_hub st' \<noteq> hs_hub ex_start \<and> (\<exists>c. claims_of app token ex_start = Inr c)"
proof -
  obtain app where a: "NewApplication ex_libs ex_cfg = Inr app" using ex_app by blast
  note auth = ex_app_auth [OF a]
  let ?m = "NewTokenManager (app_token_config ex_cfg)"
  let ?u = "\<lparr>ju_ID = 1, ju_Email = None, ju_Username = ''u'', ju_UserType = ''guest'', ju_IsGuest = True\<rparr>"
  obtain token where t: "GenerateAccessToken ex_jwt (\<lambda>u. []) ?m 0 ?u = Inr token" by (simp add: GenerateAccessToken_def ex_jwt_def)
  then have ne: "token \<noteq> []" by (auto simp: GenerateAccessToken_def ex_jwt_def ex_token_def part_def)
  have "tm_accessTTL ?m = 3600 * second" by (simp add: NewTokenManager_def app_token_config_def)
  with ex_jwt_lib.validate_own(1) [OF t [unfolded GenerateAccessToken_def], of 0]
  have v: "ValidateAccessToken ex_jwt ?m 0 token = Inr (claims_for ex_jwt (\<lambda>u. []) ?m (3600 * second) 0 ?u)"
    by (simp add: ValidateAccessToken_def)
  let ?r = "ex_request ''/ws/matches'' token"
  have r: "route_of (hq_Path ?r) = Some RWebSocket" by (simp add: route_of_def exact_routes_def)
  obtain st' x where w: "websocket app ?r ex_start = (st', x)" by force
  then have s: "serve app (\<lambda>_. 0) ?r ex_start = (cors_headers (ap_cors app) [], Some (st', x))"
    using r by (simp add: serve_def corsMiddleware_def dispatch_def Let_def)
  have "cn_closed (hub_conn (hs_hub st') 7)"
    using w ne v by (auto simp: websocket_def HandleWebSocket_def auth on_clock_def on_ext_def ex_start_def
        createWSOriginChecker_def HandleConnection_def open_connection_def close_connection_def RegisterConnection_def
        UnregisterConnection_def on_conn_def NewHub_def Conn_Close_def ex_request_def)
  then have h: "hs_hub st' \<noteq> hs_hub ex_start" by (auto simp: ex_start_def NewHub_def NewConnection_def)
  have "\<exists>c. claims_of app token ex_start = Inr c" using playing_needs_a_token [OF a ex_libs_redis s] h by simp
  with s h ne show ?thesis by blast
qed

end
