(* ===== verification/Workers.thy ===== *)
theory Workers
  imports ServerRuns
begin

section \<open>Background workers and shutdown (subscriber.go, worker.go, app.go)\<close>

text \<open>
  The broadcaster forwards every update that arrives on its Redis channel to every connected client;
  the snapshot worker ticks once at its start and then whenever its ticker fires; \<open>Run\<close> starts both,
  serves until it is told to stop and closes what it opened. What arrives, fires or stops is the input.
\<close>

subsection \<open>The broadcaster\<close>

definition broadcaster_channel :: "string \<Rightarrow> string" where
  "broadcaster_channel channel = (if channel = [] then ''lb:updates'' else channel)"

datatype sub_event = Published string | Closed | ContextDone

text \<open>\<open>Waiting\<close>: the loop is still in its \<open>select\<close>.\<close>

datatype outcome = Waits | Returns "err option"

text \<open>One message; \<open>order\<close> is the iteration over the connections.\<close>

definition forward_to_all ::
  "(string \<Rightarrow> LeaderboardUpdatePayload res) \<Rightarrow> (Hub \<Rightarrow> uuid list) \<Rightarrow> string \<Rightarrow> Hub \<Rightarrow> Hub" where
  "forward_to_all unjs order payload g =
     (case forward unjs payload of None \<Rightarrow> g | Some msg \<Rightarrow> fst (BroadcastAll (order g) msg g))"

fun Broadcaster_Run ::
  "(string \<Rightarrow> LeaderboardUpdatePayload res) \<Rightarrow> (Hub \<Rightarrow> uuid list) \<Rightarrow> sub_event list \<Rightarrow> Hub \<Rightarrow> Hub \<times> outcome" where
  "Broadcaster_Run unjs order [] g = (g, Waits)"
| "Broadcaster_Run unjs order (Published payload # es) g = Broadcaster_Run unjs order es (forward_to_all unjs order payload g)"
| "Broadcaster_Run unjs order (Closed # es) g = (g, Returns None)"
| "Broadcaster_Run unjs order (ContextDone # es) g = (g, Returns (Some ''context canceled''))"

subsection \<open>The snapshot worker\<close>

record SnapshotWorker =
  sw_interval :: duration
  sw_topN :: int

definition NewSnapshotWorker :: "duration \<Rightarrow> int \<Rightarrow> SnapshotWorker" where
  "NewSnapshotWorker interval topN =
     \<lparr>sw_interval = (if interval \<le> 0 then 5 * 60 * second else interval), sw_topN = worker_topN topN\<rparr>"

text \<open>The readings of the clock of the first tick and of those of the ticker, until the context is cancelled.\<close>

definition SnapshotWorker_Run ::
  "LbService \<Rightarrow> (uuid \<Rightarrow> string) \<Rightarrow> (string \<Rightarrow> uuid) \<Rightarrow> (LeaderboardEntry list \<Rightarrow> string) \<Rightarrow> 'r redis_client \<Rightarrow>
   SnapshotWorker \<Rightarrow> (string \<Rightarrow> instant) \<Rightarrow> (string \<Rightarrow> instant) list \<Rightarrow> 'r \<times> lb_db \<Rightarrow> 'r \<times> lb_db" where
  "SnapshotWorker_Run s us mp hash rc w first ticks rd =
     fold (snapshot_tick s us mp hash rc (sw_topN w)) (first # ticks) rd"

subsection \<open>Run\<close>

datatype wake = Signalled string | ServeFailed err | Cancelled

datatype action = StartBroadcaster | StartSnapshots | Listen string | ShutdownHTTP duration | CancelWorker nat | ClosePool | CloseRedis

definition startBackgroundWorkers :: "('r, 'e, 'x) Application \<Rightarrow> action list" where
  "startBackgroundWorkers app = StartBroadcaster # (if ap_snapshots app = None then [] else [StartSnapshots])"

text \<open>What \<open>Run\<close> does before it waits, and after it was woken; errors of the shutdown are only logged.\<close>

definition Run :: "AppConfig \<Rightarrow> ('r, 'e, 'x) Application \<Rightarrow> wake \<Rightarrow> action list \<times> action list \<times> err option" where
  "Run cfg app wake =
     (let workers = startBackgroundWorkers app
      in (workers @ [Listen (cf_HTTPAddr cfg)],
          case wake of
            ServeFailed e \<Rightarrow> ([], Some (''http server error: '' @ e))
          | _ \<Rightarrow> (ShutdownHTTP (cf_GracefulShutdownTimeout cfg) # map CancelWorker [0..<length workers] @ [ClosePool, CloseRedis], None)))"

text \<open>When the server fails, nothing is shut down: workers run on and pool and client stay open.\<close>

lemma failed_server_leaves_workers: "snd (Run cfg app (ServeFailed e)) = ([], Some (''http server error: '' @ e))"
  by (simp add: Run_def Let_def)

lemma shutdown_closes_everything:
  assumes "\<nexists>e. wake = ServeFailed e"
  shows "\<exists>acts. snd (Run cfg app wake) = (acts, None) \<and> last acts = CloseRedis \<and> ClosePool \<in> set acts \<and>
    (\<forall>i < length (startBackgroundWorkers app). CancelWorker i \<in> set acts)"
  using assms by (cases wake) (simp_all add: Run_def Let_def)

subsection \<open>Updates reach everyone\<close>

lemma SendToUser_other:
  assumes "own_connections g" "SendToUser v msg g = (g', e)"
  shows "own_connections g'" "hub_connections g' = hub_connections g"
    "u \<noteq> v \<Longrightarrow> inbox g' u = inbox g u" "u \<noteq> v \<Longrightarrow> takes g' k u = takes g k u"
  using assms by (auto simp: SendToUser_def Conn_Send_def own_connections_def inbox_def takes_def on_conn_def
      split: option.splits if_splits)

lemma send_all_reaches:
  assumes "own_connections g" "distinct us" "send_all us msg g = (g', es)"
  shows "own_connections g' \<and> hub_connections g' = hub_connections g \<and>
    (u \<notin> set us \<longrightarrow> inbox g' u = inbox g u \<and> (\<forall>k. takes g' k u = takes g k u)) \<and>
    (u \<in> set us \<and> takes g (Suc n) u \<longrightarrow> inbox g' u = inbox g u @ [msg] \<and> takes g' n u)"
  using assms
proof (induction us arbitrary: g es)
  case (Cons v us)
  obtain g1 e where s: "SendToUser v msg g = (g1, e)" by (rule prod.exhaust)
  obtain es1 where r: "send_all us msg g1 = (g', es1)" using Cons.prems(3) s by (auto split: prod.splits)
  note one = SendToUser_other [OF Cons.prems(1) s]
  note rest = Cons.IH [OF one(1) _ r]
  show ?case
  proof (cases "u = v")
    case True
    with Cons.prems(2) rest one(2) SendToUser_delivers [OF _ Cons.prems(1) s] show ?thesis by auto
  next
    case False
    with Cons.prems(2) rest one show ?thesis by auto
  qed
qed simp

lemma forward_reaches:
  assumes "own_connections g" "enumerates (order g) (hub_connections g)" "unjs payload = Inr evt"
  shows "own_connections (forward_to_all unjs order payload g)" "takes g (Suc n) u \<Longrightarrow> takes (forward_to_all unjs order payload g) n u"
    "takes g (Suc n) u \<Longrightarrow> inbox (forward_to_all unjs order payload g) u = inbox g u @ [message TypeLeaderboardUpdate (PLeaderboardUpdate evt)]"
proof -
  let ?m = "message TypeLeaderboardUpdate (PLeaderboardUpdate evt)"
  obtain g' es where s: "send_all (order g) ?m g = (g', es)" by (rule prod.exhaust)
  have f: "forward_to_all unjs order payload g = g'" using s by (simp add: forward_to_all_def forward_def assms(3) BroadcastAll_def)
  have d: "distinct (order g)" "set (order g) = dom (hub_connections g)" using enumeratesD [OF assms(2)] by simp_all
  note r = send_all_reaches [OF assms(1) d(1) s, where u = u and n = n]
  have u: "u \<in> set (order g)" if "takes g (Suc n) u" using that d(2) by (auto simp: takes_def split: option.splits)
  show "own_connections (forward_to_all unjs order payload g)" using r f by simp
  show "takes g (Suc n) u \<Longrightarrow> takes (forward_to_all unjs order payload g) n u"
    "takes g (Suc n) u \<Longrightarrow> inbox (forward_to_all unjs order payload g) u = inbox g u @ [?m]" using r f u by simp_all
qed

text \<open>C37: The application's broadcaster listens on the channel its leaderboards publish to, and every client
  whose connection has room for them is sent all updates that arrive, in their order, whatever the
  other clients' connections do and in whatever order the clients are visited.\<close>

theorem updates_reach_every_client:
  assumes "own_connections g" "\<And>h. enumerates (order h) (hub_connections h)" "\<And>evt. evt \<in> set evts \<Longrightarrow> unjs (js evt) = Inr evt"
    and "takes g (length evts) u"
  shows "broadcaster_channel [] = lb_pubsubChannel (NewLbService app_lb_options) \<and>
    inbox (fst (Broadcaster_Run unjs order (map (Published \<circ> js) evts) g)) u =
      inbox g u @ map (\<lambda>evt. message TypeLeaderboardUpdate (PLeaderboardUpdate evt)) evts"
proof
  show "broadcaster_channel [] = lb_pubsubChannel (NewLbService app_lb_options)"
    by (simp add: broadcaster_channel_def NewLbService_def app_lb_options_def)
  show "inbox (fst (Broadcaster_Run unjs order (map (Published \<circ> js) evts) g)) u =
      inbox g u @ map (\<lambda>evt. message TypeLeaderboardUpdate (PLeaderboardUpdate evt)) evts"
    using assms(1,3,4)
  proof (induction evts arbitrary: g)
    case (Cons evt evts)
    have e: "unjs (js evt) = Inr evt" using Cons.prems(2) by simp
    note f = forward_reaches [of g order unjs "js evt" evt, OF Cons.prems(1) assms(2) e]
    from Cons.IH [OF f(1) _ f(2)] Cons.prems(2,3) f(3) show ?case by simp
  qed simp
qed

definition ex_update :: "string \<Rightarrow> LeaderboardUpdatePayload" where
  "ex_update w = \<lparr>lu_Window = w, lu_Top = [], lu_MatchID = []\<rparr>"

theorem updates_reach_every_client_witness:
  "length (inbox (fst (Broadcaster_Run (\<lambda>p. Inr (ex_update p)) (\<lambda>h. sorted_list_of_set (dom (hub_connections h)))
      (map (Published \<circ> lu_Window) [ex_update ''daily'', ex_update ''weekly'']) (hs_hub ex_s1))) 1) = 2"
proof -
  have own: "own_connections (hs_hub ex_s1)" and t: "takes (hs_hub ex_s1) (length [ex_update ''daily'', ex_update ''weekly'']) 1"
    and i: "inbox (hs_hub ex_s1) 1 = []"
    by (auto simp: own_connections_def takes_def inbox_def ex_s1_def ex_s0_def open_connection_def RegisterConnection_def NewHub_def
        on_conn_def NewConnection_def send_capacity_def split: if_splits)
  have o: "enumerates (sorted_list_of_set (dom (hub_connections h))) (hub_connections h)" for h by (simp add: enumerates_def)
  have "(\<lambda>p. Inr (ex_update p)) (lu_Window evt) = Inr evt" if "evt \<in> set [ex_update ''daily'', ex_update ''weekly'']"
    for evt :: LeaderboardUpdatePayload using that by (auto simp: ex_update_def)
  from updates_reach_every_client [OF own o this t] i show ?thesis by simp
qed

end
