(* ===== verification/Spec2Isabelle.thy ===== *)
theory Spec2Isabelle
  imports Prelude F64 Json Domain Scoring Queue Rooms Redis MatchState Database Messages HttpErrors Questions
    Leaderboard MatchService MatchRuns Hub Jwt MatchHandler Platform UserDB Auth AuthHandlers Accounts SignIn
    RateLimiter Gemini AIGen App Server ServerRuns Workers
begin

text \<open>
  A model of the Go quiz platform: a server on which players meet in a queue or in private rooms,
  answer a pack of questions against the clock, and see scores and leaderboards.

  \<^bold>\<open>Parts and how they interact.\<close> A client holds a WebSocket connection (\<open>pkg/http/ws/hub.go\<close>, theory
  Hub; its messages \<open>message.go\<close>, theory Messages; their JSON, theory Json). The match handler
  (\<open>internal/match/handler.go\<close>, \<open>http.go\<close>, \<open>ws_handler.go\<close>, theory MatchHandler) turns its messages
  into calls of the queue (\<open>match/queue/manager.go\<close>, theory Queue), the rooms (\<open>match/room.go\<close>,
  theory Rooms) and the match service (\<open>match/service.go\<close>, theory MatchService), and sends the
  answers through the hub. The match service fetches a pack from the question service
  (\<open>internal/question\<close>, theory Questions), keeps players and questions in Redis
  (\<open>match/state.go\<close>, theory MatchState) and rows in PostgreSQL (\<open>internal/db\<close>, theory Database),
  grades with the scoring engine (\<open>match/scoring/engine.go\<close>, theory Scoring) and passes results to
  the leaderboards (\<open>internal/leaderboard\<close>, theory Leaderboard). Tokens are those of
  \<open>internal/auth/jwt\<close> (theory Jwt); error responses those of \<open>pkg/http/errors\<close> (theory HttpErrors).
  Accounts are rows of the users table (\<open>db/sqlc/users.sql.go\<close>, \<open>db/repository/user_repo.go\<close>, theory
  UserDB); the authentication service (\<open>auth/service.go\<close>, \<open>password.go\<close>, \<open>email.go\<close>, theory Auth) registers,
  signs in, refreshes, names and resets them, and its handlers, middleware and the OAuth flow
  (\<open>auth/handlers.go\<close>, \<open>middleware.go\<close>, \<open>oauth.go\<close>) are theory AuthHandlers; Accounts holds its invariant
  and runs, SignIn its properties. Questions that no row provides come from the generator client
  (\<open>question/ai/generator.go\<close>, theory AIGen), whose other end is the Gemini wrapper
  (\<open>examples/ai/gemini-wrapper/main.go\<close>, theory Gemini, its rate limiter theory RateLimiter). The
  application is wired from its configuration in theory App (\<open>internal/app/app.go\<close>,
  \<open>internal/config\<close>) and serves HTTP in theory Server (\<open>internal/server/http.go\<close>); ServerRuns shows what
  one request does to the whole. Workers has the loops behind it (\<open>leaderboard/subscriber.go\<close>,
  \<open>worker.go\<close>) and the start and shutdown of the process.
  Prelude and Domain hold what all share, F64 the rounding of \<open>float64\<close>, Redis the Redis client
  with its laws, MatchRuns and Platform the runs of the match service and of the whole server.

  \<^bold>\<open>How code becomes definitions.\<close> A Go function is a definition of the same name; a struct is a
  record whose fields keep the Go name behind a short prefix; \<open>(T, error)\<close> is \<open>err + T\<close>; a nil
  pointer is \<open>None\<close>. State is passed: the queue, the room map and the hub are values, Redis, the
  database and everything else outside are the three fields of a \<open>world\<close>. What is not in the
  repository is a parameter: the Redis client, the JWT library, \<open>uuid\<close>, the clock, random numbers,
  the HMAC, the conversions of \<open>pgtype\<close> (among them whether \<open>UUID.Scan\<close> accepts a \<open>uuid.UUID\<close>, the fields
  \<open>as_scan\<close> and \<open>ms_scan\<close>; pgx v5 documents text only, so theorems that depend on it say what happens either way), bcrypt, SMTP, \<open>oauth2\<close>, HTTP calls to other services. What the code relies on of Redis, of
  the JWT library and of bcrypt is a locale with an executable interpretation (\<open>mem_client\<close>, \<open>ex_jwt\<close>,
  \<open>ex_auth\<close>). The order of a
  \<open>range\<close> over a map is an argument or drawn from the world, and theorems hold for every order. A
  function that holds a mutex for its whole body is one step; where a function releases it in
  between (\<open>CreateRoom\<close>, \<open>BroadcastToMatch\<close>) its critical sections are separate steps.

  \<^bold>\<open>What the lemmas show.\<close> Per component an invariant of its runs: no two compatible players wait
  (Queue), rooms are well-formed (Rooms), stored answers never repeat (MatchRuns), member lists
  are refined by the shared slices of the hub (Hub); the lock of a match excludes (MatchState);
  leaderboards refine plain totals (Leaderboard); packs have the requested size (Questions); the
  final score equals a one-pass computation (Scoring). Platform composes them: every run of the
  server projects to a run of each component; and ServerRuns lifts that to HTTP: every request is a
  sequence of platform steps, and nobody plays without a token. Accounts are never lost and keep their
  names (Accounts), passwords work until they are reset, and a reset works as far as the scan of identifiers does (SignIn), the limiter never exceeds its rate
  but can starve for good (RateLimiter), the client gets what the wrapper made (AIGen). Behaviour that differs from what comments or names
  promise is stated as what the code does.

  \<^bold>\<open>Loops and bounds.\<close> Recursion is structural, or has a measure. Loops without a bound in the code
  (the search for a free room code, for free user names) are \<open>partial_function (option)\<close>, with the
  condition under which they return. The retry loop of the wrapper has three passes, the search for
  a guest name fifty, as the code counts them. Integers that the code narrows (\<open>int16\<close>, \<open>int32\<close>) are wrapped; \<open>int\<close> is
  unbounded elsewhere, where all values are small. A \<open>uuid\<close> is a 128-bit word.

  \<^bold>\<open>Not modelled.\<close> The \<open>main\<close> functions, the migration tool, the reading of the environment, logging,
  metrics and the reading and writing of sockets only call libraries. Two panics are left out:
  \<open>uuid.MustParse\<close> of a leaderboard member, which the code only writes as text of an identifier, and the nil request of
  the Gemini wrapper when its URL cannot be parsed. The audit queries are
  generated and unused. JSON text is read and written by a library; bodies are values of the type
  \<open>json\<close>. Log output is left out of every function.
\<close>

section \<open>The server as a whole\<close>

text \<open>C1: Whatever the clients send, in any order, with connections opening, breaking and reconnecting,
  rooms created over HTTP, matches finalised, and keys of Redis lost: no player is ever graded
  twice for a question, no two waiting players could play each other, every room is
  well-formed, and no match lists a member twice.\<close>

theorem platform_invariant:
  assumes "app_wired (mh_service h) tab clk" "map_orders_ok h" "platform_run h tab st"
  shows "(\<forall>k p dl. prefix ''match:player:'' k \<and> tab (w_redis (hs_world st)) k = Some (DPlayer p, dl) \<longrightarrow> distinct_orders (ps_Answers p)) \<and>
    (\<forall>t1 t2 p q. waiting (hs_queue st) t1 = Some p \<and> waiting (hs_queue st) t2 = Some q \<and> wp_UserID p \<noteq> wp_UserID q \<longrightarrow> \<not> isCompatible p q) \<and>
    (\<forall>code r. hs_rooms st code = Some r \<longrightarrow> room_ok code r) \<and> (\<forall>m. distinct (users_of (hs_hub st) m))"
proof -
  note ok = platform_run_ok [OF assms(3,2)]
  have store: "store_ok (tab (w_redis (hs_world st)))"
    using match_run_store_ok [OF assms(1)] ok by (simp add: platform_ok_def)
  have "distinct_orders (ps_Answers p)" if "prefix ''match:player:'' k" "tab (w_redis (hs_world st)) k = Some (DPlayer p, dl)" for k p dl
  proof -
    have "\<not> other_key k" using that(1) by (auto simp: other_key_def prefix_def)
    with store_okD [OF store that(2)] show ?thesis by simp
  qed
  moreover have "\<not> isCompatible p q" if "waiting (hs_queue st) t1 = Some p" "waiting (hs_queue st) t2 = Some q" "wp_UserID p \<noteq> wp_UserID q" for t1 t2 p q
    using that ok unfolding platform_ok_def queue_inv_def matchable_def by blast
  moreover have "room_ok code r" if "hs_rooms st code = Some r" for code r
    using ok room_run_ok rooms_okD that unfolding platform_ok_def by blast
  moreover have "distinct (users_of (hs_hub st) m)" for m
    by (rule hub_ok_distinct [OF hub_run_ok [OF platform_hub [OF ok]]])
  ultimately show ?thesis by blast
qed

theorem platform_invariant_witness:
  "(\<exists>p. waiting (hs_queue ex_s2) 20 = Some p \<and> wp_UserID p = 1) \<and> distinct (users_of (hs_hub ex_s2) 9)"
proof -
  have s: "mh_service ex_h = ex_ms" by (simp add: ex_h_def)
  from platform_invariant [of ex_h mem_tab mem_clk ex_s2, unfolded s, OF ex_wired ex_h_orders ex_s2_run] ex_s2_sel(1)
  show ?thesis by auto
qed

end
